(* ===== verification/Prelude.thy ===== *)
theory Prelude
  imports Main "HOL-Library.Word" "HOL-Library.List_Lexorder" "HOL-Library.Char_ord"
begin

text \<open>
  Shared vocabulary of the development: the machine types of the C++ code, the
  named theorem collections, big-endian (network order) reads and writes as
  done with \<open>qToBigEndian\<close> / \<open>qFromBigEndian\<close>, and slices of byte arrays.

  Conventions: a \<open>QByteArray\<close> is a list of 8-bit words, a \<open>QString\<close> is the
  list of its UTF-16 code units, unsigned C++ integers are words of their
  width; \<open>qint64\<close> time stamps and sizes are \<open>int\<close> with the range stated where
  it matters.
\<close>

unbundle bit_operations_syntax

type_synonym u8 = "8 word"
type_synonym u16 = "16 word"
type_synonym u32 = "32 word"
type_synonym bytes = "8 word list"
type_synonym qstring = "16 word list"

named_theorems be_simps \<open>reading back what a big-endian write produced\<close>
named_theorems wf_intros \<open>introduction rules for the component invariants\<close>

section \<open>Big-endian integers\<close>

definition be16 :: "u16 \<Rightarrow> bytes" where
  "be16 w = [ucast (drop_bit 8 w), ucast w]"

definition be32 :: "u32 \<Rightarrow> bytes" where
  "be32 w = [ucast (drop_bit 24 w), ucast (drop_bit 16 w), ucast (drop_bit 8 w), ucast w]"

definition rd16 :: "bytes \<Rightarrow> nat \<Rightarrow> u16" where
  "rd16 bs i = push_bit 8 (ucast (bs ! i)) OR ucast (bs ! (i + 1))"

definition rd32 :: "bytes \<Rightarrow> nat \<Rightarrow> u32" where
  "rd32 bs i = push_bit 24 (ucast (bs ! i)) OR push_bit 16 (ucast (bs ! (i + 1)))
     OR push_bit 8 (ucast (bs ! (i + 2))) OR ucast (bs ! (i + 3))"

lemma length_be16 [simp]: "length (be16 w) = 2"
  by (simp add: be16_def)

lemma length_be32 [simp]: "length (be32 w) = 4"
  by (simp add: be32_def)

lemma join16: "push_bit 8 (ucast (ucast (drop_bit 8 w) :: u8)) OR ucast (ucast w :: u8) = (w :: u16)"
  by (rule bit_word_eqI) (auto simp: bit_simps)

lemma join32:
  "push_bit 24 (ucast (ucast (drop_bit 24 w) :: u8)) OR push_bit 16 (ucast (ucast (drop_bit 16 w) :: u8))
     OR push_bit 8 (ucast (ucast (drop_bit 8 w) :: u8)) OR ucast (ucast w :: u8) = (w :: u32)"
    (is "?l = w")
proof (rule bit_word_eqI)
  fix n assume "n < LENGTH(32)"
  then consider "n < 8" | "8 \<le> n" "n < 16" | "16 \<le> n" "n < 24" | "24 \<le> n" "n < 32"
    by fastforce
  then show "bit ?l n = bit w n"
    by cases (auto simp: bit_simps)
qed

text \<open>A big-endian field written after a prefix is read back at the prefix's length.\<close>

lemma rd16_be16 [be_simps]: "length p = i \<Longrightarrow> rd16 (p @ be16 w @ s) i = w"
  by (simp add: rd16_def be16_def nth_append join16)

lemma rd32_be32 [be_simps]: "length p = i \<Longrightarrow> rd32 (p @ be32 w @ s) i = w"
  by (simp add: rd32_def be32_def nth_append join32)

lemma rd32_be32_end [be_simps]: "length p = i \<Longrightarrow> rd32 (p @ be32 w) i = w"
  using rd32_be32 [of p i w "[]"] by simp

lemma bit_u8_bound: "8 \<le> n \<Longrightarrow> \<not> bit (w :: u8) n"
  using bit_imp_le_length [of w n] by auto

text \<open>Conversely, the bytes at an offset are the big-endian form of the value read there.\<close>

lemma split16: "be16 (push_bit 8 (ucast a) OR ucast b) = [a, b]" for a b :: u8
  by (auto simp: be16_def bit_simps bit_u8_bound intro!: bit_word_eqI)

lemma split32:
  "be32 (push_bit 24 (ucast a) OR push_bit 16 (ucast b) OR push_bit 8 (ucast c) OR ucast d) = [a, b, c, d]"
  for a b c d :: u8
  by (auto simp: be32_def bit_simps bit_u8_bound intro!: bit_word_eqI)

lemma be16_rd16: "i + 1 < length bs \<Longrightarrow> be16 (rd16 bs i) = [bs ! i, bs ! (i + 1)]"
  by (simp add: rd16_def split16)

lemma be32_rd32:
  "be32 (rd32 bs i) = [bs ! i, bs ! (i + 1), bs ! (i + 2), bs ! (i + 3)]"
  by (simp only: rd32_def split32)

lemma drop_two: "i + 1 < length xs \<Longrightarrow> drop i xs = xs ! i # xs ! (i + 1) # drop (i + 2) xs"
  by (metis Cons_nth_drop_Suc Suc_eq_plus1 Suc_lessD add_2_eq_Suc')

lemma drop_four:
  assumes "i + 3 < length xs"
  shows "drop i xs = xs ! i # xs ! (i + 1) # xs ! (i + 2) # xs ! (i + 3) # drop (i + 4) xs"
  using assms drop_two [of i xs] drop_two [of "i + 2" xs] by (simp add: numeral_eq_Suc)

lemma be16_inj [simp]: "be16 a = be16 b \<longleftrightarrow> a = b"
  by (metis append_Nil append_Nil2 length_0_conv rd16_be16)

lemma be32_inj [simp]: "be32 a = be32 b \<longleftrightarrow> a = b"
  by (metis append_Nil length_0_conv rd32_be32_end)

lemma rd16_take: "i + 1 < n \<Longrightarrow> rd16 (take n bs) i = rd16 bs i"
  by (simp add: rd16_def)

lemma rd32_take: "i + 3 < n \<Longrightarrow> rd32 (take n bs) i = rd32 bs i"
  by (simp add: rd32_def)

lemma rd16_append: "i + 1 < length bs \<Longrightarrow> rd16 (bs @ cs) i = rd16 bs i"
  by (simp add: rd16_def nth_append)

lemma rd32_append: "i + 3 < length bs \<Longrightarrow> rd32 (bs @ cs) i = rd32 bs i"
  by (simp add: rd32_def nth_append)

section \<open>Slices of byte arrays\<close>

text \<open>\<open>QByteArray::mid(pos, len)\<close> for a position and a length that are not negative.\<close>

definition mid :: "'a list \<Rightarrow> nat \<Rightarrow> nat \<Rightarrow> 'a list" where
  "mid xs pos n = take n (drop pos xs)"

lemma length_mid [simp]: "length (mid xs pos n) = min n (length xs - pos)"
  by (simp add: mid_def min.commute)

lemma mid_append [simp]: "length p = pos \<Longrightarrow> length m = n \<Longrightarrow> mid (p @ m @ s) pos n = m"
  by (simp add: mid_def)

lemma mid_append_end [simp]: "length p = pos \<Longrightarrow> length m = n \<Longrightarrow> mid (p @ m) pos n = m"
  by (simp add: mid_def)

lemma take_drop_append [simp]: "take n xs @ drop n xs @ ys = xs @ ys"
  by (simp flip: append_assoc)

text \<open>The value of \<open>static_cast<int>\<close> on a 32-bit unsigned number.\<close>

lemma sint_u32: "sint w = (if unat w < 2 ^ 31 then int (unat w) else int (unat w) - 2 ^ 32)"
  for w :: u32
proof -
  define n where "n = unat w"
  have lt: "n < 2 ^ 32" using unsigned_less [of w] by (simp add: n_def)
  have "sint w = (int n + 2 ^ 31) mod 2 ^ 32 - 2 ^ 31"
    using int_word_sint [where 'a=32, of "uint w"] by (simp add: n_def)
  also have "(int n + 2 ^ 31) mod 2 ^ 32 = (if n < 2 ^ 31 then int n + 2 ^ 31 else int n - 2 ^ 31)"
    using lt by (auto intro: int_mod_pos_eq [where q = 1] int_mod_pos_eq [where q = 0])
  finally show ?thesis by (simp add: n_def [symmetric] split: if_splits)
qed

lemma unat_of_nat_u32: "n < 2 ^ 32 \<Longrightarrow> unat (of_nat n :: u32) = n"
  by (simp add: unat_of_nat take_bit_nat_eq_self)

section \<open>The codec interface\<close>

text \<open>
  Every wire format of the program is an encoder with a partial decoder. The round trip
  on the values in range is what the layers above rely on; a canonical format also
  accepts nothing but its own encodings.
\<close>

locale codec =
  fixes enc :: "'a \<Rightarrow> 'b" and dec :: "'b \<Rightarrow> 'a option" and valid :: "'a \<Rightarrow> bool"
  assumes dec_enc: "valid x \<Longrightarrow> dec (enc x) = Some x"
begin

lemma enc_inj: "valid x \<Longrightarrow> valid y \<Longrightarrow> enc x = enc y \<longleftrightarrow> x = y"
  by (metis dec_enc option.inject)

lemma dec_map: "list_all valid xs \<Longrightarrow> map (\<lambda>x. dec (enc x)) xs = map Some xs"
  by (induction xs) (simp_all add: dec_enc)

end

locale canonical_codec = codec +
  assumes dec_valid: "dec b = Some x \<Longrightarrow> valid x"
    and enc_dec: "dec b = Some x \<Longrightarrow> enc x = b"
begin

lemma dec_iff: "dec b = Some x \<longleftrightarrow> valid x \<and> b = enc x"
  using dec_enc dec_valid enc_dec by blast

lemma dec_inj: "dec a = Some x \<Longrightarrow> dec b = Some x \<Longrightarrow> a = b"
  by (simp add: dec_iff)

lemma dec_None: "(\<And>x. valid x \<Longrightarrow> b \<noteq> enc x) \<Longrightarrow> dec b = None"
  by (cases "dec b") (auto simp: dec_iff)

end

end
