(* ===== verification/QMap.thy ===== *)
theory QMap
  imports Prelude
begin

text \<open>
  \<open>QMap\<close>, the ordered map of the code: a list of key-value pairs with ascending keys,
  so that iteration, \<open>keys()\<close> and \<open>values()\<close> have the order the code sees. The
  controllers use it only through lookup, insertion, removal and erasing while
  iterating; the locale \<open>key_store\<close> states that contract, and its lemmas are the
  reasoning the clients share.
\<close>

section \<open>Operations\<close>

type_synonym ('k, 'v) qmap = "('k \<times> 'v) list"

fun qm_insert :: "'k::linorder \<Rightarrow> 'v \<Rightarrow> ('k, 'v) qmap \<Rightarrow> ('k, 'v) qmap" where
  "qm_insert k v [] = [(k, v)]"
| "qm_insert k v ((k', v') # m) =
     (if k = k' then (k, v) # m
      else if k < k' then (k, v) # (k', v') # m
      else (k', v') # qm_insert k v m)"

definition qm_value :: "('k, 'v) qmap \<Rightarrow> 'k \<Rightarrow> 'v option" where
  "qm_value m k = map_of m k"

definition qm_contains :: "('k, 'v) qmap \<Rightarrow> 'k \<Rightarrow> bool" where
  "qm_contains m k = (qm_value m k \<noteq> None)"

definition qm_remove :: "'k \<Rightarrow> ('k, 'v) qmap \<Rightarrow> ('k, 'v) qmap" where
  "qm_remove k m = filter (\<lambda>p. fst p \<noteq> k) m"

text \<open>Erasing with an iterator: \<open>it = keep ? ++it : m.erase(it)\<close>.\<close>

definition qm_retain :: "('k \<Rightarrow> 'v \<Rightarrow> bool) \<Rightarrow> ('k, 'v) qmap \<Rightarrow> ('k, 'v) qmap" where
  "qm_retain keep m = filter (\<lambda>p. keep (fst p) (snd p)) m"

definition qm_keys :: "('k, 'v) qmap \<Rightarrow> 'k list" where
  "qm_keys m = map fst m"

definition qm_values :: "('k, 'v) qmap \<Rightarrow> 'v list" where
  "qm_values m = map snd m"

definition qm_ok :: "('k::linorder, 'v) qmap \<Rightarrow> bool" where
  "qm_ok m = sorted_wrt (<) (qm_keys m)"

section \<open>Laws\<close>

lemma qm_value_Nil [simp]: "qm_value [] k = None"
  by (simp add: qm_value_def)

lemma qm_value_insert [simp]:
  "qm_value (qm_insert k v m) k' = (if k' = k then Some v else qm_value m k')"
  by (induction m) (auto simp: qm_value_def)

lemma qm_value_remove [simp]: "qm_value (qm_remove k m) k' = (if k' = k then None else qm_value m k')"
  by (induction m) (auto simp: qm_value_def qm_remove_def)

lemma qm_contains_iff: "qm_contains m k \<longleftrightarrow> k \<in> set (qm_keys m)"
  by (simp add: qm_contains_def qm_value_def qm_keys_def map_of_eq_None_iff)

lemma qm_keys_simps [simp]: "qm_keys [] = []" "qm_keys (p # m) = fst p # qm_keys m"
  by (simp_all add: qm_keys_def)

lemma keys_insert [simp]: "set (qm_keys (qm_insert k v m)) = insert k (set (qm_keys m))"
proof (induction m)
  case (Cons p m)
  then show ?case by (cases p) auto
qed simp

lemma keys_remove [simp]: "set (qm_keys (qm_remove k m)) = set (qm_keys m) - {k}"
  by (auto simp: qm_keys_def qm_remove_def)

lemma qm_ok_Nil [simp]: "qm_ok []"
  by (simp add: qm_ok_def qm_keys_def)

lemma qm_ok_Cons: "qm_ok (p # m) \<longleftrightarrow> (\<forall>k \<in> set (qm_keys m). fst p < k) \<and> qm_ok m"
  by (simp add: qm_ok_def)

lemma qm_ok_insert [simp]: "qm_ok m \<Longrightarrow> qm_ok (qm_insert k v m)"
proof (induction m)
  case (Cons p m)
  then show ?case
    by (cases p) (auto simp: qm_ok_Cons)
qed (simp add: qm_ok_Cons qm_keys_def)

lemma qm_ok_filter: "qm_ok m \<Longrightarrow> qm_ok (filter P m)"
  by (induction m) (auto simp: qm_ok_Cons qm_keys_def)

lemma qm_ok_remove [simp]: "qm_ok m \<Longrightarrow> qm_ok (qm_remove k m)"
  by (simp add: qm_remove_def qm_ok_filter)

lemma qm_ok_retain [simp]: "qm_ok m \<Longrightarrow> qm_ok (qm_retain P m)"
  by (simp add: qm_retain_def qm_ok_filter)

lemma qm_value_retain:
  "qm_ok m \<Longrightarrow> qm_value (qm_retain P m) k =
     (case qm_value m k of None \<Rightarrow> None | Some v \<Rightarrow> if P k v then Some v else None)"
proof (induction m)
  case (Cons p m)
  have "fst p \<notin> set (qm_keys m)" using Cons.prems by (auto simp: qm_ok_Cons)
  then have "map_of m (fst p) = None" by (simp add: qm_keys_def map_of_eq_None_iff)
  with Cons show ?case
    by (auto simp: qm_ok_Cons qm_value_def qm_retain_def split: option.splits)
qed (simp add: qm_retain_def)

lemma qm_value_in_set: "qm_ok m \<Longrightarrow> qm_value m k = Some v \<longleftrightarrow> (k, v) \<in> set m"
  unfolding qm_value_def qm_ok_def qm_keys_def
  by (rule map_of_eq_Some_iff) (simp add: strict_sorted_iff)

text \<open>Two well-formed maps with the same contents are the same list.\<close>

lemma qm_ext: "qm_ok m \<Longrightarrow> qm_ok n \<Longrightarrow> (\<And>k. qm_value m k = qm_value n k) \<Longrightarrow> m = n"
proof -
  assume ok: "qm_ok m" "qm_ok n" and eq: "\<And>k. qm_value m k = qm_value n k"
  have s: "set m = set n"
  proof (rule set_eqI)
    fix p show "p \<in> set m \<longleftrightarrow> p \<in> set n"
      using eq [of "fst p"] ok qm_value_in_set [of m "fst p" "snd p"] qm_value_in_set [of n "fst p" "snd p"]
      by simp
  qed
  have "sorted_wrt (\<lambda>a b. fst a < fst b) m" "sorted_wrt (\<lambda>a b. fst a < fst b) n"
    using ok by (simp_all add: qm_ok_def qm_keys_def sorted_wrt_map)
  then show "m = n" using s
  proof (induction m arbitrary: n)
    case (Cons a m)
    then obtain b n' where n: "n = b # n'" by (cases n) auto
    have "a = b" using Cons.prems n by (metis insert_iff list.simps(15) order_less_asym sorted_wrt.simps(2))
    moreover have "set m = set n'"
      using Cons.prems n \<open>a = b\<close> by (auto dest: order_less_irrefl [THEN notE])
    ultimately show ?case using Cons n by simp
  qed simp
qed

lemma qm_insert_same: "qm_value m k = Some v \<Longrightarrow> qm_ok m \<Longrightarrow> qm_insert k v m = m"
  by (rule qm_ext) auto

lemma list_all_qm_insert: "list_all P m \<Longrightarrow> P (k, v) \<Longrightarrow> list_all P (qm_insert k v m)"
  by (induction k v m rule: qm_insert.induct) (auto simp: qm_insert.simps)

lemma length_qm_insert_le: "length (qm_insert k v m) \<le> Suc (length m)"
  by (induction k v m rule: qm_insert.induct) (auto simp: qm_insert.simps)

lemma length_qm_insert_present:
  "qm_value m k \<noteq> None \<Longrightarrow> qm_ok m \<Longrightarrow> length (qm_insert k v m) = length m"
proof (induction k v m rule: qm_insert.induct)
  case (2 k v k' v' m)
  have "\<not> k < k'" if "k \<noteq> k'"
    using 2 that qm_contains_iff [of m k] by (auto simp: qm_ok_Cons qm_contains_def qm_value_def)
  with 2 show ?case by (auto simp: qm_ok_Cons qm_value_def)
qed simp

lemma list_all_qm_value: "list_all P m \<Longrightarrow> qm_value m k = Some v \<Longrightarrow> P (k, v)"
  unfolding qm_value_def list_all_iff by (auto dest: map_of_SomeD)

lemma list_all_filter: "list_all P m \<Longrightarrow> list_all P (filter Q m)"
  by (auto simp: list_all_iff)

lemma qm_insert_twice [simp]: "qm_insert k v (qm_insert k w m) = qm_insert k v m"
proof (induction m)
  case (Cons p m)
  then show ?case by (cases p) auto
qed simp

declare qm_insert.simps [simp del]

section \<open>The interface\<close>

locale key_store =
  fixes empty :: 'm and ins :: "'k \<Rightarrow> 'v \<Rightarrow> 'm \<Rightarrow> 'm" and rem :: "'k \<Rightarrow> 'm \<Rightarrow> 'm"
    and retain :: "('k \<Rightarrow> 'v \<Rightarrow> bool) \<Rightarrow> 'm \<Rightarrow> 'm"
    and look :: "'m \<Rightarrow> 'k \<Rightarrow> 'v option" and ok :: "'m \<Rightarrow> bool"
  assumes look_empty: "look empty k = None"
    and look_ins: "look (ins k v m) k' = (if k' = k then Some v else look m k')"
    and look_rem: "look (rem k m) k' = (if k' = k then None else look m k')"
    and look_retain: "ok m \<Longrightarrow> look (retain P m) k =
      (case look m k of None \<Rightarrow> None | Some v \<Rightarrow> if P k v then Some v else None)"
    and ok_empty: "ok empty"
    and ok_ins: "ok m \<Longrightarrow> ok (ins k v m)"
    and ok_rem: "ok m \<Longrightarrow> ok (rem k m)"
    and ok_retain: "ok m \<Longrightarrow> ok (retain P m)"
begin

lemma look_ins_same: "look (ins k v m) k = Some v"
  by (simp add: look_ins)

lemma look_retain_Some: "ok m \<Longrightarrow> look (retain P m) k = Some v \<longleftrightarrow> look m k = Some v \<and> P k v"
  by (auto simp: look_retain split: option.splits)

lemma look_fold_rem:
  "look (fold rem ks m) k = (if k \<in> set ks then None else look m k)"
  by (induction ks arbitrary: m) (simp_all add: look_rem)

lemma ok_fold_rem: "ok m \<Longrightarrow> ok (fold rem ks m)"
  by (induction ks arbitrary: m) (simp_all add: ok_rem)

end

interpretation qm: key_store "[]" qm_insert qm_remove qm_retain qm_value qm_ok
  by unfold_locales (simp_all add: qm_value_retain)

end
