(* ===== verification/QtBase.thy ===== *)
theory QtBase
  imports QMap
begin

text \<open>
  The part of Qt the code calls. String and byte operations whose documentation fixes
  their result (comparison, slicing, \<open>trimmed\<close>, \<open>replace\<close>, \<open>startsWith\<close>, decimal
  numbers) are defined here; text codecs, the JSON reader and writer, Base64, path and
  address parsing are fields of the record \<open>qt_lib\<close>, a parameter of every definition
  that uses one, and the documented laws a theorem needs are named predicates on it.
\<close>

section \<open>Strings\<close>

text \<open>A string literal of the source; all of them are ASCII.\<close>

definition qs :: "string \<Rightarrow> qstring" where
  "qs s = map (\<lambda>c. word_of_nat (of_char c)) s"

lemma qs_Nil [simp]: "qs [] = []"
  by (simp add: qs_def)

lemma qs_append [simp]: "qs (a @ b) = qs a @ qs b"
  by (simp add: qs_def)

lemma length_qs [simp]: "length (qs s) = length s"
  by (simp add: qs_def)

lemma char_unit_inj: "(word_of_nat (of_char c) :: u16) = word_of_nat (of_char d) \<longleftrightarrow> c = d"
proof -
  have "of_char c < (256 :: nat)" for c :: char by (rule nat_of_char_less_256)
  then have "unat (word_of_nat (of_char c) :: u16) = of_char c" for c :: char
    by (simp add: unat_of_nat take_bit_nat_eq_self less_trans [of _ 256])
  then show ?thesis by (metis of_char_eq_iff)
qed

lemma qs_inj [simp]: "qs a = qs b \<longleftrightarrow> a = b"
  unfolding qs_def by (rule inj_map_eq_map) (simp add: inj_def char_unit_inj)

lemma qs_eq_Nil [simp]: "qs s = [] \<longleftrightarrow> s = []" "[] = qs s \<longleftrightarrow> s = []"
  by (simp_all add: qs_def)

text \<open>\<open>QChar::isSpace\<close>: the ASCII controls and the Unicode separators.\<close>

definition q_isSpace :: "u16 \<Rightarrow> bool" where
  "q_isSpace u = (u = 0x20 \<or> (0x09 \<le> u \<and> u \<le> 0x0D) \<or> u = 0x85 \<or> u = 0xA0 \<or> u = 0x1680
     \<or> (0x2000 \<le> u \<and> u \<le> 0x200A) \<or> u = 0x2028 \<or> u = 0x2029 \<or> u = 0x202F \<or> u = 0x205F \<or> u = 0x3000)"

definition q_trimmed :: "qstring \<Rightarrow> qstring" where
  "q_trimmed s = rev (dropWhile q_isSpace (rev (dropWhile q_isSpace s)))"

definition q_startsWith :: "qstring \<Rightarrow> qstring \<Rightarrow> bool" where
  "q_startsWith s p = (take (length p) s = p)"

text \<open>\<open>s.replace(before, after)\<close> for a non-empty \<open>before\<close>: occurrences from the left, not overlapping.\<close>

function q_replace :: "qstring \<Rightarrow> qstring \<Rightarrow> qstring \<Rightarrow> qstring" where
  "q_replace b a s =
     (if b = [] \<or> s = [] then s
      else if q_startsWith s b then a @ q_replace b a (drop (length b) s)
      else hd s # q_replace b a (tl s))"
  by pat_completeness auto
termination
  by (relation "measure (\<lambda>(b, a, s). length s)") auto

declare q_replace.simps [simp del]

text \<open>\<open>indexOf\<close> and \<open>lastIndexOf\<close> of one character; \<open>None\<close> stands for -1.\<close>

fun q_indexOf :: "u16 \<Rightarrow> qstring \<Rightarrow> nat option" where
  "q_indexOf c [] = None"
| "q_indexOf c (x # xs) = (if x = c then Some 0 else map_option Suc (q_indexOf c xs))"

fun q_lastIndexOf :: "u16 \<Rightarrow> qstring \<Rightarrow> nat option" where
  "q_lastIndexOf c [] = None"
| "q_lastIndexOf c (x # xs) =
     (case q_lastIndexOf c xs of Some i \<Rightarrow> Some (Suc i) | None \<Rightarrow> if x = c then Some 0 else None)"

text \<open>\<open>QByteArray::number\<close>: decimal digits with a minus sign where it is needed.\<close>

fun dec_digits :: "nat \<Rightarrow> bytes" where
  "dec_digits n = (if n < 10 then [word_of_nat (0x30 + n)]
     else dec_digits (n div 10) @ [word_of_nat (0x30 + n mod 10)])"

declare dec_digits.simps [simp del]

definition qb_number :: "int \<Rightarrow> bytes" where
  "qb_number i = (if i < 0 then 0x2D # dec_digits (nat (- i)) else dec_digits (nat i))"

lemma dec_digits_neq_Nil [simp]: "dec_digits n \<noteq> []"
  by (subst dec_digits.simps) simp

section \<open>Trimming\<close>

lemma q_trimmed_last: "q_trimmed s \<noteq> [] \<Longrightarrow> \<not> q_isSpace (last (q_trimmed s))"
  unfolding q_trimmed_def by (metis hd_dropWhile last_rev rev_is_Nil_conv)

lemma dropWhile_rev_dropWhile:
  "dropWhile P (rev (dropWhile P s)) = [] \<or> \<not> P (last (dropWhile P (rev (dropWhile P s))))"
proof -
  let ?t = "dropWhile P s"
  show ?thesis
  proof (cases "?t")
    case Nil
    then have "dropWhile P (rev ?t) = []" by (simp only: rev.simps dropWhile.simps)
    then show ?thesis ..
  next
    case (Cons x xs)
    then have "\<not> P x" by (metis dropWhile_eq_Cons_conv)
    then have "dropWhile P (rev xs @ [x]) = dropWhile P (rev xs) @ [x] \<or> dropWhile P (rev xs @ [x]) = [x]"
      by (cases "\<exists>y \<in> set (rev xs). \<not> P y") (auto simp: dropWhile_append3 dropWhile_append1)
    with \<open>\<not> P x\<close> Cons show ?thesis by auto
  qed
qed

lemma q_trimmed_hd: "q_trimmed s \<noteq> [] \<Longrightarrow> \<not> q_isSpace (hd (q_trimmed s))"
  unfolding q_trimmed_def
  using dropWhile_rev_dropWhile [of q_isSpace s] by (auto simp: hd_rev)

lemma q_trimmed_infix: "\<exists>a b. s = a @ q_trimmed s @ b"
proof -
  let ?t = "dropWhile q_isSpace s"
  have "s = takeWhile q_isSpace s @ ?t" by simp
  also have "?t = rev (dropWhile q_isSpace (rev ?t)) @ rev (takeWhile q_isSpace (rev ?t))"
    by (metis rev_append rev_rev_ident takeWhile_dropWhile_id)
  finally show ?thesis unfolding q_trimmed_def by blast
qed

lemma set_q_trimmed: "set (q_trimmed s) \<subseteq> set s"
  using q_trimmed_infix [of s] by (metis set_append Un_iff subsetI)

lemma q_trimmed_id: "s \<noteq> [] \<Longrightarrow> \<not> q_isSpace (hd s) \<Longrightarrow> \<not> q_isSpace (last s) \<Longrightarrow> q_trimmed s = s"
proof -
  assume s: "s \<noteq> []" "\<not> q_isSpace (hd s)" "\<not> q_isSpace (last s)"
  then have "dropWhile q_isSpace s = s" by (cases s) auto
  moreover have "dropWhile q_isSpace (rev s) = rev s"
    using s by (cases s rule: rev_cases) auto
  ultimately show ?thesis by (simp add: q_trimmed_def)
qed

section \<open>JSON objects\<close>

text \<open>
  The messages are flat objects. \<open>JInt\<close> is a number that is a 64-bit integer; \<open>JOther\<close>
  stands for every value the code never writes and for which each getter returns its
  default (fractions, arrays, nested objects). Keys are ASCII literals.
\<close>

datatype jval = JNull | JBool bool | JInt int | JStr qstring | JOther

type_synonym json_obj = "(string, jval) qmap"

text \<open>\<open>json[key].toString(d)\<close>, \<open>toInteger()\<close>, \<open>toInt(d)\<close>, \<open>toBool()\<close>, \<open>isNull()\<close>; a missing key reads as undefined.\<close>

definition j_string :: "json_obj \<Rightarrow> string \<Rightarrow> qstring \<Rightarrow> qstring" where
  "j_string obj k d = (case qm_value obj k of Some (JStr s) \<Rightarrow> s | _ \<Rightarrow> d)"

definition j_integer :: "json_obj \<Rightarrow> string \<Rightarrow> int" where
  "j_integer obj k = (case qm_value obj k of Some (JInt i) \<Rightarrow> i | _ \<Rightarrow> 0)"

definition j_int :: "json_obj \<Rightarrow> string \<Rightarrow> int \<Rightarrow> int" where
  "j_int obj k d = (case qm_value obj k of
      Some (JInt i) \<Rightarrow> if - (2 ^ 31) \<le> i \<and> i < 2 ^ 31 then i else d | _ \<Rightarrow> d)"

definition j_bool :: "json_obj \<Rightarrow> string \<Rightarrow> bool" where
  "j_bool obj k = (case qm_value obj k of Some (JBool b) \<Rightarrow> b | _ \<Rightarrow> False)"

definition j_isNull :: "json_obj \<Rightarrow> string \<Rightarrow> bool" where
  "j_isNull obj k = (qm_value obj k = Some JNull)"

lemmas j_defs = j_string_def j_integer_def j_int_def j_bool_def j_isNull_def qm_contains_def

text \<open>UTF-16 text: every surrogate is one of a high-low pair.\<close>

fun q_utf16 :: "qstring \<Rightarrow> bool" where
  "q_utf16 [] = True"
| "q_utf16 (u # us) =
     (if 0xD800 \<le> u \<and> u \<le> 0xDBFF
      then (case us of v # vs \<Rightarrow> 0xDC00 \<le> v \<and> v \<le> 0xDFFF \<and> q_utf16 vs | [] \<Rightarrow> False)
      else \<not> (0xDC00 \<le> u \<and> u \<le> 0xDFFF) \<and> q_utf16 us)"

definition q_ascii :: "qstring \<Rightarrow> bool" where
  "q_ascii s = list_all (\<lambda>u. u < 128) s"

lemma q_ascii_utf16: "q_ascii s \<Longrightarrow> q_utf16 s"
  by (induction s) (auto simp: q_ascii_def word_le_nat_alt word_less_nat_alt)

text \<open>What can be written: keys in order, integers of 64 bits, text without stray surrogates.\<close>

fun jval_wf :: "jval \<Rightarrow> bool" where
  "jval_wf (JInt i) = (- (2 ^ 63) \<le> i \<and> i < 2 ^ 63)"
| "jval_wf (JStr s) = q_utf16 s"
| "jval_wf JOther = False"
| "jval_wf _ = True"

definition json_wf :: "json_obj \<Rightarrow> bool" where
  "json_wf obj = (qm_ok obj \<and> list_all (\<lambda>p. jval_wf (snd p)) obj)"

lemma json_wf_Nil [wf_intros]: "json_wf []"
  by (simp add: json_wf_def)

lemma json_wf_insert [wf_intros]: "json_wf obj \<Longrightarrow> jval_wf v \<Longrightarrow> json_wf (qm_insert k v obj)"
  by (simp add: json_wf_def list_all_qm_insert)

section \<open>Library parameters\<close>

datatype host_addr = NullAddr | IPv4Addr u32 | OtherAddr

record qt_lib =
  to_utf8 :: "qstring \<Rightarrow> bytes"                  \<comment> \<open>\<open>QString::toUtf8\<close>\<close>
  from_utf8 :: "bytes \<Rightarrow> qstring"                \<comment> \<open>\<open>QString::fromUtf8\<close>\<close>
  to_lower :: "qstring \<Rightarrow> qstring"               \<comment> \<open>\<open>QString::toLower\<close>\<close>
  path_fileName :: "qstring \<Rightarrow> qstring"          \<comment> \<open>\<open>QFileInfo(path).fileName()\<close>\<close>
  json_read :: "bytes \<Rightarrow> json_obj option"        \<comment> \<open>\<open>QJsonDocument::fromJson\<close>, when it is an object\<close>
  json_write :: "json_obj \<Rightarrow> bytes"              \<comment> \<open>\<open>QJsonDocument(obj).toJson(Compact)\<close>\<close>
  to_base64 :: "bytes \<Rightarrow> qstring"                \<comment> \<open>\<open>QByteArray::toBase64\<close>\<close>
  from_base64 :: "qstring \<Rightarrow> bytes"              \<comment> \<open>\<open>QByteArray::fromBase64(s.toUtf8())\<close>\<close>
  host_parse :: "qstring \<Rightarrow> host_addr"           \<comment> \<open>\<open>QHostAddress(s)\<close>\<close>
  to_uint :: "qstring \<Rightarrow> nat option"             \<comment> \<open>\<open>QString::toUInt\<close>, with its \<open>ok\<close> flag\<close>

text \<open>The documented laws.\<close>

definition json_roundtrip :: "qt_lib \<Rightarrow> bool" where
  "json_roundtrip qt = (\<forall>obj. json_wf obj \<longrightarrow> json_read qt (json_write qt obj) = Some obj)"

definition utf8_roundtrip :: "qt_lib \<Rightarrow> bool" where
  "utf8_roundtrip qt = (\<forall>s. q_utf16 s \<longrightarrow> from_utf8 qt (to_utf8 qt s) = s)"

definition utf8_ascii :: "qt_lib \<Rightarrow> bool" where
  "utf8_ascii qt = ((\<forall>s. q_ascii s \<longrightarrow> to_utf8 qt s = map ucast s)
     \<and> (\<forall>b. list_all (\<lambda>x. x < 128) b \<longrightarrow> from_utf8 qt b = map ucast b))"

definition base64_roundtrip :: "qt_lib \<Rightarrow> bool" where
  "base64_roundtrip qt = (\<forall>b. from_base64 qt (to_base64 qt b) = b)"

lemma json_roundtripD: "json_roundtrip qt \<Longrightarrow> json_wf obj \<Longrightarrow> json_read qt (json_write qt obj) = Some obj"
  by (simp add: json_roundtrip_def)

end
