(* ===== verification/Models.thy ===== *)
theory Models
  imports QtBase
begin

text \<open>
  The messages of src/protocol/models.cpp: the structs of models.h as records, each
  \<open>toJson\<close> and \<open>fromJson\<close> (with \<open>std::nullopt\<close> as \<open>None\<close>), the file name
  sanitiser, the binary file chunk, and the pairing transcripts. A call of
  \<open>QDateTime::currentSecsSinceEpoch\<close> is the argument \<open>now\<close>, a fresh UUID the
  argument \<open>uuid\<close>.
\<close>

section \<open>Devices\<close>

datatype platform = Linux | Android | Windows | UnknownPlatform

fun platformToString :: "platform \<Rightarrow> qstring" where
  "platformToString Linux = qs ''linux''"
| "platformToString Android = qs ''android''"
| "platformToString Windows = qs ''windows''"
| "platformToString _ = qs ''unknown''"

definition stringToPlatform :: "qt_lib \<Rightarrow> qstring \<Rightarrow> platform" where
  "stringToPlatform qt str =
    (let s = to_lower qt str in
     if s = qs ''linux'' then Linux
     else if s = qs ''android'' then Android
     else if s = qs ''windows'' then Windows
     else UnknownPlatform)"

record device =
  dev_deviceId :: qstring
  dev_displayName :: qstring
  dev_platform :: platform
  dev_lastSeen :: int
  dev_isOnline :: bool
  dev_virtualIp :: qstring

definition toPresenceOnlineJson :: "int \<Rightarrow> device \<Rightarrow> json_obj" where
  "toPresenceOnlineJson now d =
    qm_insert ''timestamp'' (JInt now)
    (qm_insert ''platform'' (JStr (platformToString (dev_platform d)))
    (qm_insert ''display_name'' (JStr (dev_displayName d))
    (qm_insert ''device_id'' (JStr (dev_deviceId d))
    (qm_insert ''protocol_version'' (JInt 1)
    (qm_insert ''type'' (JStr (qs ''presence_online'')) [])))))"

definition toPresenceOfflineJson :: "device \<Rightarrow> json_obj" where
  "toPresenceOfflineJson d =
    qm_insert ''device_id'' (JStr (dev_deviceId d))
    (qm_insert ''type'' (JStr (qs ''presence_offline'')) [])"

definition fromPresenceJson :: "qt_lib \<Rightarrow> int \<Rightarrow> json_obj \<Rightarrow> device option" where
  "fromPresenceJson qt now json =
    (let deviceId = j_string json ''device_id'' [] in
     if deviceId = [] then None
     else Some \<lparr>
       dev_deviceId = deviceId,
       dev_displayName = j_string json ''display_name'' (qs ''Unknown Device''),
       dev_platform = stringToPlatform qt (j_string json ''platform'' []),
       dev_lastSeen = (if qm_contains json ''timestamp'' then j_integer json ''timestamp'' else now),
       dev_isOnline = (j_string json ''type'' [] = qs ''presence_online''),
       dev_virtualIp = []\<rparr>)"

record discovery_request =
  dr_deviceId :: qstring
  dr_timestamp :: int

definition DiscoveryRequest_toJson :: "int \<Rightarrow> discovery_request \<Rightarrow> json_obj" where
  "DiscoveryRequest_toJson now r =
    qm_insert ''timestamp'' (JInt (if dr_timestamp r > 0 then dr_timestamp r else now))
    (qm_insert ''device_id'' (JStr (dr_deviceId r))
    (qm_insert ''protocol_version'' (JInt 1)
    (qm_insert ''type'' (JStr (qs ''discovery_request'')) [])))"

definition DiscoveryRequest_fromJson :: "json_obj \<Rightarrow> discovery_request option" where
  "DiscoveryRequest_fromJson json =
    (if j_string json ''type'' [] \<noteq> qs ''discovery_request'' then None
     else let deviceId = j_string json ''device_id'' [] in
       if deviceId = [] then None
       else Some \<lparr>dr_deviceId = deviceId, dr_timestamp = j_integer json ''timestamp''\<rparr>)"

section \<open>Chat messages\<close>

definition MAX_CHAT_MESSAGE_CONTENT_SIZE :: nat where
  "MAX_CHAT_MESSAGE_CONTENT_SIZE = 64 * 1024"

definition generateMessageId :: "qstring \<Rightarrow> qstring" where
  "generateMessageId uuid = qs ''msg_'' @ uuid"

record chat_message =
  cm_messageId :: qstring
  cm_senderDeviceId :: qstring
  cm_recipientDeviceId :: qstring
  cm_content :: qstring
  cm_timestamp :: int
  cm_replyToMessageId :: "qstring option"

definition ChatMessage_toJson :: "int \<Rightarrow> chat_message \<Rightarrow> json_obj" where
  "ChatMessage_toJson now m =
    (let obj =
      qm_insert ''timestamp'' (JInt (if cm_timestamp m > 0 then cm_timestamp m else now))
      (qm_insert ''content'' (JStr (cm_content m))
      (qm_insert ''recipient_device_id'' (JStr (cm_recipientDeviceId m))
      (qm_insert ''sender_device_id'' (JStr (cm_senderDeviceId m))
      (qm_insert ''message_id'' (JStr (cm_messageId m)) []))))
     in case cm_replyToMessageId m of
          Some r \<Rightarrow> qm_insert ''reply_to_message_id'' (JStr r) obj
        | None \<Rightarrow> qm_insert ''reply_to_message_id'' JNull obj)"

definition ChatMessage_fromJson :: "qt_lib \<Rightarrow> json_obj \<Rightarrow> chat_message option" where
  "ChatMessage_fromJson qt json =
    (let msgId = j_string json ''message_id'' [];
         sender = j_string json ''sender_device_id'' [];
         recipient = j_string json ''recipient_device_id'' [] in
     if msgId = [] \<or> sender = [] \<or> recipient = [] then None
     else let content = j_string json ''content'' [] in
       if length (to_utf8 qt content) > MAX_CHAT_MESSAGE_CONTENT_SIZE then None
       else Some \<lparr>
         cm_messageId = msgId, cm_senderDeviceId = sender, cm_recipientDeviceId = recipient,
         cm_content = content, cm_timestamp = j_integer json ''timestamp'',
         cm_replyToMessageId =
           (if qm_contains json ''reply_to_message_id'' \<and> \<not> j_isNull json ''reply_to_message_id''
            then Some (j_string json ''reply_to_message_id'' []) else None)\<rparr>)"

record message_ack =
  ma_messageId :: qstring
  ma_status :: qstring
  ma_timestamp :: int

definition MessageAck_toJson :: "int \<Rightarrow> message_ack \<Rightarrow> json_obj" where
  "MessageAck_toJson now a =
    qm_insert ''timestamp'' (JInt (if ma_timestamp a > 0 then ma_timestamp a else now))
    (qm_insert ''status'' (JStr (ma_status a))
    (qm_insert ''message_id'' (JStr (ma_messageId a)) []))"

definition MessageAck_fromJson :: "json_obj \<Rightarrow> message_ack option" where
  "MessageAck_fromJson json =
    (let msgId = j_string json ''message_id'' [] in
     if msgId = [] then None
     else Some \<lparr>ma_messageId = msgId, ma_status = j_string json ''status'' (qs ''delivered''),
                ma_timestamp = j_integer json ''timestamp''\<rparr>)"

record typing_indicator =
  ti_senderDeviceId :: qstring
  ti_recipientDeviceId :: qstring
  ti_isTyping :: bool
  ti_timestamp :: int

definition TypingIndicator_toJson :: "int \<Rightarrow> typing_indicator \<Rightarrow> json_obj" where
  "TypingIndicator_toJson now t =
    qm_insert ''timestamp'' (JInt (if ti_timestamp t > 0 then ti_timestamp t else now))
    (qm_insert ''is_typing'' (JBool (ti_isTyping t))
    (qm_insert ''recipient_device_id'' (JStr (ti_recipientDeviceId t))
    (qm_insert ''sender_device_id'' (JStr (ti_senderDeviceId t)) [])))"

definition TypingIndicator_fromJson :: "json_obj \<Rightarrow> typing_indicator option" where
  "TypingIndicator_fromJson json =
    (let sender = j_string json ''sender_device_id'' [];
         recipient = j_string json ''recipient_device_id'' [] in
     if sender = [] \<or> recipient = [] then None
     else Some \<lparr>ti_senderDeviceId = sender, ti_recipientDeviceId = recipient,
       ti_isTyping = (if qm_contains json ''is_typing'' then j_bool json ''is_typing''
                      else j_bool json ''typing''),
       ti_timestamp = j_integer json ''timestamp''\<rparr>)"

section \<open>File transfer messages\<close>

definition DEFAULT_FILE_CHUNK_SIZE :: int where
  "DEFAULT_FILE_CHUNK_SIZE = 65536"

definition generateTransferId :: "qstring \<Rightarrow> qstring" where
  "generateTransferId uuid = qs ''ft_'' @ take 13 (q_replace (qs ''-'') [] uuid)"

text \<open>The code units of the slash, the backslash and the full stop.\<close>

abbreviation slash :: u16 where "slash \<equiv> 0x2F"
abbreviation backslash :: u16 where "backslash \<equiv> 0x5C"
abbreviation dot :: u16 where "dot \<equiv> 0x2E"

definition sanitizeFileName :: "qt_lib \<Rightarrow> qstring \<Rightarrow> qstring" where
  "sanitizeFileName qt rawName =
    (let normalized = q_replace [backslash] [slash] rawName;
         clean1 = path_fileName qt normalized;
         clean2 = q_replace [slash] [] clean1;
         clean3 = q_replace [backslash] [] clean2;
         clean4 = q_replace [dot, dot] [] clean3;
         clean = q_trimmed clean4 in
     if clean = [] \<or> clean = [dot] \<or> clean = [dot, dot] then qs ''received_file''
     else clean)"

record file_offer =
  fo_transferId :: qstring
  fo_fileName :: qstring
  fo_fileSize :: int
  fo_sha256 :: qstring
  fo_chunkSize :: int
  fo_totalChunks :: int

definition FileOffer_toJson :: "qt_lib \<Rightarrow> file_offer \<Rightarrow> json_obj" where
  "FileOffer_toJson qt f =
    qm_insert ''total_chunks'' (JInt (fo_totalChunks f))
    (qm_insert ''chunk_size''
       (JInt (if fo_chunkSize f > 0 then fo_chunkSize f else DEFAULT_FILE_CHUNK_SIZE))
    (qm_insert ''sha256'' (JStr (fo_sha256 f))
    (qm_insert ''file_size'' (JInt (fo_fileSize f))
    (qm_insert ''file_name'' (JStr (sanitizeFileName qt (fo_fileName f)))
    (qm_insert ''transfer_id'' (JStr (fo_transferId f)) [])))))"

definition FileOffer_fromJson :: "qt_lib \<Rightarrow> json_obj \<Rightarrow> file_offer option" where
  "FileOffer_fromJson qt json =
    (let tid = j_string json ''transfer_id'' [];
         name = sanitizeFileName qt (j_string json ''file_name'' []);
         size = j_integer json ''file_size'';
         hash = j_string json ''sha256'' [] in
     if tid = [] \<or> name = [] \<or> size < 0 \<or> hash = [] then None
     else Some \<lparr>fo_transferId = tid, fo_fileName = name, fo_fileSize = size, fo_sha256 = hash,
       fo_chunkSize = j_int json ''chunk_size'' DEFAULT_FILE_CHUNK_SIZE,
       fo_totalChunks = j_int json ''total_chunks'' 0\<rparr>)"

record file_accept =
  fa_transferId :: qstring

definition FileAccept_toJson :: "file_accept \<Rightarrow> json_obj" where
  "FileAccept_toJson a = qm_insert ''transfer_id'' (JStr (fa_transferId a)) []"

definition FileAccept_fromJson :: "json_obj \<Rightarrow> file_accept option" where
  "FileAccept_fromJson json =
    (let tid = j_string json ''transfer_id'' [] in
     if tid = [] then None else Some \<lparr>fa_transferId = tid\<rparr>)"

record file_reject =
  fr_transferId :: qstring
  fr_reason :: qstring

definition FileReject_toJson :: "file_reject \<Rightarrow> json_obj" where
  "FileReject_toJson r =
    qm_insert ''reason'' (JStr (fr_reason r)) (qm_insert ''transfer_id'' (JStr (fr_transferId r)) [])"

definition FileReject_fromJson :: "json_obj \<Rightarrow> file_reject option" where
  "FileReject_fromJson json =
    (let tid = j_string json ''transfer_id'' [] in
     if tid = [] then None
     else Some \<lparr>fr_transferId = tid, fr_reason = j_string json ''reason'' (qs ''user_rejected'')\<rparr>)"

record file_complete =
  fc_transferId :: qstring
  fc_sha256 :: qstring
  fc_status :: qstring

definition FileComplete_toJson :: "file_complete \<Rightarrow> json_obj" where
  "FileComplete_toJson c =
    qm_insert ''status'' (JStr (fc_status c))
    (qm_insert ''sha256'' (JStr (fc_sha256 c))
    (qm_insert ''transfer_id'' (JStr (fc_transferId c)) []))"

definition FileComplete_fromJson :: "json_obj \<Rightarrow> file_complete option" where
  "FileComplete_fromJson json =
    (let tid = j_string json ''transfer_id'' []; hash = j_string json ''sha256'' [] in
     if tid = [] \<or> hash = [] then None
     else Some \<lparr>fc_transferId = tid, fc_sha256 = hash,
                fc_status = j_string json ''status'' (qs ''verified'')\<rparr>)"

record file_cancel =
  fx_transferId :: qstring
  fx_reason :: qstring

definition FileCancel_toJson :: "file_cancel \<Rightarrow> json_obj" where
  "FileCancel_toJson c =
    qm_insert ''reason'' (JStr (fx_reason c)) (qm_insert ''transfer_id'' (JStr (fx_transferId c)) [])"

definition FileCancel_fromJson :: "json_obj \<Rightarrow> file_cancel option" where
  "FileCancel_fromJson json =
    (let tid = j_string json ''transfer_id'' [] in
     if tid = [] then None
     else Some \<lparr>fx_transferId = tid, fx_reason = j_string json ''reason'' (qs ''cancelled'')\<rparr>)"

section \<open>Binary file chunks\<close>

text \<open>16 bytes of transfer id padded with zeros, index, size, data.\<close>

definition FileChunk_encode :: "qt_lib \<Rightarrow> qstring \<Rightarrow> u32 \<Rightarrow> bytes \<Rightarrow> bytes" where
  "FileChunk_encode qt transferId chunkIndex chunkData =
    (let tidBytes0 = to_utf8 qt transferId;
         tidBytes = (if length tidBytes0 > 16 then take 16 tidBytes0 else tidBytes0) in
     tidBytes @ replicate (16 - length tidBytes) 0 @ be32 chunkIndex
       @ be32 (of_nat (length chunkData)) @ chunkData)"

definition FileChunk_decode :: "qt_lib \<Rightarrow> bytes \<Rightarrow> (qstring \<times> u32 \<times> bytes) option" where
  "FileChunk_decode qt rawBytes =
    (if length rawBytes < 24 then None
     else let trimmed = q_trimmed (from_utf8 qt (take 16 rawBytes));
              transferId = (case q_indexOf 0 trimmed of Some nullIdx \<Rightarrow> take nullIdx trimmed | None \<Rightarrow> trimmed) in
       if transferId = [] then None
       else let chunkIndex = rd32 rawBytes 16; chunkSize = rd32 rawBytes 20 in
         if int (length rawBytes) \<noteq> 24 + sint chunkSize then None
         else Some (transferId, chunkIndex, mid rawBytes 24 (unat chunkSize)))"

section \<open>Pairing messages\<close>

record pairing_request =
  pr_sessionId :: qstring
  pr_senderDeviceId :: qstring
  pr_receiverDeviceId :: qstring
  pr_timestamp :: int
  pr_saltBase64 :: qstring
  pr_ephemeralPublicKeyBase64 :: qstring
  pr_proposedVirtualIp :: qstring
  pr_authProofBase64 :: qstring

definition PairingRequest_toJson :: "int \<Rightarrow> pairing_request \<Rightarrow> json_obj" where
  "PairingRequest_toJson now r =
    qm_insert ''auth_proof'' (JStr (pr_authProofBase64 r))
    (qm_insert ''proposed_virtual_ip'' (JStr (pr_proposedVirtualIp r))
    (qm_insert ''ephemeral_public_key'' (JStr (pr_ephemeralPublicKeyBase64 r))
    (qm_insert ''salt'' (JStr (pr_saltBase64 r))
    (qm_insert ''timestamp'' (JInt (if pr_timestamp r > 0 then pr_timestamp r else now))
    (qm_insert ''receiver_device_id'' (JStr (pr_receiverDeviceId r))
    (qm_insert ''sender_device_id'' (JStr (pr_senderDeviceId r))
    (qm_insert ''session_id'' (JStr (pr_sessionId r))
    (qm_insert ''protocol_version'' (JInt 1)
    (qm_insert ''type'' (JStr (qs ''pairing_request'')) [])))))))))"

definition PairingRequest_fromJson :: "json_obj \<Rightarrow> pairing_request option" where
  "PairingRequest_fromJson json =
    (if j_string json ''type'' [] \<noteq> qs ''pairing_request'' then None
     else let sessId = j_string json ''session_id'' [];
              sender = j_string json ''sender_device_id'' [];
              receiver = j_string json ''receiver_device_id'' [];
              salt = j_string json ''salt'' [];
              pubKey = j_string json ''ephemeral_public_key'' [];
              virtIp = j_string json ''proposed_virtual_ip'' [];
              proof = j_string json ''auth_proof'' [];
              ts = j_integer json ''timestamp'' in
       if sessId = [] \<or> sender = [] \<or> receiver = [] \<or> salt = [] \<or> pubKey = [] \<or> virtIp = []
          \<or> proof = [] \<or> ts \<le> 0 then None
       else Some \<lparr>pr_sessionId = sessId, pr_senderDeviceId = sender, pr_receiverDeviceId = receiver,
         pr_timestamp = ts, pr_saltBase64 = salt, pr_ephemeralPublicKeyBase64 = pubKey,
         pr_proposedVirtualIp = virtIp, pr_authProofBase64 = proof\<rparr>)"

definition PairingRequest_transcript :: "qt_lib \<Rightarrow> pairing_request \<Rightarrow> bytes" where
  "PairingRequest_transcript qt r =
    to_utf8 qt (pr_senderDeviceId r) @ to_utf8 qt (pr_receiverDeviceId r)
    @ qb_number (pr_timestamp r) @ to_utf8 qt (pr_ephemeralPublicKeyBase64 r)"

record pairing_response =
  ps_sessionId :: qstring
  ps_senderDeviceId :: qstring
  ps_receiverDeviceId :: qstring
  ps_timestamp :: int
  ps_saltBase64 :: qstring
  ps_ephemeralPublicKeyBase64 :: qstring
  ps_proposedVirtualIp :: qstring
  ps_authProofBase64 :: qstring
  ps_status :: qstring
  ps_errorMessage :: "qstring option"

definition PairingResponse_toJson :: "int \<Rightarrow> pairing_response \<Rightarrow> json_obj" where
  "PairingResponse_toJson now r =
    (let obj =
      qm_insert ''status'' (JStr (ps_status r))
      (qm_insert ''auth_proof'' (JStr (ps_authProofBase64 r))
      (qm_insert ''proposed_virtual_ip'' (JStr (ps_proposedVirtualIp r))
      (qm_insert ''ephemeral_public_key'' (JStr (ps_ephemeralPublicKeyBase64 r))
      (qm_insert ''salt'' (JStr (ps_saltBase64 r))
      (qm_insert ''timestamp'' (JInt (if ps_timestamp r > 0 then ps_timestamp r else now))
      (qm_insert ''receiver_device_id'' (JStr (ps_receiverDeviceId r))
      (qm_insert ''sender_device_id'' (JStr (ps_senderDeviceId r))
      (qm_insert ''session_id'' (JStr (ps_sessionId r))
      (qm_insert ''protocol_version'' (JInt 1)
      (qm_insert ''type'' (JStr (qs ''pairing_response'')) []))))))))))
     in case ps_errorMessage r of
          Some e \<Rightarrow> qm_insert ''error_message'' (JStr e) obj
        | None \<Rightarrow> obj)"

definition PairingResponse_fromJson :: "json_obj \<Rightarrow> pairing_response option" where
  "PairingResponse_fromJson json =
    (if j_string json ''type'' [] \<noteq> qs ''pairing_response'' then None
     else let sessId = j_string json ''session_id'' [];
              sender = j_string json ''sender_device_id'' [];
              receiver = j_string json ''receiver_device_id'' [];
              salt = j_string json ''salt'' [];
              pubKey = j_string json ''ephemeral_public_key'' [];
              virtIp = j_string json ''proposed_virtual_ip'' [];
              proof = j_string json ''auth_proof'' [];
              stat = j_string json ''status'' (qs ''accepted'');
              ts = j_integer json ''timestamp'' in
       if sessId = [] \<or> sender = [] \<or> receiver = [] \<or> salt = [] \<or> pubKey = [] \<or> virtIp = []
          \<or> proof = [] \<or> ts \<le> 0 then None
       else Some \<lparr>ps_sessionId = sessId, ps_senderDeviceId = sender, ps_receiverDeviceId = receiver,
         ps_timestamp = ts, ps_saltBase64 = salt, ps_ephemeralPublicKeyBase64 = pubKey,
         ps_proposedVirtualIp = virtIp, ps_authProofBase64 = proof, ps_status = stat,
         ps_errorMessage =
           (if qm_contains json ''error_message'' \<and> \<not> j_isNull json ''error_message''
            then Some (j_string json ''error_message'' []) else None)\<rparr>)"

definition PairingResponse_transcript :: "qt_lib \<Rightarrow> pairing_response \<Rightarrow> bytes" where
  "PairingResponse_transcript qt r =
    to_utf8 qt (ps_senderDeviceId r) @ to_utf8 qt (ps_receiverDeviceId r)
    @ qb_number (ps_timestamp r) @ to_utf8 qt (ps_ephemeralPublicKeyBase64 r)"

end
