(* ===== verification/QtInstance.thy ===== *)
theory QtInstance
  imports QtBase
begin

text \<open>
  A concrete library \<open>qt0\<close> that satisfies the laws of \<open>QtBase\<close>, for the witnesses of
  theorems that assume a law. It is no model of Qt: its text codec escapes what is
  not ASCII, and its object format is a plain tagged serialisation.
\<close>

section \<open>Text\<close>

definition enc_unit :: "u16 \<Rightarrow> bytes" where
  "enc_unit u = (if u < 128 then [ucast u] else [0xFF, ucast (drop_bit 8 u), ucast u])"

definition enc_text :: "qstring \<Rightarrow> bytes" where
  "enc_text s = concat (map enc_unit s)"

fun dec_text :: "bytes \<Rightarrow> qstring" where
  "dec_text [] = []"
| "dec_text (b # bs) =
     (if b = 0xFF then (case bs of h # l # r \<Rightarrow> (push_bit 8 (ucast h) OR ucast l) # dec_text r | _ \<Rightarrow> [])
      else ucast b # dec_text bs)"

lemma ucast_u8_id: "u < 128 \<Longrightarrow> ucast (ucast u :: u8) = (u :: u16)"
  by (rule word_unat_eq_iff [THEN iffD2]) (simp add: unsigned_ucast_eq word_less_nat_alt take_bit_word_eq_self
      unsigned_take_bit_eq take_bit_nat_eq_self less_trans [of _ 128])

lemma ucast_u8_not_FF: "u < 128 \<Longrightarrow> (ucast (u :: u16) :: u8) \<noteq> 0xFF"
  using ucast_u8_id [of u] by (auto dest: arg_cong [where f = "ucast :: u8 \<Rightarrow> u16"])

lemma dec_enc_text: "dec_text (enc_text s) = s"
proof (induction s)
  case (Cons u s)
  then show ?case
    by (cases "u < 128") (simp_all add: enc_text_def enc_unit_def ucast_u8_id ucast_u8_not_FF join16)
qed (simp add: enc_text_def)

lemma enc_text_ascii: "q_ascii s \<Longrightarrow> enc_text s = map ucast s"
  by (induction s) (simp_all add: enc_text_def enc_unit_def q_ascii_def)

lemma dec_text_ascii: "list_all (\<lambda>x. x < 128) b \<Longrightarrow> dec_text b = map ucast b"
  by (induction b) auto

section \<open>Objects\<close>

fun ser_key :: "string \<Rightarrow> bytes" where
  "ser_key [] = [0]"
| "ser_key (c # cs) = 1 # of_nat (of_char c) # ser_key cs"

fun par_key :: "bytes \<Rightarrow> (string \<times> bytes) option" where
  "par_key [] = None"
| "par_key (t # bs) =
     (if t = 0 then Some ([], bs)
      else case bs of [] \<Rightarrow> None
        | c # r \<Rightarrow> map_option (\<lambda>(k, r'). (char_of (unat c) # k, r')) (par_key r))"

lemma par_ser_key: "par_key (ser_key k @ r) = Some (k, r)"
proof (induction k)
  case (Cons c k)
  have "unat (of_nat (of_char c) :: u8) = of_char c"
    using nat_of_char_less_256 [of c] by (simp add: unat_of_nat take_bit_nat_eq_self)
  with Cons show ?case by simp
qed simp

fun ser_str :: "qstring \<Rightarrow> bytes" where
  "ser_str [] = [0]"
| "ser_str (u # us) = 1 # be16 u @ ser_str us"

fun par_str :: "bytes \<Rightarrow> (qstring \<times> bytes) option" where
  "par_str [] = None"
| "par_str (t # bs) =
     (if t = 0 then Some ([], bs)
      else case bs of h # l # r \<Rightarrow>
          map_option (\<lambda>(s, r'). ((push_bit 8 (ucast h) OR ucast l) # s, r')) (par_str r)
        | _ \<Rightarrow> None)"

lemma par_ser_str: "par_str (ser_str s @ r) = Some (s, r)"
  by (induction s) (simp_all add: be16_def join16)

definition ser_int :: "int \<Rightarrow> bytes" where
  "ser_int i = (let w = word_of_int i :: 64 word in be32 (ucast (drop_bit 32 w)) @ be32 (ucast w))"

definition par_int :: "bytes \<Rightarrow> int" where
  "par_int bs = sint (push_bit 32 (ucast (rd32 bs 0)) OR ucast (rd32 bs 4) :: 64 word)"

lemma length_ser_int [simp]: "length (ser_int i) = 8"
  by (simp add: ser_int_def Let_def)

lemma join64: "push_bit 32 (ucast (ucast (drop_bit 32 w) :: u32)) OR ucast (ucast w :: u32) = (w :: 64 word)"
  by (rule bit_word_eqI) (auto simp: bit_simps)

lemma par_ser_int: "- (2 ^ 63) \<le> i \<Longrightarrow> i < 2 ^ 63 \<Longrightarrow> par_int (ser_int i @ r) = i"
proof -
  assume i: "- (2 ^ 63) \<le> i" "i < 2 ^ 63"
  let ?w = "word_of_int i :: 64 word"
  have "rd32 (ser_int i @ r) 0 = ucast (drop_bit 32 ?w)"
    using rd32_be32 [of "[]" 0 "ucast (drop_bit 32 ?w)" "be32 (ucast ?w) @ r"] by (simp add: ser_int_def Let_def)
  moreover have "rd32 (ser_int i @ r) 4 = ucast ?w"
    using rd32_be32 [of "be32 (ucast (drop_bit 32 ?w))" 4 "ucast ?w" r] by (simp add: ser_int_def Let_def)
  moreover have "sint ?w = i"
    using i by (simp add: int_word_sint)
  ultimately show ?thesis by (simp add: par_int_def join64)
qed

fun ser_val :: "jval \<Rightarrow> bytes" where
  "ser_val JNull = [0]"
| "ser_val (JBool b) = [1, if b then 1 else 0]"
| "ser_val (JInt i) = 2 # ser_int i"
| "ser_val (JStr s) = 3 # ser_str s"
| "ser_val JOther = [4]"

definition par_val :: "bytes \<Rightarrow> (jval \<times> bytes) option" where
  "par_val bs = (case bs of [] \<Rightarrow> None
    | t # r \<Rightarrow>
       if t = 0 then Some (JNull, r)
       else if t = 1 then (case r of b # r' \<Rightarrow> Some (JBool (b = 1), r') | [] \<Rightarrow> None)
       else if t = 2 then Some (JInt (par_int r), drop 8 r)
       else if t = 3 then map_option (\<lambda>(s, r'). (JStr s, r')) (par_str r)
       else Some (JOther, r))"

lemma par_ser_val: "jval_wf v \<Longrightarrow> par_val (ser_val v @ r) = Some (v, r)"
  by (cases v) (auto simp: par_val_def par_ser_str par_ser_int)

fun ser_obj :: "json_obj \<Rightarrow> bytes" where
  "ser_obj [] = [0]"
| "ser_obj (p # obj) = 1 # ser_key (fst p) @ ser_val (snd p) @ ser_obj obj"

fun par_obj :: "nat \<Rightarrow> bytes \<Rightarrow> json_obj option" where
  "par_obj 0 bs = None"
| "par_obj (Suc n) bs = (case bs of [] \<Rightarrow> None
    | t # r \<Rightarrow> if t = 0 then Some []
       else case par_key r of None \<Rightarrow> None
         | Some (k, r1) \<Rightarrow> (case par_val r1 of None \<Rightarrow> None
            | Some (v, r2) \<Rightarrow> map_option (\<lambda>obj. (k, v) # obj) (par_obj n r2)))"

lemma par_ser_obj:
  "list_all (\<lambda>p. jval_wf (snd p)) obj \<Longrightarrow> length obj < n \<Longrightarrow> par_obj n (ser_obj obj) = Some obj"
proof (induction obj arbitrary: n)
  case Nil
  then show ?case by (cases n) simp_all
next
  case (Cons p obj)
  then obtain m where "n = Suc m" by (cases n) auto
  with Cons show ?case
    by (cases p) (simp add: par_ser_key par_ser_val)
qed

lemma length_ser_obj: "length obj < length (ser_obj obj)"
  by (induction obj) auto

section \<open>The library\<close>

definition dotted_quad :: "qstring \<Rightarrow> host_addr" where
  "dotted_quad s = (if s = qs ''10.77.0.2'' then IPv4Addr 0x0A4D0002
     else if s = qs ''10.77.0.5'' then IPv4Addr 0x0A4D0005
     else if s = qs ''10.77.0.0'' then IPv4Addr 0x0A4D0000
     else if s = qs ''192.168.1.50'' then IPv4Addr 0xC0A80132
     else NullAddr)"

definition qt0 :: qt_lib where
  "qt0 = \<lparr>
     to_utf8 = enc_text,
     from_utf8 = dec_text,
     to_lower = map (\<lambda>u. if 0x41 \<le> u \<and> u \<le> 0x5A then u + 0x20 else u),
     path_fileName = (\<lambda>s. rev (takeWhile (\<lambda>u. u \<noteq> 0x2F) (rev s))),
     json_read = (\<lambda>bs. par_obj (length bs) bs),
     json_write = ser_obj,
     to_base64 = map ucast,
     from_base64 = map ucast,
     host_parse = dotted_quad,
     to_uint = (\<lambda>s. if s = qs ''51820'' then Some 51820 else None)\<rparr>"

lemma json_roundtrip_qt0: "json_roundtrip qt0"
  by (auto simp: json_roundtrip_def qt0_def json_wf_def par_ser_obj length_ser_obj)

lemma utf8_roundtrip_qt0: "utf8_roundtrip qt0"
  by (simp add: utf8_roundtrip_def qt0_def dec_enc_text)

lemma utf8_ascii_qt0: "utf8_ascii qt0"
  by (simp add: utf8_ascii_def qt0_def enc_text_ascii dec_text_ascii)

lemma ucast_u16_u8: "ucast (ucast (b :: u8) :: u16) = b"
  by (rule bit_word_eqI) (simp add: bit_simps)

lemma base64_roundtrip_qt0: "base64_roundtrip qt0"
  by (simp add: base64_roundtrip_def qt0_def comp_def ucast_u16_u8)

end
