(* ===== verification/Messages.thy ===== *)
theory Messages
  imports Models QtInstance
begin

text \<open>
  Laws of the messages: reading back what was written (on every value, with the
  exact condition under which the reader accepts it), the safety of sanitised file
  names, and the binary chunk format with its 16-byte transfer id.
\<close>

section \<open>JSON round trips\<close>

lemmas toJson_defs =
  toPresenceOnlineJson_def toPresenceOfflineJson_def DiscoveryRequest_toJson_def ChatMessage_toJson_def
  MessageAck_toJson_def TypingIndicator_toJson_def FileOffer_toJson_def FileAccept_toJson_def
  FileReject_toJson_def FileComplete_toJson_def FileCancel_toJson_def PairingRequest_toJson_def
  PairingResponse_toJson_def

lemmas fromJson_defs =
  fromPresenceJson_def DiscoveryRequest_fromJson_def ChatMessage_fromJson_def
  MessageAck_fromJson_def TypingIndicator_fromJson_def FileOffer_fromJson_def FileAccept_fromJson_def
  FileReject_fromJson_def FileComplete_fromJson_def FileCancel_fromJson_def PairingRequest_fromJson_def
  PairingResponse_fromJson_def

definition stamp :: "int \<Rightarrow> int \<Rightarrow> int" where
  "stamp now t = (if t > 0 then t else now)"

lemma stamp_pos [simp]: "t > 0 \<Longrightarrow> stamp now t = t"
  by (simp add: stamp_def)

lemma MessageAck_json:
  "MessageAck_fromJson (MessageAck_toJson now a) =
     (if ma_messageId a = [] then None else Some (a\<lparr>ma_timestamp := stamp now (ma_timestamp a)\<rparr>))"
  by (simp add: fromJson_defs toJson_defs j_defs Let_def stamp_def)

lemma TypingIndicator_json:
  "TypingIndicator_fromJson (TypingIndicator_toJson now t) =
     (if ti_senderDeviceId t = [] \<or> ti_recipientDeviceId t = [] then None
      else Some (t\<lparr>ti_timestamp := stamp now (ti_timestamp t)\<rparr>))"
  by (simp add: fromJson_defs toJson_defs j_defs Let_def stamp_def)

lemma FileAccept_json:
  "FileAccept_fromJson (FileAccept_toJson a) = (if fa_transferId a = [] then None else Some a)"
  by (simp add: fromJson_defs toJson_defs j_defs Let_def)

lemma FileReject_json:
  "FileReject_fromJson (FileReject_toJson r) = (if fr_transferId r = [] then None else Some r)"
  by (simp add: fromJson_defs toJson_defs j_defs Let_def)

lemma FileComplete_json:
  "FileComplete_fromJson (FileComplete_toJson c) =
     (if fc_transferId c = [] \<or> fc_sha256 c = [] then None else Some c)"
  by (simp add: fromJson_defs toJson_defs j_defs Let_def)

lemma FileCancel_json:
  "FileCancel_fromJson (FileCancel_toJson c) = (if fx_transferId c = [] then None else Some c)"
  by (simp add: fromJson_defs toJson_defs j_defs Let_def)

lemma DiscoveryRequest_json:
  "DiscoveryRequest_fromJson (DiscoveryRequest_toJson now r) =
     (if dr_deviceId r = [] then None else Some (r\<lparr>dr_timestamp := stamp now (dr_timestamp r)\<rparr>))"
  by (simp add: fromJson_defs toJson_defs j_defs Let_def stamp_def)

lemma ChatMessage_json:
  "ChatMessage_fromJson qt (ChatMessage_toJson now m) =
     (if cm_messageId m = [] \<or> cm_senderDeviceId m = [] \<or> cm_recipientDeviceId m = []
         \<or> length (to_utf8 qt (cm_content m)) > MAX_CHAT_MESSAGE_CONTENT_SIZE then None
      else Some (m\<lparr>cm_timestamp := stamp now (cm_timestamp m)\<rparr>))"
  by (simp add: fromJson_defs toJson_defs j_defs Let_def stamp_def split: option.splits)

lemma PairingRequest_json:
  "PairingRequest_fromJson (PairingRequest_toJson now r) =
     (if pr_sessionId r = [] \<or> pr_senderDeviceId r = [] \<or> pr_receiverDeviceId r = [] \<or> pr_saltBase64 r = []
         \<or> pr_ephemeralPublicKeyBase64 r = [] \<or> pr_proposedVirtualIp r = [] \<or> pr_authProofBase64 r = []
         \<or> stamp now (pr_timestamp r) \<le> 0 then None
      else Some (r\<lparr>pr_timestamp := stamp now (pr_timestamp r)\<rparr>))"
  by (simp add: fromJson_defs toJson_defs j_defs Let_def stamp_def)

lemma PairingResponse_json:
  "PairingResponse_fromJson (PairingResponse_toJson now r) =
     (if ps_sessionId r = [] \<or> ps_senderDeviceId r = [] \<or> ps_receiverDeviceId r = [] \<or> ps_saltBase64 r = []
         \<or> ps_ephemeralPublicKeyBase64 r = [] \<or> ps_proposedVirtualIp r = [] \<or> ps_authProofBase64 r = []
         \<or> stamp now (ps_timestamp r) \<le> 0 then None
      else Some (r\<lparr>ps_timestamp := stamp now (ps_timestamp r)\<rparr>))"
  by (cases "ps_errorMessage r")
    (simp_all add: PairingResponse_fromJson_def PairingResponse_toJson_def j_defs stamp_def
      del: not_None_eq)

text \<open>
  C30: ChatMessage::fromJson accepts the JSON of a message exactly when its ids are non-
  empty and its content has at most 64 KiB of UTF-8, and then returns the message itself
  (with the current time stamp when it had none).
\<close>

theorem chat_message_roundtrip:
  "ChatMessage_fromJson qt (ChatMessage_toJson now m) =
     (if cm_messageId m \<noteq> [] \<and> cm_senderDeviceId m \<noteq> [] \<and> cm_recipientDeviceId m \<noteq> []
         \<and> length (to_utf8 qt (cm_content m)) \<le> MAX_CHAT_MESSAGE_CONTENT_SIZE
      then Some (m\<lparr>cm_timestamp := (if cm_timestamp m > 0 then cm_timestamp m else now)\<rparr>)
      else None)"
  by (simp add: ChatMessage_json stamp_def not_le)

text \<open>
  The JSON form of a pairing request or response is accepted exactly when its required
  fields are non-empty and it carries a time stamp, and then reads back as the message sent.
\<close>

theorem pairing_messages_roundtrip:
  "PairingRequest_fromJson (PairingRequest_toJson now r) =
     (if pr_sessionId r \<noteq> [] \<and> pr_senderDeviceId r \<noteq> [] \<and> pr_receiverDeviceId r \<noteq> []
         \<and> pr_saltBase64 r \<noteq> [] \<and> pr_ephemeralPublicKeyBase64 r \<noteq> [] \<and> pr_proposedVirtualIp r \<noteq> []
         \<and> pr_authProofBase64 r \<noteq> [] \<and> (pr_timestamp r > 0 \<or> now > 0)
      then Some (r\<lparr>pr_timestamp := (if pr_timestamp r > 0 then pr_timestamp r else now)\<rparr>)
      else None) \<and>
   PairingResponse_fromJson (PairingResponse_toJson now s) =
     (if ps_sessionId s \<noteq> [] \<and> ps_senderDeviceId s \<noteq> [] \<and> ps_receiverDeviceId s \<noteq> []
         \<and> ps_saltBase64 s \<noteq> [] \<and> ps_ephemeralPublicKeyBase64 s \<noteq> [] \<and> ps_proposedVirtualIp s \<noteq> []
         \<and> ps_authProofBase64 s \<noteq> [] \<and> (ps_timestamp s > 0 \<or> now > 0)
      then Some (s\<lparr>ps_timestamp := (if ps_timestamp s > 0 then ps_timestamp s else now)\<rparr>)
      else None)"
  by (cases "pr_timestamp r > 0"; cases "ps_timestamp s > 0")
    (simp_all add: PairingRequest_json PairingResponse_json stamp_def not_le)

section \<open>Sanitised file names\<close>

definition no_dotdot :: "qstring \<Rightarrow> bool" where
  "no_dotdot s \<longleftrightarrow> (\<nexists>a b. s = a @ [dot, dot] @ b)"

lemma no_dotdot_Nil [simp]: "no_dotdot []"
  by (simp add: no_dotdot_def)

lemma no_dotdot_Cons:
  "no_dotdot (x # s) \<longleftrightarrow> no_dotdot s \<and> \<not> (x = dot \<and> s \<noteq> [] \<and> hd s = dot)"
proof -
  have "(\<exists>a b. x # s = a @ [dot, dot] @ b) \<longleftrightarrow>
      (\<exists>a b. s = a @ [dot, dot] @ b) \<or> (x = dot \<and> (\<exists>b. s = dot # b))"
    by (auto simp: Cons_eq_append_conv)
  moreover have "(\<exists>b. s = dot # b) \<longleftrightarrow> s \<noteq> [] \<and> hd s = dot"
    by (cases s) auto
  ultimately show ?thesis unfolding no_dotdot_def by blast
qed

lemma no_dotdot_infix: "no_dotdot (a @ s @ b) \<Longrightarrow> no_dotdot s"
  unfolding no_dotdot_def by (metis append.assoc)

lemma no_dotdot_trimmed: "no_dotdot s \<Longrightarrow> no_dotdot (q_trimmed s)"
  using q_trimmed_infix [of s] no_dotdot_infix by metis

lemma q_replace_unit: "q_replace [c] [] s = filter (\<lambda>x. x \<noteq> c) s"
proof (induction s)
  case (Cons x s)
  then show ?case
    by (subst q_replace.simps) (simp add: q_startsWith_def)
qed (simp add: q_replace.simps)

lemma q_replace_dotdot_step:
  "q_replace [dot, dot] [] [] = []"
  "q_replace [dot, dot] [] (dot # dot # s) = q_replace [dot, dot] [] s"
  "\<not> (x = dot \<and> s \<noteq> [] \<and> hd s = dot) \<Longrightarrow>
     q_replace [dot, dot] [] (x # s) = x # q_replace [dot, dot] [] s"
  by (subst q_replace.simps, cases s, auto simp: q_startsWith_def)+

lemma q_replace_dotdot: "no_dotdot (q_replace [dot, dot] [] s)"
proof (induction s rule: length_induct)
  case (1 s)
  show ?case
  proof (cases s)
    case (Cons x t)
    show ?thesis
    proof (cases "x = dot \<and> t \<noteq> [] \<and> hd t = dot")
      case True
      then obtain u where "t = dot # u" by (cases t) auto
      with 1 Cons True show ?thesis by (simp add: q_replace_dotdot_step(2))
    next
      case False
      have "no_dotdot (q_replace [dot, dot] [] t)" using 1 Cons by simp
      moreover have "\<not> (x = dot \<and> q_replace [dot, dot] [] t \<noteq> [] \<and> hd (q_replace [dot, dot] [] t) = dot)"
      proof (cases t)
        case (Cons y u)
        with False have "x = dot \<Longrightarrow> q_replace [dot, dot] [] t = y # q_replace [dot, dot] [] u"
          by (simp add: q_replace_dotdot_step(3))
        with False Cons show ?thesis by auto
      qed (simp add: q_replace_dotdot_step)
      ultimately show ?thesis
        using False Cons by (simp add: q_replace_dotdot_step(3) no_dotdot_Cons)
    qed
  qed (simp add: q_replace_dotdot_step)
qed

lemma q_replace_dotdot_id: "no_dotdot s \<Longrightarrow> q_replace [dot, dot] [] s = s"
  by (induction s) (simp_all add: no_dotdot_Cons q_replace_dotdot_step)

lemma q_replace_dotdot_set: "set (q_replace [dot, dot] [] s) \<subseteq> set s"
proof (induction s rule: length_induct)
  case (1 s)
  show ?case
  proof (cases s)
    case (Cons x t)
    show ?thesis
    proof (cases "x = dot \<and> t \<noteq> [] \<and> hd t = dot")
      case True
      then obtain u where t: "t = dot # u" by (cases t) auto
      moreover have "set (q_replace [dot, dot] [] u) \<subseteq> set u"
        using 1 Cons t by simp
      ultimately show ?thesis using Cons True by (auto simp: q_replace_dotdot_step(2))
    next
      case False
      with 1 Cons show ?thesis by (auto simp: q_replace_dotdot_step(3))
    qed
  qed (simp add: q_replace_dotdot_step)
qed

text \<open>The name before the fallback: free of separators and of two full stops in a row.\<close>

definition sanitize_core :: "qt_lib \<Rightarrow> qstring \<Rightarrow> qstring" where
  "sanitize_core qt raw = q_trimmed (q_replace [dot, dot] [] (q_replace [backslash] [] (q_replace [slash] []
     (path_fileName qt (q_replace [backslash] [slash] raw)))))"

lemma sanitizeFileName_core:
  "sanitizeFileName qt raw =
     (let c = sanitize_core qt raw in if c = [] \<or> c = [dot] \<or> c = [dot, dot] then qs ''received_file'' else c)"
  by (simp add: sanitizeFileName_def sanitize_core_def Let_def)

lemma sanitize_core_safe:
  "slash \<notin> set (sanitize_core qt raw) \<and> backslash \<notin> set (sanitize_core qt raw)
     \<and> no_dotdot (sanitize_core qt raw)"
proof -
  let ?c2 = "filter (\<lambda>x. x \<noteq> backslash) (filter (\<lambda>x. x \<noteq> slash)
     (path_fileName qt (q_replace [backslash] [slash] raw)))"
  have "set (sanitize_core qt raw) \<subseteq> set (q_replace [dot, dot] [] ?c2)"
    unfolding sanitize_core_def q_replace_unit by (rule set_q_trimmed)
  also have "\<dots> \<subseteq> set ?c2" by (rule q_replace_dotdot_set)
  finally have "set (sanitize_core qt raw) \<subseteq> set ?c2" .
  moreover have "no_dotdot (sanitize_core qt raw)"
    unfolding sanitize_core_def by (intro no_dotdot_trimmed q_replace_dotdot)
  ultimately show ?thesis by auto
qed

definition safe_name :: "qstring \<Rightarrow> bool" where
  "safe_name s \<longleftrightarrow> s \<noteq> [] \<and> slash \<notin> set s \<and> backslash \<notin> set s \<and> no_dotdot s \<and> s \<noteq> [dot]
     \<and> \<not> q_isSpace (hd s) \<and> \<not> q_isSpace (last s)"

lemma received_file_units:
  "qs ''received_file'' = [114, 101, 99, 101, 105, 118, 101, 100, 95, 102, 105, 108, 101]"
  by (simp add: qs_def)

lemma safe_received_file: "safe_name (qs ''received_file'')"
  unfolding received_file_units by (simp add: safe_name_def no_dotdot_Cons q_isSpace_def word_le_nat_alt)

lemma safe_sanitizeFileName: "safe_name (sanitizeFileName qt raw)"
proof (cases "sanitize_core qt raw = [] \<or> sanitize_core qt raw = [dot] \<or> sanitize_core qt raw = [dot, dot]")
  case True
  then have "sanitizeFileName qt raw = qs ''received_file''"
    by (auto simp: sanitizeFileName_core Let_def)
  then show ?thesis by (simp add: safe_received_file del: qs_inj)
next
  case False
  then have "sanitizeFileName qt raw = sanitize_core qt raw"
    by (simp add: sanitizeFileName_core Let_def)
  moreover have "sanitize_core qt raw \<noteq> [] \<Longrightarrow> \<not> q_isSpace (hd (sanitize_core qt raw))
      \<and> \<not> q_isSpace (last (sanitize_core qt raw))"
    unfolding sanitize_core_def using q_trimmed_hd q_trimmed_last by blast
  ultimately show ?thesis
    using False sanitize_core_safe [of qt raw] by (simp add: safe_name_def)
qed

text \<open>
  C14: Whatever name a peer sends, sanitizeFileName returns a non-empty name without slash,
  backslash or two consecutive dots that is not a single dot, so it names an entry of the
  download directory.
\<close>

theorem sanitized_name_stays_in_directory:
  "sanitizeFileName qt raw \<noteq> [] \<and> slash \<notin> set (sanitizeFileName qt raw)
     \<and> backslash \<notin> set (sanitizeFileName qt raw)
     \<and> (\<nexists>a b. sanitizeFileName qt raw = a @ [dot, dot] @ b) \<and> sanitizeFileName qt raw \<noteq> [dot]"
  using safe_sanitizeFileName [of qt raw] by (simp add: safe_name_def no_dotdot_def)

text \<open>\<open>QFileInfo::fileName\<close> of a name without a slash is that name.\<close>

definition fileName_law :: "qt_lib \<Rightarrow> bool" where
  "fileName_law qt \<longleftrightarrow> (\<forall>s. slash \<notin> set s \<longrightarrow> path_fileName qt s = s)"

lemma q_replace_absent: "c \<notin> set s \<Longrightarrow> q_replace [c] a s = s"
proof (induction s)
  case (Cons x s)
  then show ?case by (subst q_replace.simps) (auto simp: q_startsWith_def)
qed (simp add: q_replace.simps)

lemma sanitize_safe_name:
  assumes "fileName_law qt" and "safe_name s"
  shows "sanitizeFileName qt s = s"
proof -
  have "sanitize_core qt s = s"
    using assms by (simp add: sanitize_core_def safe_name_def fileName_law_def q_replace_absent
        q_replace_dotdot_id q_trimmed_id)
  moreover have "s \<noteq> [dot, dot]" using assms(2) by (auto simp: safe_name_def no_dotdot_Cons)
  ultimately show ?thesis using assms(2) by (simp add: sanitizeFileName_core safe_name_def)
qed

lemma FileOffer_json:
  assumes "fileName_law qt"
  shows "FileOffer_fromJson qt (FileOffer_toJson qt f) =
     (if fo_transferId f = [] \<or> fo_fileSize f < 0 \<or> fo_sha256 f = [] then None
      else Some (f\<lparr>fo_fileName := sanitizeFileName qt (fo_fileName f),
                   fo_chunkSize := (if 0 < fo_chunkSize f \<and> fo_chunkSize f < 2 ^ 31 then fo_chunkSize f
                                    else DEFAULT_FILE_CHUNK_SIZE),
                   fo_totalChunks := (if - (2 ^ 31) \<le> fo_totalChunks f \<and> fo_totalChunks f < 2 ^ 31
                                      then fo_totalChunks f else 0)\<rparr>))"
proof -
  have "sanitizeFileName qt (sanitizeFileName qt (fo_fileName f)) = sanitizeFileName qt (fo_fileName f)"
    by (rule sanitize_safe_name [OF assms safe_sanitizeFileName])
  moreover have "sanitizeFileName qt (fo_fileName f) \<noteq> []"
    using safe_sanitizeFileName [of qt "fo_fileName f"] by (simp add: safe_name_def)
  ultimately show ?thesis
    by (simp add: FileOffer_fromJson_def FileOffer_toJson_def j_defs Let_def DEFAULT_FILE_CHUNK_SIZE_def)
qed

lemma fileName_law_qt0: "fileName_law qt0"
proof -
  have "rev (takeWhile (\<lambda>u. u \<noteq> slash) (rev s)) = s" if "slash \<notin> set s" for s :: qstring
  proof -
    have "takeWhile (\<lambda>u. u \<noteq> slash) (rev s) = rev s"
      by (subst takeWhile_eq_all_conv) (use that in \<open>metis set_rev\<close>)
    then show ?thesis by (simp only: rev_rev_ident)
  qed
  then show ?thesis unfolding fileName_law_def qt0_def by (simp only: qt_lib.select_convs) blast
qed

text \<open>
  A well-formed file offer survives toJson and fromJson with its file name sanitised.
\<close>

theorem file_offer_roundtrip:
  assumes "fileName_law qt" and "fo_transferId f \<noteq> []" and "0 \<le> fo_fileSize f" and "fo_sha256 f \<noteq> []"
    and "0 < fo_chunkSize f" and "fo_chunkSize f < 2 ^ 31"
    and "0 \<le> fo_totalChunks f" and "fo_totalChunks f < 2 ^ 31"
  shows "FileOffer_fromJson qt (FileOffer_toJson qt f)
    = Some (f\<lparr>fo_fileName := sanitizeFileName qt (fo_fileName f)\<rparr>)"
  using assms by (simp add: FileOffer_json)

theorem file_offer_roundtrip_witness:
  "FileOffer_fromJson qt0 (FileOffer_toJson qt0 \<lparr>fo_transferId = qs ''ft_0123456789abc'',
      fo_fileName = qs ''a.txt'', fo_fileSize = 70000, fo_sha256 = qs ''ab'', fo_chunkSize = 65536,
      fo_totalChunks = 2\<rparr>)
   = Some \<lparr>fo_transferId = qs ''ft_0123456789abc'', fo_fileName = sanitizeFileName qt0 (qs ''a.txt''),
      fo_fileSize = 70000, fo_sha256 = qs ''ab'', fo_chunkSize = 65536, fo_totalChunks = 2\<rparr>"
  using fileName_law_qt0 file_offer_roundtrip [of qt0 "\<lparr>fo_transferId = qs ''ft_0123456789abc'',
      fo_fileName = qs ''a.txt'', fo_fileSize = 70000, fo_sha256 = qs ''ab'', fo_chunkSize = 65536,
      fo_totalChunks = 2\<rparr>"]
  by simp

section \<open>Binary chunks\<close>

text \<open>The transfer ids a chunk header can carry unchanged, up to their length.\<close>

definition chunk_id_ok :: "qstring \<Rightarrow> bool" where
  "chunk_id_ok t \<longleftrightarrow> q_ascii t \<and> t \<noteq> [] \<and> 0 \<notin> set t \<and> \<not> q_isSpace (hd t) \<and> \<not> q_isSpace (last t)"

lemma q_indexOf_append: "c \<notin> set s \<Longrightarrow> q_indexOf c (s @ t) = map_option (\<lambda>i. length s + i) (q_indexOf c t)"
  by (induction s; cases "q_indexOf c t") auto

lemma map_ucast_ascii: "q_ascii t \<Longrightarrow> map ucast (map ucast t :: bytes) = t"
  by (induction t) (simp_all add: q_ascii_def ucast_u8_id)

lemma ascii_bytes: "q_ascii t \<Longrightarrow> list_all (\<lambda>x. x < 128) (map ucast t :: bytes)"
  by (induction t) (simp_all add: q_ascii_def word_less_nat_alt unsigned_ucast_eq
      take_bit_nat_eq_self less_trans [of _ 128])

lemma chunk_id_bytes:
  assumes qt: "utf8_ascii qt" and ok: "chunk_id_ok t" and le: "length t \<le> 16"
  defines "trimmed \<equiv> q_trimmed (from_utf8 qt (map ucast t @ replicate (16 - length t) 0))"
  shows "(case q_indexOf 0 trimmed of Some i \<Rightarrow> take i trimmed | None \<Rightarrow> trimmed) = t"
proof -
  let ?r = "replicate (16 - length t) (0 :: u16)"
  have t: "q_ascii t" "t \<noteq> []" "0 \<notin> set t" "\<not> q_isSpace (hd t)" "\<not> q_isSpace (last t)"
    using ok by (simp_all add: chunk_id_ok_def)
  let ?b = "map ucast t @ replicate (16 - length t) 0 :: bytes"
  have "list_all (\<lambda>x. x < 128) ?b"
    using ascii_bytes [OF t(1)] by (auto simp: list_all_iff)
  then have "from_utf8 qt ?b = map ucast ?b"
    using qt by (simp only: utf8_ascii_def)
  moreover have "map ucast ?b = t @ ?r"
    using map_ucast_ascii [OF t(1)] by (simp only: map_append map_replicate unsigned_0)
  ultimately have "from_utf8 qt ?b = t @ ?r" by (simp only:)
  moreover have "q_trimmed (t @ ?r) = t @ ?r"
  proof (rule q_trimmed_id)
    show "\<not> q_isSpace (last (t @ ?r))"
      using t by (simp add: last_append q_isSpace_def)
  qed (use t in simp_all)
  ultimately have tr: "trimmed = t @ ?r" by (simp add: trimmed_def)
  show ?thesis
  proof (cases "length t = 16")
    case True
    then have "q_indexOf 0 trimmed = None" using t(3) tr by (simp add: q_indexOf_append [of 0 t "[]", simplified])
    with True tr show ?thesis by simp
  next
    case False
    then obtain k where "16 - length t = Suc k" using le by (cases "16 - length t") auto
    then show ?thesis using t(3) tr by (simp add: q_indexOf_append)
  qed
qed

lemma chunk_roundtrip:
  assumes qt: "utf8_ascii qt" and asc: "q_ascii tid" and ok: "chunk_id_ok (take 16 tid)"
    and d: "length d < 2 ^ 31 - 24"
  shows "FileChunk_decode qt (FileChunk_encode qt tid i d) = Some (take 16 tid, i, d)"
proof -
  let ?t = "take 16 tid"
  let ?id = "map ucast ?t @ replicate (16 - length ?t) 0 :: bytes"
  let ?n = "of_nat (length d) :: u32"
  have enc: "FileChunk_encode qt tid i d = ?id @ be32 i @ be32 ?n @ d"
    using qt asc by (auto simp: FileChunk_encode_def Let_def utf8_ascii_def take_map)
  have lid: "length ?id = 16" by simp
  have un: "unat ?n = length d" using d by (intro unat_of_nat_u32) simp
  have sz: "int (24 + length d) = 24 + sint ?n"
    using d un by (simp add: sint_u32)
  have f1: "rd32 (?id @ be32 i @ be32 ?n @ d) 16 = i"
    using lid by (rule rd32_be32)
  have f2: "rd32 (?id @ be32 i @ be32 ?n @ d) 20 = ?n"
    using rd32_be32 [of "?id @ be32 i" 20 ?n d] lid by simp
  have f3: "mid (?id @ be32 i @ be32 ?n @ d) 24 (length d) = d"
    using mid_append_end [of "?id @ be32 i @ be32 ?n" 24 d "length d"] lid by simp
  have f4: "take 16 (?id @ be32 i @ be32 ?n @ d) = ?id"
    by (simp only: take_append lid) simp
  have nn: "?t \<noteq> []" using ok by (auto simp only: chunk_id_ok_def)
  have len: "length (?id @ be32 i @ be32 ?n @ d) = 24 + length d"
    using lid by (simp only: length_append length_be32)
  have idd: "(case q_indexOf 0 (q_trimmed (from_utf8 qt ?id)) of
      Some k \<Rightarrow> take k (q_trimmed (from_utf8 qt ?id)) | None \<Rightarrow> q_trimmed (from_utf8 qt ?id)) = ?t"
    by (rule chunk_id_bytes [OF qt ok]) simp
  show ?thesis
    unfolding FileChunk_decode_def enc Let_def f1 f2 f4 idd un f3 len using nn sz by simp
qed

text \<open>
  A file chunk decodes to the index and data it was encoded from and to the first 16
  characters of its ASCII transfer id.
\<close>

theorem file_chunk_roundtrip:
  assumes "utf8_ascii qt" and "q_ascii tid" and "take 16 tid \<noteq> []" and "0 \<notin> set (take 16 tid)"
    and "\<not> q_isSpace (hd (take 16 tid))" and "\<not> q_isSpace (last (take 16 tid))"
    and "length d < 2 ^ 31 - 24"
  shows "FileChunk_decode qt (FileChunk_encode qt tid i d) = Some (take 16 tid, i, d)"
proof (rule chunk_roundtrip)
  show "chunk_id_ok (take 16 tid)"
    using assms by (auto simp: chunk_id_ok_def q_ascii_def list_all_iff dest: in_set_takeD)
qed (use assms in simp_all)

theorem file_chunk_roundtrip_witness:
  "FileChunk_decode qt0 (FileChunk_encode qt0 (qs ''ft_0123456789abcTAIL'') 7 [1, 2, 3])
     = Some (qs ''ft_0123456789abc'', 7, [1, 2, 3])"
proof -
  have "take 16 (qs ''ft_0123456789abcTAIL'') = qs ''ft_0123456789abc''"
    by (simp add: qs_def)
  moreover have "q_ascii (qs ''ft_0123456789abcTAIL'')"
    by (simp add: qs_def q_ascii_def word_less_nat_alt)
  moreover have "0 \<notin> set (qs ''ft_0123456789abc'')"
    "\<not> q_isSpace (hd (qs ''ft_0123456789abc''))" "\<not> q_isSpace (last (qs ''ft_0123456789abc''))"
    by (simp_all add: qs_def q_isSpace_def word_le_nat_alt)
  ultimately show ?thesis
    using file_chunk_roundtrip [of qt0 "qs ''ft_0123456789abcTAIL''" "[1, 2, 3]" 7] utf8_ascii_qt0 by simp
qed

section \<open>Writable messages\<close>

text \<open>The objects the code writes are well-formed JSON when their texts and numbers are.\<close>

lemma stamp_range: "0 < now \<Longrightarrow> now < 2 ^ 63 \<Longrightarrow> t < 2 ^ 63 \<Longrightarrow> 0 < stamp now t \<and> stamp now t < 2 ^ 63"
  by (simp add: stamp_def)

lemma ChatMessage_toJson_wf [wf_intros]:
  assumes "q_utf16 (cm_messageId m)" "q_utf16 (cm_senderDeviceId m)" "q_utf16 (cm_recipientDeviceId m)"
    and "q_utf16 (cm_content m)" "case cm_replyToMessageId m of None \<Rightarrow> True | Some r \<Rightarrow> q_utf16 r"
    and "0 < now" "now < 2 ^ 63" "cm_timestamp m < 2 ^ 63"
  shows "json_wf (ChatMessage_toJson now m)"
  using assms by (auto simp: ChatMessage_toJson_def Let_def intro!: wf_intros split: option.splits)

lemma MessageAck_toJson_wf [wf_intros]:
  assumes "q_utf16 (ma_messageId a)" "q_utf16 (ma_status a)" "0 < now" "now < 2 ^ 63" "ma_timestamp a < 2 ^ 63"
  shows "json_wf (MessageAck_toJson now a)"
  using assms by (auto simp: MessageAck_toJson_def intro!: wf_intros)

lemma q_ascii_qs: "list_all (\<lambda>c. of_char c < (128 :: nat)) s \<Longrightarrow> q_ascii (qs s)"
  by (induction s) (auto simp: q_ascii_def qs_def word_less_nat_alt unat_of_nat take_bit_nat_eq_self)

lemma q_utf16_append_ascii: "q_ascii s \<Longrightarrow> q_utf16 t \<Longrightarrow> q_utf16 (s @ t)"
  by (induction s) (auto simp: q_ascii_def word_le_nat_alt word_less_nat_alt)


end
