(* ===== verification/Crypto.thy ===== *)
theory Crypto
  imports QtInstance "HOL-Library.State_Monad"
begin

text \<open>
  src/crypto/crypto_provider.cpp, twice. The first section is the contract the handshake uses: the
  guards of every function over the record \<open>openssl\<close>, whose entries are what OpenSSL computes.
  The second section is the code: every call of the EVP interface in its order, on a heap of
  OpenSSL objects, with every early return, every call of a free function and every wiped
  buffer. The rest shows that the code meets the contract, frees each object
  exactly once and gives back no secret unwiped but in one branch.
\<close>

section \<open>The contract\<close>

record openssl =
  ol_public :: "bytes \<Rightarrow> bytes"                                    \<comment> \<open>the public key of a private key\<close>
  ol_x25519 :: "bytes \<Rightarrow> bytes \<Rightarrow> bytes option"                    \<comment> \<open>\<open>EVP_PKEY_derive\<close>; \<open>None\<close> if a step fails\<close>
  ol_argon2id :: "(bytes \<Rightarrow> bytes \<Rightarrow> u32 \<Rightarrow> u32 \<Rightarrow> u32 \<Rightarrow> nat \<Rightarrow> bytes option) option"
                                                                  \<comment> \<open>\<open>None\<close> if the library has no Argon2id\<close>
  ol_pbkdf2 :: "bytes \<Rightarrow> bytes \<Rightarrow> int \<Rightarrow> nat \<Rightarrow> bytes option"
  ol_hmac_sha256 :: "bytes \<Rightarrow> bytes \<Rightarrow> bytes option"
  ol_sha256 :: "bytes \<Rightarrow> bytes"

definition deriveSharedSecret :: "openssl \<Rightarrow> bytes \<Rightarrow> bytes \<Rightarrow> bytes option" where
  "deriveSharedSecret ol privateKey peerPublicKey =
    (if length privateKey \<noteq> 32 \<or> length peerPublicKey \<noteq> 32 then None
     else ol_x25519 ol privateKey peerPublicKey)"

text \<open>
  The number of rounds for PBKDF2 is computed in 32 bits and read as signed. The length of the key is
  a length of a buffer, below 2 to the 31.
\<close>

definition pbkdf2_rounds :: "u32 \<Rightarrow> int" where
  "pbkdf2_rounds iterations = (if iterations > 0 then sint (iterations * 1000) else 100000)"

definition deriveArgon2idKey :: "qt_lib \<Rightarrow> openssl \<Rightarrow> qstring \<Rightarrow> bytes \<Rightarrow> u32 \<Rightarrow> u32 \<Rightarrow> u32 \<Rightarrow> nat \<Rightarrow> bytes option" where
  "deriveArgon2idKey qt ol password salt memCostKb iterations parallelism keyLen =
    (if password = [] \<or> length salt < 8 \<or> keyLen = 0 then None
     else case ol_argon2id ol of
        None \<Rightarrow> ol_pbkdf2 ol (to_utf8 qt password) salt (pbkdf2_rounds iterations) keyLen
      | Some kdf \<Rightarrow> kdf (to_utf8 qt password) salt memCostKb iterations parallelism keyLen)"

text \<open>The call with the default arguments of the declaration.\<close>

definition pairing_key :: "qt_lib \<Rightarrow> openssl \<Rightarrow> qstring \<Rightarrow> bytes \<Rightarrow> bytes option" where
  "pairing_key qt ol password salt = deriveArgon2idKey qt ol password salt 65536 3 1 32"

definition computeHmacSha256 :: "openssl \<Rightarrow> bytes \<Rightarrow> bytes \<Rightarrow> bytes option" where
  "computeHmacSha256 ol key message =
    (if key = [] then None
     else case ol_hmac_sha256 ol key message of
        Some h \<Rightarrow> if length h = 32 then Some h else None
      | None \<Rightarrow> None)"

definition verifyHmacConstantTime :: "bytes \<Rightarrow> bytes \<Rightarrow> bool" where
  "verifyHmacConstantTime expected actual =
    (if length expected \<noteq> 32 \<or> length actual \<noteq> 32 then False else expected = actual)"

section \<open>The EVP interface\<close>

text \<open>
  What the library answers, as a record; \<open>'k\<close> is the material of a key. A number is the return code, a
  list of bytes what a call has put into the buffer it was given.
\<close>

record 'k evp_lib =
  ev_keygen_ctx :: bool                                    \<comment> \<open>\<open>EVP_PKEY_CTX_new_id\<close> gives a context\<close>
  ev_keygen_init :: int
  ev_keygen :: "'k option"                                 \<comment> \<open>\<open>None\<close>: a code below 1, or no key\<close>
  ev_raw_private :: "'k \<Rightarrow> int \<times> bytes \<times> nat"             \<comment> \<open>with the length it reports\<close>
  ev_raw_public :: "'k \<Rightarrow> int \<times> bytes \<times> nat"
  ev_new_private :: "bytes \<Rightarrow> 'k option"
  ev_new_public :: "bytes \<Rightarrow> 'k option"
  ev_derive_ctx :: "'k \<Rightarrow> bool"
  ev_derive_init :: "'k \<Rightarrow> int"
  ev_set_peer :: "'k \<Rightarrow> 'k \<Rightarrow> int"
  ev_derive_len :: "'k \<Rightarrow> 'k option \<Rightarrow> int \<times> nat"
  ev_derive :: "'k \<Rightarrow> 'k option \<Rightarrow> nat \<Rightarrow> int \<times> bytes"
  ev_random :: "nat \<Rightarrow> int \<times> bytes"
  ev_argon2id :: bool                                      \<comment> \<open>\<open>EVP_KDF_fetch\<close> finds ARGON2ID\<close>
  ev_kdf_ctx :: bool
  ev_kdf_derive :: "bytes \<Rightarrow> bytes \<Rightarrow> u32 \<Rightarrow> u32 \<Rightarrow> u32 \<Rightarrow> nat \<Rightarrow> int \<times> bytes"
  ev_pbkdf2 :: "bytes \<Rightarrow> bytes \<Rightarrow> int \<Rightarrow> nat \<Rightarrow> int \<times> bytes"
  ev_q_mac :: "bytes \<Rightarrow> bytes \<Rightarrow> (bytes \<times> nat) option"

text \<open>
  The objects the library has given out and not yet got back, how many calls were given an object
  that is not there (any more), how often a provider was loaded, and the contents of the
  buffers for secrets at the moment they were given back to the allocator.
\<close>

datatype 'k evp_object = KeygenContext | Key 'k | DeriveContext 'k "'k option" | KdfAlgorithm | KdfContext

record 'k crypto_heap =
  ch_objects :: "nat \<Rightarrow> 'k evp_object option"
  ch_next :: nat
  ch_faults :: nat
  ch_providers :: nat
  ch_released :: "bytes list"

definition heap_ok :: "'k crypto_heap \<Rightarrow> bool" where
  "heap_ok h \<longleftrightarrow> (\<forall>n \<ge> ch_next h. ch_objects h n = None)"

definition crypto_start :: "'k crypto_heap" where
  "crypto_start = \<lparr>ch_objects = \<lambda>_. None, ch_next = 0, ch_faults = 0, ch_providers = 0, ch_released = []\<rparr>"

abbreviation ret :: "'a \<Rightarrow> ('s, 'a) state" where "ret \<equiv> State_Monad.return"

text \<open>A new object, or the null pointer.\<close>

definition evp_new :: "'k evp_object option \<Rightarrow> ('k crypto_heap, nat option) state" where
  "evp_new ob = State (\<lambda>h. case ob of None \<Rightarrow> (None, h)
     | Some b \<Rightarrow> (Some (ch_next h), h\<lparr>ch_objects := (ch_objects h)(ch_next h \<mapsto> b), ch_next := Suc (ch_next h)\<rparr>))"

definition evp_free :: "nat \<Rightarrow> ('k crypto_heap, unit) state" where
  "evp_free n = State (\<lambda>h. ((), case ch_objects h n of
     None \<Rightarrow> h\<lparr>ch_faults := Suc (ch_faults h)\<rparr> | Some b \<Rightarrow> h\<lparr>ch_objects := (ch_objects h)(n := None)\<rparr>))"

text \<open>A call on an object: its answer, and what the object is then.\<close>

definition evp_call :: "nat \<Rightarrow> ('k evp_object \<Rightarrow> 'a \<times> 'k evp_object) \<Rightarrow> 'a \<Rightarrow> ('k crypto_heap, 'a) state" where
  "evp_call n f junk = State (\<lambda>h. case ch_objects h n of
     None \<Rightarrow> (junk, h\<lparr>ch_faults := Suc (ch_faults h)\<rparr>)
   | Some b \<Rightarrow> (case f b of (a, b') \<Rightarrow> (a, h\<lparr>ch_objects := (ch_objects h)(n \<mapsto> b')\<rparr>)))"

definition load_provider :: "('k crypto_heap, unit) state" where
  "load_provider = State (\<lambda>h. ((), h\<lparr>ch_providers := Suc (ch_providers h)\<rparr>))"

text \<open>The end of the life of a buffer.\<close>

definition release :: "bytes \<Rightarrow> ('k crypto_heap, unit) state" where
  "release data = State (\<lambda>h. ((), h\<lparr>ch_released := ch_released h @ [data]\<rparr>))"

text \<open>A buffer of \<open>n\<close> bytes, zero but for what a call has written.\<close>

definition fill :: "nat \<Rightarrow> bytes \<Rightarrow> bytes" where
  "fill n out = take n (out @ replicate n 0)"

fun key_of :: "'k evp_object \<Rightarrow> 'k option" where
  "key_of (Key k) = Some k"
| "key_of (DeriveContext k p) = Some k"
| "key_of _ = None"

text \<open>The calls, each with the code it returns for an object of the wrong kind.\<close>

definition EVP_PKEY_CTX_new :: "'k evp_lib \<Rightarrow> nat \<Rightarrow> ('k crypto_heap, nat option) state" where
  "EVP_PKEY_CTX_new lib pkey = do {
     k \<leftarrow> evp_call pkey (\<lambda>b. (key_of b, b)) None;
     evp_new (case k of Some k \<Rightarrow> (if ev_derive_ctx lib k then Some (DeriveContext k None) else None) | None \<Rightarrow> None)
   }"

definition EVP_PKEY_derive_init :: "'k evp_lib \<Rightarrow> nat \<Rightarrow> ('k crypto_heap, int) state" where
  "EVP_PKEY_derive_init lib c = evp_call c (\<lambda>b. (case b of DeriveContext k p \<Rightarrow> ev_derive_init lib k | _ \<Rightarrow> 0, b)) 0"

definition EVP_PKEY_derive_set_peer :: "'k evp_lib \<Rightarrow> nat \<Rightarrow> nat \<Rightarrow> ('k crypto_heap, int) state" where
  "EVP_PKEY_derive_set_peer lib c peer = do {
     q \<leftarrow> evp_call peer (\<lambda>b. (key_of b, b)) None;
     evp_call c (\<lambda>b. case (b, q) of
         (DeriveContext k p, Some q) \<Rightarrow>
           (let r = ev_set_peer lib k q in (r, if r > 0 then DeriveContext k (Some q) else b))
       | _ \<Rightarrow> (0, b)) 0
   }"

definition EVP_PKEY_derive :: "('k \<Rightarrow> 'k option \<Rightarrow> int \<times> 'a) \<Rightarrow> 'a \<Rightarrow> nat \<Rightarrow> ('k crypto_heap, int \<times> 'a) state" where
  "EVP_PKEY_derive f junk c = evp_call c (\<lambda>b. (case b of DeriveContext k p \<Rightarrow> f k p | _ \<Rightarrow> (0, junk), b)) (0, junk)"

definition EVP_PKEY_get_raw :: "('k \<Rightarrow> int \<times> bytes \<times> nat) \<Rightarrow> nat \<Rightarrow> ('k crypto_heap, int \<times> bytes \<times> nat) state" where
  "EVP_PKEY_get_raw f pkey = evp_call pkey (\<lambda>b. (case b of Key k \<Rightarrow> f k | _ \<Rightarrow> (0, [], 0), b)) (0, [], 0)"

section \<open>The code\<close>

definition secureCleanse :: "bytes \<Rightarrow> bytes" where
  "secureCleanse data = (if data \<noteq> [] then replicate (length data) 0 else data)"

record key_pair =
  kp_privateKey :: bytes
  kp_publicKey :: bytes

definition KeyPair_clear :: "key_pair \<Rightarrow> ('k crypto_heap, key_pair) state" where
  "KeyPair_clear kp = do {
     kp \<leftarrow> (if kp_privateKey kp \<noteq> [] then do {
              release (secureCleanse (kp_privateKey kp));
              ret (kp\<lparr>kp_privateKey := []\<rparr>) }
            else ret kp);
     ret (kp\<lparr>kp_publicKey := []\<rparr>)
   }"

definition generateSecureRandomBytes :: "'k evp_lib \<Rightarrow> nat \<Rightarrow> bytes" where
  "generateSecureRandomBytes lib numBytes =
    (if numBytes = 0 then []
     else case ev_random lib numBytes of (r, out) \<Rightarrow> if r \<noteq> 1 then [] else fill numBytes out)"

definition evp_generateX25519KeyPair :: "'k evp_lib \<Rightarrow> ('k crypto_heap, key_pair option) state" where
  "evp_generateX25519KeyPair lib = do {
     ctx \<leftarrow> evp_new (if ev_keygen_ctx lib then Some KeygenContext else None);
     case ctx of None \<Rightarrow> ret None
     | Some pctx \<Rightarrow> do {
       r \<leftarrow> evp_call pctx (\<lambda>b. (ev_keygen_init lib, b)) 0;
       if r \<le> 0 then do { evp_free pctx; ret None }
       else do {
         k \<leftarrow> evp_call pctx (\<lambda>b. (ev_keygen lib, b)) None;
         key \<leftarrow> evp_new (map_option Key k);
         case key of None \<Rightarrow> do { evp_free pctx; ret None }
         | Some pkey \<Rightarrow> do {
           evp_free pctx;
           (privRes, privOut, privLen) \<leftarrow> EVP_PKEY_get_raw (ev_raw_private lib) pkey;
           (pubRes, pubOut, pubLen) \<leftarrow> EVP_PKEY_get_raw (ev_raw_public lib) pkey;
           evp_free pkey;
           let kp = \<lparr>kp_privateKey = fill 32 privOut, kp_publicKey = fill 32 pubOut\<rparr>;
           if privRes \<le> 0 \<or> pubRes \<le> 0 \<or> privLen \<noteq> 32 \<or> pubLen \<noteq> 32
           then do { KeyPair_clear kp; ret None }
           else ret (Some kp) } } }
   }"

text \<open>What follows the creation of the context: the two objects before it are freed last on every path.\<close>

definition evp_deriveSharedSecret :: "'k evp_lib \<Rightarrow> bytes \<Rightarrow> bytes \<Rightarrow> ('k crypto_heap, bytes option) state" where
  "evp_deriveSharedSecret lib privateKey peerPublicKey =
    (if length privateKey \<noteq> 32 \<or> length peerPublicKey \<noteq> 32 then ret None
     else do {
       our \<leftarrow> evp_new (map_option Key (ev_new_private lib privateKey));
       case our of None \<Rightarrow> ret None
       | Some ourPrivKey \<Rightarrow> do {
         peer \<leftarrow> evp_new (map_option Key (ev_new_public lib peerPublicKey));
         case peer of None \<Rightarrow> do { evp_free ourPrivKey; ret None }
         | Some peerPubKey \<Rightarrow> do {
           ctx \<leftarrow> EVP_PKEY_CTX_new lib ourPrivKey;
           ready \<leftarrow> (case ctx of None \<Rightarrow> ret False
             | Some c \<Rightarrow> do {
                 r \<leftarrow> EVP_PKEY_derive_init lib c;
                 if r \<le> 0 then ret False
                 else do { r \<leftarrow> EVP_PKEY_derive_set_peer lib c peerPubKey; ret (\<not> r \<le> 0) } });
           case ctx of None \<Rightarrow> do { evp_free peerPubKey; evp_free ourPrivKey; ret None }
           | Some c \<Rightarrow>
             if \<not> ready then do { evp_free c; evp_free peerPubKey; evp_free ourPrivKey; ret None }
             else do {
               (r, secretLen) \<leftarrow> EVP_PKEY_derive (ev_derive_len lib) 0 c;
               if r \<le> 0 \<or> secretLen = 0 then do { evp_free c; evp_free peerPubKey; evp_free ourPrivKey; ret None }
               else do {
                 (r, out) \<leftarrow> EVP_PKEY_derive (\<lambda>k p. ev_derive lib k p secretLen) [] c;
                 let sharedSecret = fill secretLen out;
                 if r \<le> 0 then do {
                   let sharedSecret = secureCleanse sharedSecret;
                   evp_free c; evp_free peerPubKey; evp_free ourPrivKey;
                   release sharedSecret; ret None }
                 else do { evp_free c; evp_free peerPubKey; evp_free ourPrivKey; ret (Some sharedSecret) } } } } } })"

definition evp_deriveArgon2idKey :: "qt_lib \<Rightarrow> 'k evp_lib \<Rightarrow> qstring \<Rightarrow> bytes \<Rightarrow> u32 \<Rightarrow> u32 \<Rightarrow> u32 \<Rightarrow> nat
    \<Rightarrow> ('k crypto_heap, bytes option) state" where
  "evp_deriveArgon2idKey qt lib password salt memCostKb iterations parallelism keyLen =
    (if password = [] \<or> length salt < 8 \<or> keyLen = 0 then ret None
     else do {
       load_provider;
       alg \<leftarrow> evp_new (if ev_argon2id lib then Some KdfAlgorithm else None);
       case alg of None \<Rightarrow> do {
         let passUtf8 = to_utf8 qt password;
         let (res, out) = ev_pbkdf2 lib passUtf8 salt (pbkdf2_rounds iterations) keyLen;
         let derivedKey = fill keyLen out;
         let passUtf8 = secureCleanse passUtf8;
         if res \<noteq> 1 then do { release passUtf8; release derivedKey; ret None }
         else do { release passUtf8; ret (Some derivedKey) } }
       | Some kdf \<Rightarrow> do {
         ctx \<leftarrow> evp_call kdf (\<lambda>b. (ev_kdf_ctx lib, b)) False;
         kctx \<leftarrow> evp_new (if ctx then Some KdfContext else None);
         evp_free kdf;
         case kctx of None \<Rightarrow> ret None
         | Some kc \<Rightarrow> do {
           let passUtf8 = to_utf8 qt password;
           (res, out) \<leftarrow> evp_call kc
             (\<lambda>b. (ev_kdf_derive lib passUtf8 salt memCostKb iterations parallelism keyLen, b)) (0, []);
           let derivedKey = fill keyLen out;
           let passUtf8 = secureCleanse passUtf8;
           evp_free kc;
           if res \<le> 0 then do { release (secureCleanse derivedKey); release passUtf8; ret None }
           else do { release passUtf8; ret (Some derivedKey) } } } })"

definition evp_computeHmacSha256 :: "'k evp_lib \<Rightarrow> bytes \<Rightarrow> bytes \<Rightarrow> ('k crypto_heap, bytes option) state" where
  "evp_computeHmacSha256 lib key message =
    (if key = [] then ret None
     else case ev_q_mac lib key message of
        None \<Rightarrow> do { release (secureCleanse (fill 32 [])); ret None }
      | Some (out, outLen) \<Rightarrow>
        if outLen \<noteq> 32 then do { release (secureCleanse (fill 32 out)); ret None }
        else ret (Some (fill 32 out)))"

section \<open>The code meets the contract\<close>

text \<open>What the contract's entries are for a library.\<close>

definition openssl_of :: "'k evp_lib \<Rightarrow> (bytes \<Rightarrow> bytes) \<Rightarrow> (bytes \<Rightarrow> bytes) \<Rightarrow> openssl" where
  "openssl_of lib pub sha = \<lparr>
     ol_public = pub,
     ol_x25519 = (\<lambda>a b.
       Option.bind (ev_new_private lib a) (\<lambda>k. Option.bind (ev_new_public lib b) (\<lambda>p.
         if \<not> ev_derive_ctx lib k \<or> ev_derive_init lib k \<le> 0 \<or> ev_set_peer lib k p \<le> 0 then None
         else case ev_derive_len lib k (Some p) of (r, n) \<Rightarrow>
           if r \<le> 0 \<or> n = 0 then None
           else case ev_derive lib k (Some p) n of (r, out) \<Rightarrow> if r \<le> 0 then None else Some (fill n out)))),
     ol_argon2id = (if ev_argon2id lib then Some (\<lambda>pw salt m i p n.
         if \<not> ev_kdf_ctx lib then None
         else case ev_kdf_derive lib pw salt m i p n of (r, out) \<Rightarrow> if r \<le> 0 then None else Some (fill n out))
       else None),
     ol_pbkdf2 = (\<lambda>pw salt i n. case ev_pbkdf2 lib pw salt i n of (r, out) \<Rightarrow> if r \<noteq> 1 then None else Some (fill n out)),
     ol_hmac_sha256 = (\<lambda>key msg.
       case ev_q_mac lib key msg of None \<Rightarrow> None | Some (out, n) \<Rightarrow> if n \<noteq> 32 then None else Some (fill 32 out)),
     ol_sha256 = sha\<rparr>"

lemma length_fill [simp]: "length (fill n out) = n"
  by (simp add: fill_def)

text \<open>Running a call on a heap where its object is.\<close>

lemma run_new [simp]:
  "run_state (evp_new None) h = (None, h)"
  "run_state (evp_new (Some b)) h = (Some (ch_next h), h\<lparr>ch_objects := (ch_objects h)(ch_next h \<mapsto> b), ch_next := Suc (ch_next h)\<rparr>)"
  by (simp_all add: evp_new_def)

lemma run_free [simp]: "ch_objects h n = Some b \<Longrightarrow> run_state (evp_free n) h = ((), h\<lparr>ch_objects := (ch_objects h)(n := None)\<rparr>)"
  by (simp add: evp_free_def)

lemma run_call [simp]:
  "ch_objects h n = Some b \<Longrightarrow> run_state (evp_call n f junk) h
    = (case f b of (a, b') \<Rightarrow> (a, h\<lparr>ch_objects := (ch_objects h)(n \<mapsto> b')\<rparr>))"
  by (simp add: evp_call_def)

lemma run_release [simp]: "run_state (release data) h = ((), h\<lparr>ch_released := ch_released h @ [data]\<rparr>)"
  by (simp add: release_def)

lemma run_load [simp]: "run_state load_provider h = ((), h\<lparr>ch_providers := Suc (ch_providers h)\<rparr>)"
  by (simp add: load_provider_def)


definition wiped :: "bytes \<Rightarrow> bool" where
  "wiped data \<longleftrightarrow> list_all (\<lambda>x. x = 0) data"

lemma wiped_cleanse [simp]: "wiped (secureCleanse data)"
  by (simp add: wiped_def secureCleanse_def list_all_iff)

text \<open>
  A run that returns \<open>a\<close>, leaves every object as it found it, has made no call on a missing
  one, and has given back only wiped buffers if \<open>clean\<close>.
\<close>

definition tidy_run :: "('k crypto_heap, 'a) state \<Rightarrow> 'a \<Rightarrow> bool \<Rightarrow> 'k crypto_heap \<Rightarrow> bool" where
  "tidy_run m a clean h \<longleftrightarrow> (case run_state m h of (a', h') \<Rightarrow>
     a' = a \<and> heap_ok h' \<and> ch_objects h' = ch_objects h \<and> ch_faults h' = ch_faults h
     \<and> (\<exists>given. ch_released h' = ch_released h @ given \<and> (clean \<longrightarrow> list_all wiped given)))"

lemma heap_okD [simp]: "heap_ok h \<Longrightarrow> n \<ge> ch_next h \<Longrightarrow> ch_objects h n = None"
  by (simp add: heap_ok_def)

lemma heap_ok_simps [simp]:
  "heap_ok (h\<lparr>ch_released := r\<rparr>) = heap_ok h" "heap_ok (h\<lparr>ch_providers := p\<rparr>) = heap_ok h"
  by (simp_all add: heap_ok_def)

lemma tidy_hmac: "heap_ok h \<Longrightarrow> tidy_run (evp_computeHmacSha256 lib key msg) (computeHmacSha256 (openssl_of lib pub sha) key msg) True h"
  by (auto simp: tidy_run_def evp_computeHmacSha256_def computeHmacSha256_def openssl_of_def split: option.split)

text \<open>Objects come off in another order than they were made.\<close>

lemma free_inward [simp]: "m \<noteq> n \<Longrightarrow> f(m := Some a, n := None) = f(n := None, m := Some a)"
  by (rule fun_upd_twist)

lemma free_absent [simp]: "f n = None \<Longrightarrow> f(n := None) = f"
  by (simp add: fun_upd_idem)

lemma heap_ok_next [simp]: "heap_ok h \<Longrightarrow> heap_ok (h\<lparr>ch_next := Suc (ch_next h)\<rparr>)"
  by (simp add: heap_ok_def)

lemma tidy_argon2id:
  assumes "heap_ok h"
  shows "tidy_run (evp_deriveArgon2idKey qt lib pw salt m i p n)
    (deriveArgon2idKey qt (openssl_of lib pub sha) pw salt m i p n)
    (ev_argon2id lib \<or> fst (ev_pbkdf2 lib (to_utf8 qt pw) salt (pbkdf2_rounds i) n) = 1) h"
proof (cases "pw = [] \<or> length salt < 8 \<or> n = 0")
  case True
  with assms show ?thesis by (simp add: tidy_run_def evp_deriveArgon2idKey_def deriveArgon2idKey_def)
next
  case guards: False
  show ?thesis
  proof (cases "ev_argon2id lib")
    case False
    obtain r out where "ev_pbkdf2 lib (to_utf8 qt pw) salt (pbkdf2_rounds i) n = (r, out)" by fastforce
    with False guards assms show ?thesis
      by (simp add: tidy_run_def evp_deriveArgon2idKey_def deriveArgon2idKey_def openssl_of_def Let_def)
  next
    case True
    obtain r out where "ev_kdf_derive lib (to_utf8 qt pw) salt m i p n = (r, out)" by fastforce
    with True guards assms show ?thesis
      by (cases "ev_kdf_ctx lib") (simp_all add: tidy_run_def evp_deriveArgon2idKey_def deriveArgon2idKey_def openssl_of_def Let_def heap_ok_def map_upd_triv)
  qed
qed

text \<open>The pair of keys OpenSSL makes, if every step succeeds.\<close>

definition x25519_pair :: "'k evp_lib \<Rightarrow> key_pair option" where
  "x25519_pair lib =
    (if \<not> ev_keygen_ctx lib \<or> ev_keygen_init lib \<le> 0 then None
     else Option.bind (ev_keygen lib) (\<lambda>k.
       case ev_raw_private lib k of (r1, o1, n1) \<Rightarrow> case ev_raw_public lib k of (r2, o2, n2) \<Rightarrow>
       if r1 \<le> 0 \<or> r2 \<le> 0 \<or> n1 \<noteq> 32 \<or> n2 \<noteq> 32 then None
       else Some \<lparr>kp_privateKey = fill 32 o1, kp_publicKey = fill 32 o2\<rparr>))"

lemma x25519_pair_lengths: "x25519_pair lib = Some kp \<Longrightarrow> length (kp_privateKey kp) = 32 \<and> length (kp_publicKey kp) = 32"
  by (cases "ev_keygen lib") (auto simp: x25519_pair_def case_prod_beta split: if_splits)

lemma tidy_keypair:
  assumes "heap_ok h"
  shows "tidy_run (evp_generateX25519KeyPair lib) (x25519_pair lib) True h"
proof (cases "ev_keygen_ctx lib \<and> \<not> ev_keygen_init lib \<le> 0")
  case False
  with assms show ?thesis
    by (cases "ev_keygen_ctx lib") (simp_all add: tidy_run_def evp_generateX25519KeyPair_def x25519_pair_def heap_ok_def map_upd_triv)
next
  case ready: True
  show ?thesis
  proof (cases "ev_keygen lib")
    case None
    with assms ready show ?thesis
      by (simp add: tidy_run_def evp_generateX25519KeyPair_def x25519_pair_def heap_ok_def map_upd_triv)
  next
    case (Some k)
    obtain r1 o1 n1 r2 o2 n2 where "ev_raw_private lib k = (r1, o1, n1)" "ev_raw_public lib k = (r2, o2, n2)"
      by (metis prod_cases3)
    with assms ready Some show ?thesis
      by (cases "r1 \<le> 0 \<or> r2 \<le> 0 \<or> n1 \<noteq> 32 \<or> n2 \<noteq> 32")
        (simp_all add: tidy_run_def evp_generateX25519KeyPair_def x25519_pair_def EVP_PKEY_get_raw_def KeyPair_clear_def Let_def
          heap_ok_def map_upd_triv)
  qed
qed

lemma tidy_shared:
  assumes "heap_ok h"
  shows "tidy_run (evp_deriveSharedSecret lib a b) (deriveSharedSecret (openssl_of lib pub sha) a b) True h"
proof -
  note defs = tidy_run_def evp_deriveSharedSecret_def deriveSharedSecret_def openssl_of_def EVP_PKEY_CTX_new_def
    EVP_PKEY_derive_init_def EVP_PKEY_derive_set_peer_def EVP_PKEY_derive_def Let_def heap_ok_def map_upd_triv
  consider (size) "length a \<noteq> 32 \<or> length b \<noteq> 32"
    | (keys) "length a = 32" "length b = 32" "ev_new_private lib a = None \<or> ev_new_public lib b = None"
    | (calls) k p where "length a = 32" "length b = 32" "ev_new_private lib a = Some k" "ev_new_public lib b = Some p"
    by fastforce
  then show ?thesis
  proof cases
    case size
    with assms show ?thesis by (simp add: tidy_run_def evp_deriveSharedSecret_def deriveSharedSecret_def)
  next
    case keys
    with assms show ?thesis
      by (cases "ev_new_private lib a"; cases "ev_new_public lib b") (simp_all add: defs)
  next
    case calls
    show ?thesis
    proof (cases "\<not> ev_derive_ctx lib k \<or> ev_derive_init lib k \<le> 0 \<or> ev_set_peer lib k p \<le> 0")
      case True
      with assms calls show ?thesis
        by (cases "ev_derive_ctx lib k"; cases "ev_derive_init lib k \<le> 0") (simp_all add: defs)
    next
      case False
      obtain r n where "ev_derive_len lib k (Some p) = (r, n)" by fastforce
      moreover obtain r' out where "ev_derive lib k (Some p) n = (r', out)" by fastforce
      ultimately show ?thesis using assms calls False
        by (cases "r \<le> 0 \<or> n = 0"; cases "r' \<le> 0") (simp_all add: defs)
    qed
  qed
qed


section \<open>Results\<close>

lemma tidy_result: "tidy_run m a clean h \<Longrightarrow> fst (run_state m h) = a"
  by (simp add: tidy_run_def case_prod_beta)

text \<open>
  Called on any heap of OpenSSL objects and whatever OpenSSL answers, the code of
  deriveSharedSecret, deriveArgon2idKey and computeHmacSha256, call by call, returns what
  the contract says that the handshake is built on.
\<close>

theorem crypto_meets_contract:
  assumes "heap_ok h"
  shows "fst (run_state (evp_deriveSharedSecret lib priv peer) h) = deriveSharedSecret (openssl_of lib pub sha) priv peer
    \<and> fst (run_state (evp_deriveArgon2idKey qt lib pw salt m i p n) h)
        = deriveArgon2idKey qt (openssl_of lib pub sha) pw salt m i p n
    \<and> fst (run_state (evp_computeHmacSha256 lib key msg) h) = computeHmacSha256 (openssl_of lib pub sha) key msg"
  by (intro conjI tidy_result [OF tidy_shared [OF assms]] tidy_result [OF tidy_argon2id [OF assms]] tidy_result [OF tidy_hmac [OF assms]])

definition leaves_tidy :: "('k crypto_heap, 'a) state \<Rightarrow> 'k crypto_heap \<Rightarrow> bool" where
  "leaves_tidy m h \<longleftrightarrow> (case run_state m h of (a, h') \<Rightarrow>
     ch_objects h' = ch_objects h \<and> ch_faults h' = ch_faults h \<and> heap_ok h')"

definition given_back :: "('k crypto_heap, 'a) state \<Rightarrow> 'k crypto_heap \<Rightarrow> bytes list" where
  "given_back m h = drop (length (ch_released h)) (ch_released (snd (run_state m h)))"

lemma tidy_leaves: "tidy_run m a clean h \<Longrightarrow> leaves_tidy m h"
  by (auto simp: tidy_run_def leaves_tidy_def)

lemma tidy_wiped: "tidy_run m a clean h \<Longrightarrow> clean \<Longrightarrow> list_all wiped (given_back m h)"
  by (auto simp: tidy_run_def given_back_def case_prod_beta)

lemma fallback_failure:
  assumes "\<not> ev_argon2id lib" and "ev_pbkdf2 lib (to_utf8 qt pw) salt (pbkdf2_rounds i) n = (r, out)" and "r \<noteq> 1"
    and "pw \<noteq> []" "8 \<le> length salt" "n \<noteq> 0"
  shows "given_back (evp_deriveArgon2idKey qt lib pw salt m i p n) h = [secureCleanse (to_utf8 qt pw), fill n out]"
  using assms by (simp add: given_back_def evp_deriveArgon2idKey_def Let_def)

text \<open>
  C25: Whatever OpenSSL answers, every function of the crypto provider frees each object it
  got exactly once and uses none after that; the buffers for secrets it gives back are
  wiped, but for the key of a failed PBKDF2 fallback.
\<close>

theorem crypto_objects_freed:
  assumes "heap_ok h"
  shows "leaves_tidy (evp_generateX25519KeyPair lib) h \<and> leaves_tidy (evp_deriveSharedSecret lib priv peer) h
    \<and> leaves_tidy (evp_deriveArgon2idKey qt lib pw salt m i p n) h \<and> leaves_tidy (evp_computeHmacSha256 lib key msg) h
    \<and> list_all wiped (given_back (evp_generateX25519KeyPair lib) h)
    \<and> list_all wiped (given_back (evp_deriveSharedSecret lib priv peer) h)
    \<and> list_all wiped (given_back (evp_computeHmacSha256 lib key msg) h)
    \<and> (list_all wiped (given_back (evp_deriveArgon2idKey qt lib pw salt m i p n) h)
       \<or> \<not> ev_argon2id lib \<and> (\<exists>r out. ev_pbkdf2 lib (to_utf8 qt pw) salt (pbkdf2_rounds i) n = (r, out) \<and> r \<noteq> 1
          \<and> given_back (evp_deriveArgon2idKey qt lib pw salt m i p n) h = [secureCleanse (to_utf8 qt pw), fill n out]))"
proof -
  have k: "tidy_run (evp_generateX25519KeyPair lib) (x25519_pair lib) True h" by (rule tidy_keypair [OF assms(1)])
  have a: "tidy_run (evp_deriveArgon2idKey qt lib pw salt m i p n) (deriveArgon2idKey qt (openssl_of lib id id) pw salt m i p n)
      (ev_argon2id lib \<or> fst (ev_pbkdf2 lib (to_utf8 qt pw) salt (pbkdf2_rounds i) n) = 1) h"
    by (rule tidy_argon2id [OF assms(1)])
  have guard: "given_back (evp_deriveArgon2idKey qt lib pw salt m i p n) h = []" if "pw = [] \<or> length salt < 8 \<or> n = 0"
    using that by (simp add: evp_deriveArgon2idKey_def given_back_def)
  obtain r out where r: "ev_pbkdf2 lib (to_utf8 qt pw) salt (pbkdf2_rounds i) n = (r, out)" by fastforce
  have "list_all wiped (given_back (evp_deriveArgon2idKey qt lib pw salt m i p n) h) \<or> \<not> ev_argon2id lib \<and> r \<noteq> 1
      \<and> given_back (evp_deriveArgon2idKey qt lib pw salt m i p n) h = [secureCleanse (to_utf8 qt pw), fill n out]"
    using tidy_wiped [OF a] guard fallback_failure [OF _ r] r by fastforce
  then show ?thesis
    using r tidy_leaves [OF k] tidy_leaves [OF a] tidy_leaves [OF tidy_shared [OF assms(1)]] tidy_leaves [OF tidy_hmac [OF assms(1)]]
      tidy_wiped [OF k] tidy_wiped [OF tidy_shared [OF assms(1)]] tidy_wiped [OF tidy_hmac [OF assms(1)]]
    by blast
qed

text \<open>A library on which every call succeeds but the fallback.\<close>

definition evp0 :: "bytes evp_lib" where
  "evp0 = \<lparr>ev_keygen_ctx = True, ev_keygen_init = 1, ev_keygen = Some (replicate 32 7),
     ev_raw_private = (\<lambda>k. (1, k, 32)), ev_raw_public = (\<lambda>k. (1, k, 32)),
     ev_new_private = Some, ev_new_public = Some, ev_derive_ctx = (\<lambda>_. True), ev_derive_init = (\<lambda>_. 1),
     ev_set_peer = (\<lambda>_ _. 1), ev_derive_len = (\<lambda>_ _. (1, 32)),
     ev_derive = (\<lambda>k p n. (1, case p of Some p \<Rightarrow> map2 (+) k p | None \<Rightarrow> [])),
     ev_random = (\<lambda>n. (1, replicate n 5)), ev_argon2id = False, ev_kdf_ctx = True,
     ev_kdf_derive = (\<lambda>_ _ _ _ _ n. (1, replicate n 3)), ev_pbkdf2 = (\<lambda>_ _ _ _. (0, [9])),
     ev_q_mac = (\<lambda>key msg. Some (replicate 32 1, 32))\<rparr>"

lemma start_ok: "heap_ok crypto_start"
  by (simp add: heap_ok_def crypto_start_def)

theorem crypto_meets_contract_witness:
  "fst (run_state (evp_deriveSharedSecret evp0 (replicate 32 2) (replicate 32 3)) crypto_start) = Some (replicate 32 5)"
proof -
  have "fst (run_state (evp_deriveSharedSecret evp0 (replicate 32 2) (replicate 32 3)) crypto_start)
      = deriveSharedSecret (openssl_of evp0 id id) (replicate 32 2) (replicate 32 3)"
    by (rule crypto_meets_contract [OF start_ok, THEN conjunct1])
  also have "\<dots> = Some (replicate 32 5)"
    by (simp add: deriveSharedSecret_def openssl_of_def evp0_def fill_def zip_replicate)
  finally show ?thesis .
qed

theorem crypto_objects_freed_witness:
  "leaves_tidy (evp_deriveArgon2idKey qt0 evp0 (qs ''pw'') (replicate 16 1) 65536 3 1 2) crypto_start
    \<and> given_back (evp_deriveArgon2idKey qt0 evp0 (qs ''pw'') (replicate 16 1) 65536 3 1 2) crypto_start = [[0, 0], [9, 0]]"
proof -
  have pw: "to_utf8 qt0 (qs ''pw'') = [0x70, 0x77]"
    by (simp add: qt0_def qs_def enc_text_def enc_unit_def)
  have "given_back (evp_deriveArgon2idKey qt0 evp0 (qs ''pw'') (replicate 16 1) 65536 3 1 2) crypto_start
      = [secureCleanse (to_utf8 qt0 (qs ''pw'')), fill 2 [9]]"
    by (rule fallback_failure [where r = 0]) (simp_all add: evp0_def)
  moreover have "secureCleanse [0x70, 0x77] = [0, 0]" "fill 2 [9] = [9, 0]"
    by (simp_all add: secureCleanse_def fill_def numeral_2_eq_2)
  ultimately have "given_back (evp_deriveArgon2idKey qt0 evp0 (qs ''pw'') (replicate 16 1) 65536 3 1 2) crypto_start
      = [[0, 0], [9, 0]]" by (simp only: pw)
  then show ?thesis
    using crypto_objects_freed [OF start_ok, where lib = evp0 and qt = qt0 and pw = "qs ''pw''" and salt = "replicate 16 1"
        and m = 65536 and i = 3 and p = 1 and n = 2] by blast
qed

end
