(* ===== verification/Pairing.thy ===== *)
theory Pairing
  imports Messages Crypto
begin

text \<open>
  The pairing handshake of src/crypto/pairing_session.cpp with its replay cache. The
  cryptography is the contract of theory Crypto over the record \<open>openssl\<close>; what the
  random generator and the clock give in one call is the record \<open>pair_env\<close> (a session reads
  the clock with a resolution of a second, once per call here).
\<close>

section \<open>The replay cache\<close>

definition REPLAY_WINDOW_SECONDS :: int where "REPLAY_WINDOW_SECONDS = 300"

type_synonym replay_cache = "(qstring, int \<times> bytes) qmap"

definition effective_now :: "int \<Rightarrow> int \<Rightarrow> int" where
  "effective_now clock currentTimestamp = (if currentTimestamp > 0 then currentTimestamp else clock)"

definition isTimestampValid :: "int \<Rightarrow> int \<Rightarrow> int \<Rightarrow> bool" where
  "isTimestampValid clock timestamp currentTimestamp =
    (if timestamp \<le> 0 then False
     else \<bar>effective_now clock currentTimestamp - timestamp\<bar> \<le> REPLAY_WINDOW_SECONDS)"

definition pruneExpired :: "int \<Rightarrow> int \<Rightarrow> replay_cache \<Rightarrow> replay_cache" where
  "pruneExpired clock currentTimestamp seen =
    qm_retain (\<lambda>_ entry. \<not> \<bar>effective_now clock currentTimestamp - fst entry\<bar> > REPLAY_WINDOW_SECONDS) seen"

definition isReplayed :: "int \<Rightarrow> qstring \<Rightarrow> bytes \<Rightarrow> int \<Rightarrow> int \<Rightarrow> replay_cache \<Rightarrow> replay_cache \<times> bool" where
  "isReplayed clock sessionId transcriptHash timestamp currentTimestamp seen0 =
    (let seen = pruneExpired clock currentTimestamp seen0 in
     (seen,
      if sessionId = [] \<or> transcriptHash = [] then True
      else if \<not> isTimestampValid clock timestamp currentTimestamp then True
      else if qm_contains seen sessionId then True
      else list_ex (\<lambda>entry. snd (snd entry) = transcriptHash) seen))"

definition registerSession :: "qstring \<Rightarrow> bytes \<Rightarrow> int \<Rightarrow> replay_cache \<Rightarrow> replay_cache" where
  "registerSession sessionId transcriptHash timestamp seen =
    (if sessionId = [] \<or> transcriptHash = [] then seen
     else qm_insert sessionId (timestamp, transcriptHash) seen)"

section \<open>Session state\<close>

datatype pairing_state =
  PairIdle | PairInitiating | AwaitingResponse | AwaitingPeerApproval | PairVerifying | Paired | PairFailed

datatype pairing_error =
  ErrNone | InvalidMessage | AuthFailed | TimestampExpired | ReplayDetected | CryptoError | ProtocolMismatch
  | ErrCancelled | Timeout

definition pairingStateToString :: "pairing_state \<Rightarrow> qstring" where
  "pairingStateToString st = (case st of
      PairIdle \<Rightarrow> qs ''Idle'' | PairInitiating \<Rightarrow> qs ''Initiating'' | AwaitingResponse \<Rightarrow> qs ''AwaitingResponse''
    | AwaitingPeerApproval \<Rightarrow> qs ''AwaitingPeerApproval'' | PairVerifying \<Rightarrow> qs ''Verifying'' | Paired \<Rightarrow> qs ''Paired''
    | PairFailed \<Rightarrow> qs ''Failed'')"

definition pairingErrorToString :: "pairing_error \<Rightarrow> qstring" where
  "pairingErrorToString err = (case err of
      ErrNone \<Rightarrow> qs ''None'' | InvalidMessage \<Rightarrow> qs ''InvalidMessage'' | AuthFailed \<Rightarrow> qs ''AuthFailed''
    | TimestampExpired \<Rightarrow> qs ''TimestampExpired'' | ReplayDetected \<Rightarrow> qs ''ReplayDetected''
    | CryptoError \<Rightarrow> qs ''CryptoError'' | ProtocolMismatch \<Rightarrow> qs ''ProtocolMismatch''
    | ErrCancelled \<Rightarrow> qs ''Cancelled'' | Timeout \<Rightarrow> qs ''Timeout'')"

record pairing_result =
  rs_peerDeviceId :: qstring
  rs_peerPublicKeyBase64 :: qstring
  rs_peerVirtualIp :: qstring
  rs_sharedSecret :: bytes

record pairing =
  pg_state :: pairing_state
  pg_lastError :: pairing_error
  pg_sessionId :: qstring
  pg_peerDeviceId :: qstring
  pg_privateKey :: bytes
  pg_publicKey :: bytes
  pg_salt :: bytes
  pg_result :: "pairing_result option"
  pg_cache :: replay_cache

datatype pairing_event =
    PairingStateChanged pairing_state
  | PairingSucceeded pairing_result
  | PairingFailed pairing_error

text \<open>The clock, the configuration, and the random values of one call; \<open>None\<close> when the generator fails.\<close>

record pair_env =
  pe_now :: int
  pe_deviceId :: qstring
  pe_virtualIp :: qstring
  pe_uuid :: qstring
  pe_private :: "bytes option"
  pe_random :: "nat \<Rightarrow> bytes"

definition pairing_init :: pairing where
  "pairing_init = \<lparr>pg_state = PairIdle, pg_lastError = ErrNone, pg_sessionId = [], pg_peerDeviceId = [],
     pg_privateKey = [], pg_publicKey = [], pg_salt = [], pg_result = None, pg_cache = []\<rparr>"

definition pair_setState :: "pairing_state \<Rightarrow> pairing \<Rightarrow> pairing \<times> pairing_event list" where
  "pair_setState st p = (if pg_state p \<noteq> st then (p\<lparr>pg_state := st\<rparr>, [PairingStateChanged st]) else (p, []))"

definition setFailed :: "pairing_error \<Rightarrow> pairing \<Rightarrow> pairing \<times> pairing_event list" where
  "setFailed err p =
    (case pair_setState PairFailed (p\<lparr>pg_lastError := err\<rparr>) of (p1, ev) \<Rightarrow> (p1, ev @ [PairingFailed err]))"

definition pair_reset :: "pairing \<Rightarrow> pairing \<times> pairing_event list" where
  "pair_reset p = pair_setState PairIdle
     (p\<lparr>pg_privateKey := [], pg_publicKey := [], pg_salt := [], pg_sessionId := [], pg_peerDeviceId := [],
        pg_result := None, pg_lastError := ErrNone\<rparr>)"

definition cancelPairing :: "pairing \<Rightarrow> pairing \<times> pairing_event list" where
  "cancelPairing p =
    (if pg_state p \<noteq> PairIdle \<and> pg_state p \<noteq> PairFailed then
       (case setFailed ErrCancelled p of (p1, ev1) \<Rightarrow> case pair_reset p1 of (p2, ev2) \<Rightarrow> (p2, ev1 @ ev2))
     else (p, []))"

text \<open>A step that fails ends the call without a message.\<close>

definition fail_with :: "pairing_error \<Rightarrow> pairing \<times> pairing_event list \<Rightarrow> pairing \<times> 'm option \<times> pairing_event list" where
  "fail_with err pe = (case setFailed err (fst pe) of (p1, ev1) \<Rightarrow> (p1, None, snd pe @ ev1))"

section \<open>The handshake\<close>

definition initiatePairing :: "qt_lib \<Rightarrow> openssl \<Rightarrow> pair_env \<Rightarrow> qstring \<Rightarrow> qstring \<Rightarrow> qstring \<Rightarrow> pairing
    \<Rightarrow> pairing \<times> pairing_request option \<times> pairing_event list" where
  "initiatePairing qt ol e peerDeviceId password localVirtualIp p =
    (case pair_reset p of (p0, ev0) \<Rightarrow> case pair_setState PairInitiating p0 of (p1, ev1) \<Rightarrow>
     let ev = ev0 @ ev1 in
     if pe_deviceId e = [] \<or> peerDeviceId = [] \<or> password = [] then fail_with InvalidMessage (p1, ev)
     else case pe_private e of
       None \<Rightarrow> fail_with CryptoError (p1, ev)
     | Some priv \<Rightarrow>
       let p2 = p1\<lparr>pg_privateKey := priv, pg_publicKey := ol_public ol priv, pg_salt := pe_random e 16\<rparr> in
       if length (pg_salt p2) \<noteq> 16 then fail_with CryptoError (p2, ev)
       else case pairing_key qt ol password (pg_salt p2) of
         None \<Rightarrow> fail_with CryptoError (p2, ev)
       | Some kdfKey \<Rightarrow>
         let p3 = p2\<lparr>pg_sessionId := pe_uuid e, pg_peerDeviceId := peerDeviceId\<rparr>;
             req = \<lparr>pr_sessionId = pe_uuid e, pr_senderDeviceId = pe_deviceId e, pr_receiverDeviceId = peerDeviceId,
                    pr_timestamp = pe_now e, pr_saltBase64 = to_base64 qt (pg_salt p3),
                    pr_ephemeralPublicKeyBase64 = to_base64 qt (pg_publicKey p3),
                    pr_proposedVirtualIp = (if localVirtualIp = [] then pe_virtualIp e else localVirtualIp),
                    pr_authProofBase64 = []\<rparr>;
             transcript = PairingRequest_transcript qt req in
         case computeHmacSha256 ol kdfKey transcript of
           None \<Rightarrow> fail_with CryptoError (p3, ev)
         | Some proof \<Rightarrow>
           (case pair_setState AwaitingResponse
              (p3\<lparr>pg_cache := registerSession (pr_sessionId req) (ol_sha256 ol transcript) (pr_timestamp req) (pg_cache p3)\<rparr>)
            of (p4, ev4) \<Rightarrow> (p4, Some (req\<lparr>pr_authProofBase64 := to_base64 qt proof\<rparr>), ev @ ev4)))"

definition handleIncomingRequest :: "qt_lib \<Rightarrow> openssl \<Rightarrow> pair_env \<Rightarrow> pairing_request \<Rightarrow> qstring \<Rightarrow> qstring \<Rightarrow> pairing
    \<Rightarrow> pairing \<times> pairing_response option \<times> pairing_event list" where
  "handleIncomingRequest qt ol e request password localVirtualIp p =
    (case pair_reset p of (p0, ev0) \<Rightarrow> case pair_setState PairVerifying p0 of (p1, ev1) \<Rightarrow>
     let ev = ev0 @ ev1; now = pe_now e in
     if pr_receiverDeviceId request \<noteq> pe_deviceId e then fail_with InvalidMessage (p1, ev)
     else if \<not> isTimestampValid now (pr_timestamp request) now then fail_with TimestampExpired (p1, ev)
     else
      let transcript = PairingRequest_transcript qt request; transcriptHash = ol_sha256 ol transcript in
      case isReplayed now (pr_sessionId request) transcriptHash (pr_timestamp request) now (pg_cache p1) of (seen, replayed) \<Rightarrow>
      let p2 = p1\<lparr>pg_cache := seen\<rparr> in
      if replayed then fail_with ReplayDetected (p2, ev)
      else
       let peerPubKey = from_base64 qt (pr_ephemeralPublicKeyBase64 request);
           salt = from_base64 qt (pr_saltBase64 request);
           peerProof = from_base64 qt (pr_authProofBase64 request) in
       if length peerPubKey \<noteq> 32 \<or> length salt < 8 \<or> length peerProof \<noteq> 32 then fail_with InvalidMessage (p2, ev)
       else case pairing_key qt ol password salt of
         None \<Rightarrow> fail_with CryptoError (p2, ev)
       | Some kdfKey \<Rightarrow>
         (case computeHmacSha256 ol kdfKey transcript of
            None \<Rightarrow> fail_with CryptoError (p2, ev)
          | Some expectedProof \<Rightarrow>
            if \<not> verifyHmacConstantTime expectedProof peerProof then fail_with AuthFailed (p2, ev)
            else
             let p3 = p2\<lparr>pg_cache := registerSession (pr_sessionId request) transcriptHash (pr_timestamp request) (pg_cache p2)\<rparr> in
             case pe_private e of
               None \<Rightarrow> fail_with CryptoError (p3, ev)
             | Some priv \<Rightarrow>
               let p4 = p3\<lparr>pg_privateKey := priv, pg_publicKey := ol_public ol priv\<rparr> in
               (case deriveSharedSecret ol priv peerPubKey of
                  None \<Rightarrow> fail_with CryptoError (p4, ev)
                | Some sharedSecret \<Rightarrow>
                  let resp = \<lparr>ps_sessionId = pr_sessionId request, ps_senderDeviceId = pe_deviceId e,
                             ps_receiverDeviceId = pr_senderDeviceId request, ps_timestamp = now,
                             ps_saltBase64 = to_base64 qt salt,
                             ps_ephemeralPublicKeyBase64 = to_base64 qt (pg_publicKey p4),
                             ps_proposedVirtualIp = (if localVirtualIp = [] then pe_virtualIp e else localVirtualIp),
                             ps_authProofBase64 = [], ps_status = qs ''accepted'', ps_errorMessage = None\<rparr>;
                      respTranscript = PairingResponse_transcript qt resp in
                  (case computeHmacSha256 ol kdfKey respTranscript of
                     None \<Rightarrow> fail_with CryptoError (p4, ev)
                   | Some respProof \<Rightarrow>
                     let res = \<lparr>rs_peerDeviceId = pr_senderDeviceId request,
                               rs_peerPublicKeyBase64 = pr_ephemeralPublicKeyBase64 request,
                               rs_peerVirtualIp = pr_proposedVirtualIp request, rs_sharedSecret = sharedSecret\<rparr>;
                         p5 = p4\<lparr>pg_cache := registerSession (ps_sessionId resp @ qs ''_resp'') (ol_sha256 ol respTranscript)
                                   (ps_timestamp resp) (pg_cache p4), pg_result := Some res\<rparr> in
                     (case pair_setState Paired p5 of (p6, ev6) \<Rightarrow>
                       (p6, Some (resp\<lparr>ps_authProofBase64 := to_base64 qt respProof\<rparr>), ev @ ev6 @ [PairingSucceeded res]))))))"

definition handleIncomingResponse :: "qt_lib \<Rightarrow> openssl \<Rightarrow> pair_env \<Rightarrow> pairing_response \<Rightarrow> qstring \<Rightarrow> pairing
    \<Rightarrow> pairing \<times> unit option \<times> pairing_event list" where
  "handleIncomingResponse qt ol e response password p =
    (if pg_state p \<noteq> AwaitingResponse then fail_with InvalidMessage (p, [])
     else case pair_setState PairVerifying p of (p1, ev) \<Rightarrow>
     let now = pe_now e in
     if ps_sessionId response \<noteq> pg_sessionId p1 then fail_with InvalidMessage (p1, ev)
     else if ps_receiverDeviceId response \<noteq> pe_deviceId e \<or> ps_senderDeviceId response \<noteq> pg_peerDeviceId p1
     then fail_with InvalidMessage (p1, ev)
     else if ps_status response \<noteq> qs ''accepted'' then fail_with AuthFailed (p1, ev)
     else if \<not> isTimestampValid now (ps_timestamp response) now then fail_with TimestampExpired (p1, ev)
     else
      let respTranscript = PairingResponse_transcript qt response; respHash = ol_sha256 ol respTranscript in
      case isReplayed now (ps_sessionId response @ qs ''_resp'') respHash (ps_timestamp response) now (pg_cache p1)
      of (seen, replayed) \<Rightarrow>
      let p2 = p1\<lparr>pg_cache := seen\<rparr> in
      if replayed then fail_with ReplayDetected (p2, ev)
      else
       let peerPubKey = from_base64 qt (ps_ephemeralPublicKeyBase64 response);
           salt = from_base64 qt (ps_saltBase64 response);
           peerProof = from_base64 qt (ps_authProofBase64 response) in
       if length peerPubKey \<noteq> 32 \<or> length salt < 8 \<or> length peerProof \<noteq> 32 then fail_with InvalidMessage (p2, ev)
       else case pairing_key qt ol password salt of
         None \<Rightarrow> fail_with CryptoError (p2, ev)
       | Some kdfKey \<Rightarrow>
         (case computeHmacSha256 ol kdfKey respTranscript of
            None \<Rightarrow> fail_with CryptoError (p2, ev)
          | Some expectedProof \<Rightarrow>
            if \<not> verifyHmacConstantTime expectedProof peerProof then fail_with AuthFailed (p2, ev)
            else
             (case deriveSharedSecret ol (pg_privateKey p2) peerPubKey of
                None \<Rightarrow> fail_with CryptoError (p2, ev)
              | Some sharedSecret \<Rightarrow>
                let res = \<lparr>rs_peerDeviceId = ps_senderDeviceId response,
                          rs_peerPublicKeyBase64 = ps_ephemeralPublicKeyBase64 response,
                          rs_peerVirtualIp = ps_proposedVirtualIp response, rs_sharedSecret = sharedSecret\<rparr>;
                    p3 = p2\<lparr>pg_cache := registerSession (ps_sessionId response @ qs ''_resp'') respHash
                              (ps_timestamp response) (pg_cache p2), pg_result := Some res\<rparr> in
                (case pair_setState Paired p3 of (p4, ev4) \<Rightarrow> (p4, Some (), ev @ ev4 @ [PairingSucceeded res])))))"


section \<open>Runs\<close>

datatype pairing_input =
    Initiate qstring qstring qstring
  | IncomingRequest pairing_request qstring qstring
  | IncomingResponse pairing_response qstring
  | CancelPairing
  | ResetPairing

fun pairing_step :: "qt_lib \<Rightarrow> openssl \<Rightarrow> pair_env \<Rightarrow> pairing_input \<Rightarrow> pairing \<Rightarrow> pairing" where
  "pairing_step qt ol e (Initiate peer pw ip) p = fst (initiatePairing qt ol e peer pw ip p)"
| "pairing_step qt ol e (IncomingRequest r pw ip) p = fst (handleIncomingRequest qt ol e r pw ip p)"
| "pairing_step qt ol e (IncomingResponse r pw) p = fst (handleIncomingResponse qt ol e r pw p)"
| "pairing_step qt ol e CancelPairing p = fst (cancelPairing p)"
| "pairing_step qt ol e ResetPairing p = fst (pair_reset p)"

fun pairing_run :: "qt_lib \<Rightarrow> openssl \<Rightarrow> (pair_env \<times> pairing_input) list \<Rightarrow> pairing \<Rightarrow> pairing" where
  "pairing_run qt ol [] p = p"
| "pairing_run qt ol ((e, i) # steps) p = pairing_run qt ol steps (pairing_step qt ol e i p)"

lemma setState_simps [simp]:
  "fst (pair_setState st p) = p\<lparr>pg_state := st\<rparr>"
  by (simp add: pair_setState_def)

lemma setState_eqD: "pair_setState st p = (p', ev) \<Longrightarrow> p' = p\<lparr>pg_state := st\<rparr>"
  by (metis fst_conv setState_simps)

lemma fail_with_simps [simp]:
  "fst (fail_with err pe) = (fst pe)\<lparr>pg_lastError := err, pg_state := PairFailed\<rparr>"
  "fst (snd (fail_with err pe)) = None"
  by (simp_all add: fail_with_def setFailed_def case_prod_beta)

lemma fail_with_None [simp]: "fail_with err pe \<noteq> (p', Some m, ev)"
  by (metis fail_with_simps(2) fst_conv option.distinct(1) snd_conv)

lemma reset_simps [simp]:
  "pg_cache (fst (pair_reset p)) = pg_cache p" "pg_result (fst (pair_reset p)) = None"
  "pg_state (fst (pair_reset p)) = PairIdle"
  by (simp_all add: pair_reset_def)

lemma reset_eqD: "pair_reset p = (p', ev) \<Longrightarrow> pg_cache p' = pg_cache p \<and> pg_result p' = None"
  by (metis fst_conv reset_simps(1,2))

text \<open>When a request is accepted, and what the session is then.\<close>

lemma request_accepted:
  assumes "handleIncomingRequest qt ol e r pw ip p = (p', Some resp, ev)"
  defines "transcript \<equiv> PairingRequest_transcript qt r"
  shows "\<exists>kdf priv secret rproof.
      pr_receiverDeviceId r = pe_deviceId e \<and> isTimestampValid (pe_now e) (pr_timestamp r) (pe_now e)
    \<and> \<not> snd (isReplayed (pe_now e) (pr_sessionId r) (ol_sha256 ol transcript) (pr_timestamp r) (pe_now e) (pg_cache p))
    \<and> length (from_base64 qt (pr_ephemeralPublicKeyBase64 r)) = 32
    \<and> pairing_key qt ol pw (from_base64 qt (pr_saltBase64 r)) = Some kdf
    \<and> computeHmacSha256 ol kdf transcript = Some (from_base64 qt (pr_authProofBase64 r))
    \<and> pe_private e = Some priv
    \<and> deriveSharedSecret ol priv (from_base64 qt (pr_ephemeralPublicKeyBase64 r)) = Some secret
    \<and> computeHmacSha256 ol kdf (PairingResponse_transcript qt resp) = Some rproof
    \<and> resp = \<lparr>ps_sessionId = pr_sessionId r, ps_senderDeviceId = pe_deviceId e,
         ps_receiverDeviceId = pr_senderDeviceId r, ps_timestamp = pe_now e,
         ps_saltBase64 = to_base64 qt (from_base64 qt (pr_saltBase64 r)),
         ps_ephemeralPublicKeyBase64 = to_base64 qt (ol_public ol priv),
         ps_proposedVirtualIp = (if ip = [] then pe_virtualIp e else ip),
         ps_authProofBase64 = to_base64 qt rproof, ps_status = qs ''accepted'', ps_errorMessage = None\<rparr>
    \<and> pg_state p' = Paired
    \<and> pg_result p' = Some \<lparr>rs_peerDeviceId = pr_senderDeviceId r,
         rs_peerPublicKeyBase64 = pr_ephemeralPublicKeyBase64 r,
         rs_peerVirtualIp = pr_proposedVirtualIp r, rs_sharedSecret = secret\<rparr>
    \<and> pg_cache p' = registerSession (pr_sessionId r @ qs ''_resp'') (ol_sha256 ol (PairingResponse_transcript qt resp)) (pe_now e)
        (registerSession (pr_sessionId r) (ol_sha256 ol transcript) (pr_timestamp r)
          (fst (isReplayed (pe_now e) (pr_sessionId r) (ol_sha256 ol transcript) (pr_timestamp r) (pe_now e) (pg_cache p))))"
  using assms(1) unfolding transcript_def
  by (auto simp: handleIncomingRequest_def Let_def verifyHmacConstantTime_def PairingResponse_transcript_def
      dest!: setState_eqD reset_eqD split: prod.splits if_splits option.splits)


text \<open>What a call can do to the replay cache.\<close>

lemma isReplayed_fst [simp]: "fst (isReplayed clock i h t now seen) = pruneExpired clock now seen"
  by (simp add: isReplayed_def Let_def)

lemma initiate_cache:
  assumes "initiatePairing qt ol e peer pw ip p = (p', m, ev)"
  shows "\<exists>h. pg_cache p' = pg_cache p \<or> pg_cache p' = registerSession (pe_uuid e) h (pe_now e) (pg_cache p)"
  using assms
  by (auto simp: initiatePairing_def Let_def fail_with_def setFailed_def dest!: setState_eqD reset_eqD
      split: prod.splits if_splits option.splits)

lemma request_cache:
  assumes "handleIncomingRequest qt ol e r pw ip p = (p', m, ev)"
  defines "seen \<equiv> pruneExpired (pe_now e) (pe_now e) (pg_cache p)"
  shows "pg_cache p' = pg_cache p \<or> pg_cache p' = seen
    \<or> (\<exists>h t g. \<not> qm_contains seen (pr_sessionId r) \<and>
        (pg_cache p' = registerSession (pr_sessionId r) h t seen
         \<or> pg_cache p' = registerSession (pr_sessionId r @ qs ''_resp'') g (pe_now e) (registerSession (pr_sessionId r) h t seen)))"
  using assms(1) unfolding seen_def
  by (auto simp: handleIncomingRequest_def Let_def fail_with_def setFailed_def isReplayed_def dest!: setState_eqD reset_eqD
      split: prod.splits if_splits option.splits) blast+

lemma response_cache:
  assumes "handleIncomingResponse qt ol e r pw p = (p', m, ev)"
  defines "seen \<equiv> pruneExpired (pe_now e) (pe_now e) (pg_cache p)"
  shows "pg_cache p' = pg_cache p \<or> pg_cache p' = seen
    \<or> (\<exists>h t. pg_cache p' = registerSession (ps_sessionId r @ qs ''_resp'') h t seen)"
  using assms(1) unfolding seen_def
  by (auto simp: handleIncomingResponse_def Let_def fail_with_def setFailed_def isReplayed_def dest!: setState_eqD reset_eqD
      split: prod.splits if_splits option.splits) blast

lemma cancel_cache: "pg_cache (fst (cancelPairing p)) = pg_cache p"
  by (auto simp: cancelPairing_def setFailed_def case_prod_beta)

text \<open>The entry of a session stays until it expires, unless another session takes its key.\<close>

definition entry_kept :: "qstring \<Rightarrow> int \<Rightarrow> bytes \<Rightarrow> int \<Rightarrow> replay_cache \<Rightarrow> bool" where
  "entry_kept i ts h now seen \<longleftrightarrow> qm_ok seen \<and> (qm_value seen i = Some (ts, h) \<or> ts + REPLAY_WINDOW_SECONDS < now)"

definition own_key :: "qstring \<Rightarrow> bool" where
  "own_key i \<longleftrightarrow> (\<nexists>j. i = j @ qs ''_resp'')"

fun fresh_session :: "qstring \<Rightarrow> pair_env \<times> pairing_input \<Rightarrow> bool" where
  "fresh_session i (e, Initiate peer pw ip) = (pe_uuid e \<noteq> i)"
| "fresh_session i (e, _) = True"

lemma kept_prune:
  "entry_kept i ts h t seen \<Longrightarrow> t \<le> now \<Longrightarrow> ts - REPLAY_WINDOW_SECONDS \<le> t \<Longrightarrow>
     entry_kept i ts h now (pruneExpired now now seen)"
  by (auto simp: entry_kept_def pruneExpired_def effective_now_def qm_value_retain REPLAY_WINDOW_SECONDS_def)

lemma kept_register: "entry_kept i ts h t seen \<Longrightarrow> j \<noteq> i \<Longrightarrow> entry_kept i ts h t (registerSession j g u seen)"
  by (auto simp: entry_kept_def registerSession_def)

lemma kept_later: "entry_kept i ts h t seen \<Longrightarrow> t \<le> now \<Longrightarrow> entry_kept i ts h now seen"
  by (auto simp: entry_kept_def)

lemma kept_expired: "entry_kept i ts h t seen \<Longrightarrow> \<not> qm_contains seen i \<Longrightarrow> ts + REPLAY_WINDOW_SECONDS < t"
  by (auto simp: entry_kept_def qm_contains_def)

lemma kept_register_own:
  "entry_kept i ts h t seen \<Longrightarrow> \<not> qm_contains seen i \<Longrightarrow> entry_kept i ts h t (registerSession i g u seen)"
  using kept_expired [of i ts h t seen] by (auto simp: entry_kept_def registerSession_def)

lemma step_kept:
  assumes k: "entry_kept i ts h t (pg_cache p)" and le: "t \<le> pe_now e" "ts - REPLAY_WINDOW_SECONDS \<le> t"
    and own: "own_key i" and fr: "fresh_session i (e, inp)"
  shows "entry_kept i ts h (pe_now e) (pg_cache (pairing_step qt ol e inp p))"
proof -
  have pr: "entry_kept i ts h (pe_now e) (pruneExpired (pe_now e) (pe_now e) (pg_cache p))"
    using kept_prune [OF k le] .
  have same: "entry_kept i ts h (pe_now e) (pg_cache p)" using kept_later [OF k le(1)] .
  have other: "j @ qs ''_resp'' \<noteq> i" for j using own by (auto simp: own_key_def)
  show ?thesis
  proof (cases inp)
    case (Initiate peer pw ip)
    obtain p' m ev where "initiatePairing qt ol e peer pw ip p = (p', m, ev)" by (metis prod.exhaust)
    from initiate_cache [OF this] this Initiate same fr show ?thesis by (auto intro: kept_register)
  next
    case (IncomingRequest r pw ip)
    obtain p' m ev where r: "handleIncomingRequest qt ol e r pw ip p = (p', m, ev)" by (metis prod.exhaust)
    have reg: "entry_kept i ts h (pe_now e) (registerSession (pr_sessionId r) g u (pruneExpired (pe_now e) (pe_now e) (pg_cache p)))"
      if "\<not> qm_contains (pruneExpired (pe_now e) (pe_now e) (pg_cache p)) (pr_sessionId r)" for g u
      using that kept_register_own [OF pr] kept_register [OF pr] by (cases "pr_sessionId r = i") auto
    have "entry_kept i ts h (pe_now e) (pg_cache p')"
      using request_cache [OF r] by (elim disjE exE conjE) (simp_all add: same pr kept_register reg other)
    with r IncomingRequest show ?thesis by simp
  next
    case (IncomingResponse r pw)
    obtain p' m ev where r: "handleIncomingResponse qt ol e r pw p = (p', m, ev)" by (metis prod.exhaust)
    have "entry_kept i ts h (pe_now e) (pg_cache p')"
      using response_cache [OF r] by (elim disjE exE conjE) (simp_all add: same pr kept_register other)
    with r IncomingResponse show ?thesis by simp
  qed (use same in \<open>simp_all add: cancel_cache\<close>)
qed

lemma run_kept:
  "entry_kept i ts h t (pg_cache p) \<Longrightarrow> sorted (t # map (\<lambda>s. pe_now (fst s)) steps) \<Longrightarrow> ts - REPLAY_WINDOW_SECONDS \<le> t
     \<Longrightarrow> own_key i \<Longrightarrow> list_all (fresh_session i) steps \<Longrightarrow>
     entry_kept i ts h (last (t # map (\<lambda>s. pe_now (fst s)) steps)) (pg_cache (pairing_run qt ol steps p))"
proof (induction steps arbitrary: t p)
  case (Cons s steps)
  obtain e inp where s: "s = (e, inp)" by fastforce
  have "entry_kept i ts h (pe_now e) (pg_cache (pairing_step qt ol e inp p))"
    using step_kept [OF Cons.prems(1)] Cons.prems s by simp
  from Cons.IH [OF this] Cons.prems s show ?case by simp
qed simp

text \<open>
  C5: Once a request has been accepted, no later request with its time stamp and its session
  id or transcript is ever accepted, whatever the session does in between, as long as no
  other session takes its cache key.
\<close>

theorem request_accepted_once:
  assumes "qm_ok (pg_cache p)" and "handleIncomingRequest qt ol e r pw ip p = (p1, Some resp, ev)"
    and "own_key (pr_sessionId r)" and "list_all (fresh_session (pr_sessionId r)) steps"
    and "sorted (pe_now e # map (\<lambda>s. pe_now (fst s)) steps @ [pe_now e'])"
    and "pr_timestamp r' = pr_timestamp r"
    and "pr_sessionId r' = pr_sessionId r \<or> PairingRequest_transcript qt r' = PairingRequest_transcript qt r"
  shows "fst (snd (handleIncomingRequest qt ol e' r' pw' ip' (pairing_run qt ol steps p1))) = None"
proof (rule ccontr)
  let ?i = "pr_sessionId r" and ?ts = "pr_timestamp r" and ?h = "ol_sha256 ol (PairingRequest_transcript qt r)"
  let ?p2 = "pairing_run qt ol steps p1" and ?seen = "pruneExpired (pe_now e) (pe_now e) (pg_cache p)"
  from request_accepted [OF assms(2)]
  have acc: "isTimestampValid (pe_now e) ?ts (pe_now e)"
    "\<not> snd (isReplayed (pe_now e) ?i ?h ?ts (pe_now e) (pg_cache p))"
    and cache: "\<exists>g. pg_cache p1 = registerSession (?i @ qs ''_resp'') g (pe_now e) (registerSession ?i ?h ?ts ?seen)"
    by auto
  have near: "\<bar>pe_now e - ?ts\<bar> \<le> REPLAY_WINDOW_SECONDS"
    using acc(1) by (simp add: isTimestampValid_def effective_now_def split: if_splits)
  have ne: "?i \<noteq> []" "?h \<noteq> []" using acc(2) by (auto simp: isReplayed_def)
  have "qm_ok ?seen" using assms(1) by (simp add: pruneExpired_def)
  then have "entry_kept ?i ?ts ?h (pe_now e) (registerSession ?i ?h ?ts ?seen)"
    using ne by (simp add: entry_kept_def registerSession_def)
  moreover have "?i @ qs ''_resp'' \<noteq> ?i" by (simp add: qs_def)
  moreover obtain g where "pg_cache p1 = registerSession (?i @ qs ''_resp'') g (pe_now e) (registerSession ?i ?h ?ts ?seen)"
    using cache by blast
  ultimately have k1: "entry_kept ?i ?ts ?h (pe_now e) (pg_cache p1)" by (simp only: kept_register not_False_eq_True)
  let ?t = "last (pe_now e # map (\<lambda>s. pe_now (fst s)) steps)"
  have "?t \<in> set (pe_now e # map (\<lambda>s. pe_now (fst s)) steps)" by (rule last_in_set) simp
  then have lt: "?t \<le> pe_now e'" using assms(5) by (auto simp: sorted_append simp del: last.simps)
  have srt: "sorted (pe_now e # map (\<lambda>s. pe_now (fst s)) steps)" "?t \<le> pe_now e'" "pe_now e \<le> pe_now e'"
    using assms(5) lt by (auto simp: sorted_append simp del: last.simps)
  have k2: "entry_kept ?i ?ts ?h (pe_now e') (pg_cache ?p2)"
    using kept_later [OF run_kept [OF k1 srt(1) _ assms(3,4)] srt(2)] near by simp
  assume "fst (snd (handleIncomingRequest qt ol e' r' pw' ip' ?p2)) \<noteq> None"
  then obtain p3 resp' ev' where r': "handleIncomingRequest qt ol e' r' pw' ip' ?p2 = (p3, Some resp', ev')"
    by (metis fst_conv not_None_eq prod.exhaust snd_conv)
  let ?h' = "ol_sha256 ol (PairingRequest_transcript qt r')"
  from request_accepted [OF r']
  have acc': "isTimestampValid (pe_now e') ?ts (pe_now e')"
    "\<not> snd (isReplayed (pe_now e') (pr_sessionId r') ?h' ?ts (pe_now e') (pg_cache ?p2))"
    using assms(6) by auto
  have near': "\<bar>pe_now e' - ?ts\<bar> \<le> REPLAY_WINDOW_SECONDS"
    using acc'(1) by (simp add: isTimestampValid_def effective_now_def split: if_splits)
  then have "qm_value (pruneExpired (pe_now e') (pe_now e') (pg_cache ?p2)) ?i = Some (?ts, ?h)"
    using k2 by (auto simp: entry_kept_def pruneExpired_def qm_value_retain effective_now_def)
  then have "qm_contains (pruneExpired (pe_now e') (pe_now e') (pg_cache ?p2)) ?i"
    "(?i, ?ts, ?h) \<in> set (pruneExpired (pe_now e') (pe_now e') (pg_cache ?p2))"
    by (auto simp: qm_contains_def qm_value_def dest: map_of_SomeD)
  then show False
    using acc'(2) assms(7) by (auto simp: isReplayed_def Let_def list_ex_iff split: if_splits)
qed


section \<open>An honest run\<close>

text \<open>
  What OpenSSL is assumed to do when nothing fails: keys and digests have their sizes, the
  derivations return, and both sides of the key agreement compute the same secret.
\<close>

definition ssl_ok :: "qt_lib \<Rightarrow> openssl \<Rightarrow> bool" where
  "ssl_ok qt ol \<longleftrightarrow>
     (\<forall>pw salt. pw \<noteq> [] \<and> 8 \<le> length salt \<longrightarrow> (\<exists>k. pairing_key qt ol pw salt = Some k \<and> k \<noteq> []))
   \<and> (\<forall>k m. k \<noteq> [] \<longrightarrow> (\<exists>h. ol_hmac_sha256 ol k m = Some h \<and> length h = 32))
   \<and> (\<forall>m. ol_sha256 ol m \<noteq> [])
   \<and> (\<forall>a. length a = 32 \<longrightarrow> length (ol_public ol a) = 32)
   \<and> (\<forall>a b. length a = 32 \<and> length b = 32 \<longrightarrow>
        (\<exists>s. ol_x25519 ol a (ol_public ol b) = Some s \<and> ol_x25519 ol b (ol_public ol a) = Some s))"

lemma ssl_key: "ssl_ok qt ol \<Longrightarrow> pw \<noteq> [] \<Longrightarrow> 8 \<le> length salt \<Longrightarrow> \<exists>k. pairing_key qt ol pw salt = Some k \<and> k \<noteq> []"
  unfolding ssl_ok_def by blast

lemma ssl_hmac: "ssl_ok qt ol \<Longrightarrow> k \<noteq> [] \<Longrightarrow> \<exists>h. computeHmacSha256 ol k m = Some h \<and> length h = 32"
proof -
  assume "ssl_ok qt ol" "k \<noteq> []"
  then obtain h where "ol_hmac_sha256 ol k m = Some h" "length h = 32" unfolding ssl_ok_def by blast
  with \<open>k \<noteq> []\<close> show ?thesis by (simp add: computeHmacSha256_def)
qed

lemma ssl_secret: "ssl_ok qt ol \<Longrightarrow> length a = 32 \<Longrightarrow> length b = 32 \<Longrightarrow>
    \<exists>s. deriveSharedSecret ol a (ol_public ol b) = Some s \<and> deriveSharedSecret ol b (ol_public ol a) = Some s"
proof -
  assume ol: "ssl_ok qt ol" and a: "length a = 32" and b: "length b = 32"
  then obtain s where "ol_x25519 ol a (ol_public ol b) = Some s \<and> ol_x25519 ol b (ol_public ol a) = Some s"
    unfolding ssl_ok_def by blast
  moreover have "length (ol_public ol a) = 32" "length (ol_public ol b) = 32"
    using ol a b unfolding ssl_ok_def by blast+
  ultimately show ?thesis using a b by (simp add: deriveSharedSecret_def)
qed

lemma ssl_sha: "ssl_ok qt ol \<Longrightarrow> ol_sha256 ol m \<noteq> []"
  unfolding ssl_ok_def by blast

lemma ssl_public: "ssl_ok qt ol \<Longrightarrow> length a = 32 \<Longrightarrow> length (ol_public ol a) = 32"
  unfolding ssl_ok_def by blast

lemma transcript_without_proof [simp]:
  "PairingRequest_transcript qt (r\<lparr>pr_authProofBase64 := x\<rparr>) = PairingRequest_transcript qt r"
  "PairingResponse_transcript qt (s\<lparr>ps_authProofBase64 := x\<rparr>) = PairingResponse_transcript qt s"
  by (simp_all add: PairingRequest_transcript_def PairingResponse_transcript_def)

text \<open>The environment of a call in which the generators work and the device has an identity.\<close>

definition env_ok :: "pair_env \<Rightarrow> bool" where
  "env_ok e \<longleftrightarrow> pe_deviceId e \<noteq> [] \<and> pe_uuid e \<noteq> [] \<and> 0 < pe_now e \<and> length (pe_random e 16) = 16
     \<and> (\<exists>priv. pe_private e = Some priv \<and> length priv = 32)"

text \<open>Nothing in the cache stands in the way of a session and its message.\<close>

definition unseen :: "int \<Rightarrow> qstring \<Rightarrow> bytes \<Rightarrow> replay_cache \<Rightarrow> bool" where
  "unseen now sid h seen \<longleftrightarrow>
     list_all (\<lambda>(i, t, g). \<bar>now - t\<bar> > REPLAY_WINDOW_SECONDS \<or> i \<noteq> sid \<and> g \<noteq> h) seen"

lemma unseen_Nil [simp]: "unseen now sid h []"
  by (simp add: unseen_def)

lemma unseen_register: "unseen now sid h seen \<Longrightarrow> i \<noteq> sid \<Longrightarrow> g \<noteq> h \<Longrightarrow> unseen now sid h (registerSession i g t seen)"
  by (simp add: unseen_def registerSession_def list_all_qm_insert)

lemma unseen_prune: "unseen now sid h seen \<Longrightarrow> unseen now sid h (pruneExpired c d seen)"
  by (auto simp: unseen_def pruneExpired_def qm_retain_def list_all_iff)

lemma not_replayed:
  assumes "sid \<noteq> []" "h \<noteq> []" "isTimestampValid now ts now" and u: "unseen now sid h seen"
  shows "isReplayed now sid h ts now seen = (pruneExpired now now seen, False)"
proof -
  have "\<not> qm_contains (pruneExpired now now seen) sid" "\<not> list_ex (\<lambda>entry. snd (snd entry) = h) (pruneExpired now now seen)"
    using u by (fastforce simp: unseen_def pruneExpired_def effective_now_def qm_retain_def qm_contains_def qm_value_def
        list_ex_iff list_all_iff dest: map_of_SomeD)+
  then show ?thesis using assms by (simp add: isReplayed_def)
qed

definition sent_request :: "qt_lib \<Rightarrow> openssl \<Rightarrow> pair_env \<Rightarrow> qstring \<Rightarrow> qstring \<Rightarrow> bytes \<Rightarrow> bytes \<Rightarrow> pairing_request" where
  "sent_request qt ol e peer ip priv proof =
    \<lparr>pr_sessionId = pe_uuid e, pr_senderDeviceId = pe_deviceId e, pr_receiverDeviceId = peer,
     pr_timestamp = pe_now e, pr_saltBase64 = to_base64 qt (pe_random e 16),
     pr_ephemeralPublicKeyBase64 = to_base64 qt (ol_public ol priv),
     pr_proposedVirtualIp = (if ip = [] then pe_virtualIp e else ip), pr_authProofBase64 = to_base64 qt proof\<rparr>"

definition sent_response :: "qt_lib \<Rightarrow> openssl \<Rightarrow> pair_env \<Rightarrow> pairing_request \<Rightarrow> qstring \<Rightarrow> bytes \<Rightarrow> bytes \<Rightarrow> pairing_response" where
  "sent_response qt ol e r ip priv proof =
    \<lparr>ps_sessionId = pr_sessionId r, ps_senderDeviceId = pe_deviceId e,
     ps_receiverDeviceId = pr_senderDeviceId r, ps_timestamp = pe_now e,
     ps_saltBase64 = to_base64 qt (from_base64 qt (pr_saltBase64 r)),
     ps_ephemeralPublicKeyBase64 = to_base64 qt (ol_public ol priv),
     ps_proposedVirtualIp = (if ip = [] then pe_virtualIp e else ip),
     ps_authProofBase64 = to_base64 qt proof, ps_status = qs ''accepted'', ps_errorMessage = None\<rparr>"

lemma sent_request_simps [simp]:
  "pr_sessionId (sent_request qt ol e peer ip priv proof) = pe_uuid e"
  "pr_senderDeviceId (sent_request qt ol e peer ip priv proof) = pe_deviceId e"
  "pr_receiverDeviceId (sent_request qt ol e peer ip priv proof) = peer"
  "pr_timestamp (sent_request qt ol e peer ip priv proof) = pe_now e"
  "pr_saltBase64 (sent_request qt ol e peer ip priv proof) = to_base64 qt (pe_random e 16)"
  "pr_ephemeralPublicKeyBase64 (sent_request qt ol e peer ip priv proof) = to_base64 qt (ol_public ol priv)"
  "pr_proposedVirtualIp (sent_request qt ol e peer ip priv proof) = (if ip = [] then pe_virtualIp e else ip)"
  "pr_authProofBase64 (sent_request qt ol e peer ip priv proof) = to_base64 qt proof"
  by (simp_all add: sent_request_def)

lemma sent_response_simps [simp]:
  "ps_sessionId (sent_response qt ol e r ip priv proof) = pr_sessionId r"
  "ps_senderDeviceId (sent_response qt ol e r ip priv proof) = pe_deviceId e"
  "ps_receiverDeviceId (sent_response qt ol e r ip priv proof) = pr_senderDeviceId r"
  "ps_timestamp (sent_response qt ol e r ip priv proof) = pe_now e"
  "ps_saltBase64 (sent_response qt ol e r ip priv proof) = to_base64 qt (from_base64 qt (pr_saltBase64 r))"
  "ps_ephemeralPublicKeyBase64 (sent_response qt ol e r ip priv proof) = to_base64 qt (ol_public ol priv)"
  "ps_proposedVirtualIp (sent_response qt ol e r ip priv proof) = (if ip = [] then pe_virtualIp e else ip)"
  "ps_authProofBase64 (sent_response qt ol e r ip priv proof) = to_base64 qt proof"
  "ps_status (sent_response qt ol e r ip priv proof) = qs ''accepted''"
  by (simp_all add: sent_response_def)

lemma initiate_sends:
  assumes "pe_deviceId e \<noteq> []" "peer \<noteq> []" "pw \<noteq> []" "pe_private e = Some priv" "length (pe_random e 16) = 16"
    and "pairing_key qt ol pw (pe_random e 16) = Some kdf"
    and "computeHmacSha256 ol kdf (PairingRequest_transcript qt (sent_request qt ol e peer ip priv [])) = Some proof"
  defines "r \<equiv> sent_request qt ol e peer ip priv proof"
  shows "\<exists>p' ev. initiatePairing qt ol e peer pw ip p = (p', Some r, ev) \<and> pg_state p' = AwaitingResponse
    \<and> pg_sessionId p' = pe_uuid e \<and> pg_peerDeviceId p' = peer \<and> pg_privateKey p' = priv \<and> pg_result p' = None
    \<and> pg_cache p' = registerSession (pe_uuid e) (ol_sha256 ol (PairingRequest_transcript qt r)) (pe_now e) (pg_cache p)"
  using assms(1-7) unfolding r_def
  by (auto simp: initiatePairing_def Let_def case_prod_beta sent_request_def PairingRequest_transcript_def)

lemma request_accepts:
  assumes "pr_receiverDeviceId r = pe_deviceId e" "isTimestampValid (pe_now e) (pr_timestamp r) (pe_now e)"
    and "pr_sessionId r \<noteq> []" "ol_sha256 ol (PairingRequest_transcript qt r) \<noteq> []"
    and "unseen (pe_now e) (pr_sessionId r) (ol_sha256 ol (PairingRequest_transcript qt r)) (pg_cache p)"
    and "length (from_base64 qt (pr_ephemeralPublicKeyBase64 r)) = 32"
    and "8 \<le> length (from_base64 qt (pr_saltBase64 r))"
    and "pairing_key qt ol pw (from_base64 qt (pr_saltBase64 r)) = Some kdf"
    and "computeHmacSha256 ol kdf (PairingRequest_transcript qt r) = Some (from_base64 qt (pr_authProofBase64 r))"
    and "pe_private e = Some priv"
    and "deriveSharedSecret ol priv (from_base64 qt (pr_ephemeralPublicKeyBase64 r)) = Some secret"
    and "computeHmacSha256 ol kdf (PairingResponse_transcript qt (sent_response qt ol e r ip priv [])) = Some rproof"
  shows "\<exists>p' ev. handleIncomingRequest qt ol e r pw ip p = (p', Some (sent_response qt ol e r ip priv rproof), ev)"
proof -
  have "length (from_base64 qt (pr_authProofBase64 r)) = 32"
    using assms(9) by (auto simp: computeHmacSha256_def split: if_splits option.splits)
  then show ?thesis
    using assms not_replayed [OF assms(3,4,2,5)]
    by (simp add: handleIncomingRequest_def Let_def case_prod_beta verifyHmacConstantTime_def sent_response_def
        PairingResponse_transcript_def)
qed

lemma response_accepts:
  assumes "pg_state p = AwaitingResponse" "ps_sessionId s = pg_sessionId p" "ps_receiverDeviceId s = pe_deviceId e"
    and "ps_senderDeviceId s = pg_peerDeviceId p" "ps_status s = qs ''accepted''"
    and "isTimestampValid (pe_now e) (ps_timestamp s) (pe_now e)"
    and "ol_sha256 ol (PairingResponse_transcript qt s) \<noteq> []"
    and "unseen (pe_now e) (ps_sessionId s @ qs ''_resp'') (ol_sha256 ol (PairingResponse_transcript qt s)) (pg_cache p)"
    and "length (from_base64 qt (ps_ephemeralPublicKeyBase64 s)) = 32"
    and "8 \<le> length (from_base64 qt (ps_saltBase64 s))"
    and "pairing_key qt ol pw (from_base64 qt (ps_saltBase64 s)) = Some kdf"
    and "computeHmacSha256 ol kdf (PairingResponse_transcript qt s) = Some (from_base64 qt (ps_authProofBase64 s))"
    and "deriveSharedSecret ol (pg_privateKey p) (from_base64 qt (ps_ephemeralPublicKeyBase64 s)) = Some secret"
  shows "\<exists>p' ev. handleIncomingResponse qt ol e s pw p = (p', Some (), ev) \<and> pg_state p' = Paired
    \<and> pg_result p' = Some \<lparr>rs_peerDeviceId = ps_senderDeviceId s, rs_peerPublicKeyBase64 = ps_ephemeralPublicKeyBase64 s,
         rs_peerVirtualIp = ps_proposedVirtualIp s, rs_sharedSecret = secret\<rparr>"
proof -
  have "length (from_base64 qt (ps_authProofBase64 s)) = 32"
    using assms(12) by (auto simp: computeHmacSha256_def split: if_splits option.splits)
  moreover have "ps_sessionId s @ qs ''_resp'' \<noteq> []" by simp
  ultimately show ?thesis
    using assms not_replayed [OF _ assms(7,6,8)]
    by (auto simp: handleIncomingResponse_def Let_def case_prod_beta verifyHmacConstantTime_def)
qed


lemma near_valid: "0 < ts \<Longrightarrow> \<bar>now - ts\<bar> \<le> REPLAY_WINDOW_SECONDS \<Longrightarrow> isTimestampValid now ts now"
  by (simp add: isTimestampValid_def effective_now_def)

text \<open>
  C3: Two devices with the same password, clocks within five minutes of each other and fresh
  caches complete the handshake: request, response and acceptance all succeed, both are
  paired with each other and hold the same secret.
\<close>

theorem pairing_agreement:
  assumes laws: "base64_roundtrip qt" "ssl_ok qt ol"
    and envs: "env_ok eA" "env_ok eB" "pe_deviceId eC = pe_deviceId eA" "pw \<noteq> []"
    and keys: "pe_private eA = Some a" "pe_private eB = Some b"
    and clocks: "\<bar>pe_now eB - pe_now eA\<bar> \<le> 300" "\<bar>pe_now eC - pe_now eB\<bar> \<le> 300"
    and names: "r0 = sent_request qt ol eA (pe_deviceId eB) ipA a []" "s0 = sent_response qt ol eB r0 ipB b []"
    and new: "unseen (pe_now eB) (pe_uuid eA) (ol_sha256 ol (PairingRequest_transcript qt r0)) (pg_cache pB)"
      "unseen (pe_now eC) (pe_uuid eA @ qs ''_resp'') (ol_sha256 ol (PairingResponse_transcript qt s0)) (pg_cache pA)"
      "ol_sha256 ol (PairingResponse_transcript qt s0) \<noteq> ol_sha256 ol (PairingRequest_transcript qt r0)"
  shows "\<exists>pA1 r evA pB1 s evB pA2 evC secret.
      initiatePairing qt ol eA (pe_deviceId eB) pw ipA pA = (pA1, Some r, evA)
    \<and> handleIncomingRequest qt ol eB r pw ipB pB = (pB1, Some s, evB)
    \<and> handleIncomingResponse qt ol eC s pw pA1 = (pA2, Some (), evC)
    \<and> pg_state pA2 = Paired \<and> pg_state pB1 = Paired
    \<and> pg_result pA2 = Some \<lparr>rs_peerDeviceId = pe_deviceId eB, rs_peerPublicKeyBase64 = to_base64 qt (ol_public ol b),
         rs_peerVirtualIp = (if ipB = [] then pe_virtualIp eB else ipB), rs_sharedSecret = secret\<rparr>
    \<and> pg_result pB1 = Some \<lparr>rs_peerDeviceId = pe_deviceId eA, rs_peerPublicKeyBase64 = to_base64 qt (ol_public ol a),
         rs_peerVirtualIp = (if ipA = [] then pe_virtualIp eA else ipA), rs_sharedSecret = secret\<rparr>"
proof -
  have b64: "from_base64 qt (to_base64 qt x) = x" for x using laws(1) by (simp add: base64_roundtrip_def)
  have lens: "length a = 32" "length b = 32" "length (pe_random eA 16) = 16" "pe_deviceId eA \<noteq> []" "pe_deviceId eB \<noteq> []"
    "pe_uuid eA \<noteq> []" "0 < pe_now eA" "0 < pe_now eB"
    using envs(1,2) keys by (auto simp: env_ok_def)
  note pubs = ssl_public [OF laws(2) lens(1)] ssl_public [OF laws(2) lens(2)]
  obtain kdf where kdf: "pairing_key qt ol pw (pe_random eA 16) = Some kdf" "kdf \<noteq> []"
    using ssl_key [OF laws(2) envs(4), of "pe_random eA 16"] lens by auto
  obtain pf where pf: "computeHmacSha256 ol kdf (PairingRequest_transcript qt r0) = Some pf"
    using ssl_hmac [OF laws(2) kdf(2)] by blast
  obtain rpf where rpf: "computeHmacSha256 ol kdf (PairingResponse_transcript qt s0) = Some rpf"
    using ssl_hmac [OF laws(2) kdf(2)] by blast
  obtain sec where sec: "deriveSharedSecret ol a (ol_public ol b) = Some sec" "deriveSharedSecret ol b (ol_public ol a) = Some sec"
    using ssl_secret [OF laws(2) lens(1,2)] by blast
  let ?r = "sent_request qt ol eA (pe_deviceId eB) ipA a pf" and ?s = "sent_response qt ol eB r0 ipB b rpf"
  have tr: "PairingRequest_transcript qt ?r = PairingRequest_transcript qt r0"
    "PairingResponse_transcript qt ?s = PairingResponse_transcript qt s0"
    "sent_response qt ol eB ?r ipB b x = sent_response qt ol eB r0 ipB b x" for x
    by (simp_all add: names PairingRequest_transcript_def PairingResponse_transcript_def sent_response_def)
  have r0: "pr_sessionId r0 = pe_uuid eA" "pr_senderDeviceId r0 = pe_deviceId eA"
      "pr_saltBase64 r0 = to_base64 qt (pe_random eA 16)"
    by (simp_all add: names)
  obtain pA1 evA where i: "initiatePairing qt ol eA (pe_deviceId eB) pw ipA pA = (pA1, Some ?r, evA)"
      and pA1: "pg_state pA1 = AwaitingResponse" "pg_sessionId pA1 = pe_uuid eA" "pg_peerDeviceId pA1 = pe_deviceId eB"
        "pg_privateKey pA1 = a"
        "pg_cache pA1 = registerSession (pe_uuid eA) (ol_sha256 ol (PairingRequest_transcript qt r0)) (pe_now eA) (pg_cache pA)"
    using initiate_sends [OF lens(4,5) envs(4) keys(1) lens(3) kdf(1), of ipA pf pA] pf unfolding tr names(1) [symmetric] by auto
  have clockB: "isTimestampValid (pe_now eB) (pe_now eA) (pe_now eB)"
    using near_valid [OF lens(7)] clocks(1) by (simp add: REPLAY_WINDOW_SECONDS_def)
  obtain pB1 evB where q: "handleIncomingRequest qt ol eB ?r pw ipB pB = (pB1, Some ?s, evB)"
    using request_accepts [of ?r eB ol qt pB pw kdf b sec ipB rpf] clockB lens pubs kdf pf rpf sec keys new(1) ssl_sha [OF laws(2)]
    by (auto simp: b64 tr names(2) [symmetric])
  have resB: "pg_state pB1 = Paired" "pg_result pB1 = Some \<lparr>rs_peerDeviceId = pe_deviceId eA,
      rs_peerPublicKeyBase64 = to_base64 qt (ol_public ol a),
      rs_peerVirtualIp = (if ipA = [] then pe_virtualIp eA else ipA), rs_sharedSecret = sec\<rparr>"
    using request_accepted [OF q] keys(2) sec(2) by (auto simp: b64)
  have clockC: "isTimestampValid (pe_now eC) (pe_now eB) (pe_now eC)"
    using near_valid [OF lens(8)] clocks(2) by (simp add: REPLAY_WINDOW_SECONDS_def)
  have newC: "unseen (pe_now eC) (pe_uuid eA @ qs ''_resp'') (ol_sha256 ol (PairingResponse_transcript qt s0)) (pg_cache pA1)"
    unfolding pA1 by (rule unseen_register [OF new(2)]) (use new(3) in auto)
  obtain pA2 evC where s: "handleIncomingResponse qt ol eC ?s pw pA1 = (pA2, Some (), evC)" and resA: "pg_state pA2 = Paired"
      "pg_result pA2 = Some \<lparr>rs_peerDeviceId = pe_deviceId eB, rs_peerPublicKeyBase64 = to_base64 qt (ol_public ol b),
         rs_peerVirtualIp = (if ipB = [] then pe_virtualIp eB else ipB), rs_sharedSecret = sec\<rparr>"
    using response_accepts [of pA1 ?s eC ol qt pw kdf sec] pA1 clockC newC pubs lens kdf rpf sec envs(3) ssl_sha [OF laws(2)]
    by (auto simp: b64 tr r0)
  show ?thesis using i q s resA resB by blast
qed


section \<open>What acceptance and refusal mean\<close>

text \<open>
  C9: A pairing request is answered only if it is addressed to this device, its time stamp
  is within five minutes and its proof is the HMAC of its transcript under the password key;
  the answer is proved with the same key. Otherwise the session is failed, with an error and
  no result.
\<close>

theorem accepted_request_authentic:
  "(case handleIncomingRequest qt ol e r pw ip p of (p', answer, ev) \<Rightarrow>
     (case answer of
        Some s \<Rightarrow> pr_receiverDeviceId r = pe_deviceId e \<and> 0 < pr_timestamp r \<and> \<bar>pe_now e - pr_timestamp r\<bar> \<le> 300
          \<and> (\<exists>key proof. pairing_key qt ol pw (from_base64 qt (pr_saltBase64 r)) = Some key
               \<and> computeHmacSha256 ol key (PairingRequest_transcript qt r) = Some (from_base64 qt (pr_authProofBase64 r))
               \<and> computeHmacSha256 ol key (PairingResponse_transcript qt s) = Some proof \<and> ps_authProofBase64 s = to_base64 qt proof)
          \<and> ps_receiverDeviceId s = pr_senderDeviceId r \<and> ps_senderDeviceId s = pe_deviceId e
          \<and> pg_state p' = Paired \<and> map_option rs_peerDeviceId (pg_result p') = Some (pr_senderDeviceId r)
      | None \<Rightarrow> pg_state p' = PairFailed \<and> pg_lastError p' \<noteq> ErrNone \<and> pg_result p' = None))"
proof -
  obtain p' answer ev where h: "handleIncomingRequest qt ol e r pw ip p = (p', answer, ev)" by (metis prod.exhaust)
  show ?thesis
  proof (cases answer)
    case (Some s)
    then have h': "handleIncomingRequest qt ol e r pw ip p = (p', Some s, ev)" using h by simp
    show ?thesis using request_accepted [OF h'] unfolding h Some
      by (auto simp: isTimestampValid_def effective_now_def REPLAY_WINDOW_SECONDS_def split: if_splits)
  next
    case None
    have "pg_state p' = PairFailed \<and> pg_lastError p' \<noteq> ErrNone \<and> pg_result p' = None"
      using h unfolding None
      by (auto simp: handleIncomingRequest_def Let_def fail_with_def setFailed_def
          dest!: setState_eqD reset_eqD split: prod.splits if_splits option.splits)
    then show ?thesis using h None by simp
  qed
qed

lemma prune_prune [simp]: "pruneExpired c d (pruneExpired c d seen) = pruneExpired c d seen"
  by (simp add: pruneExpired_def qm_retain_def)

lemma isReplayed_pruned [simp]: "isReplayed c i h t d (pruneExpired c d seen) = isReplayed c i h t d seen"
  by (simp add: isReplayed_def)

lemma same_answer:
  assumes "handleIncomingRequest qt ol e r pw ip p = (p1, Some s, ev)"
    and "pg_cache p2 = pg_cache p \<or> pg_cache p2 = pruneExpired (pe_now e) (pe_now e) (pg_cache p)"
  shows "\<exists>p3 ev3. handleIncomingRequest qt ol e r pw ip p2 = (p3, Some s, ev3)"
proof -
  let ?now = "pe_now e" and ?h = "ol_sha256 ol (PairingRequest_transcript qt r)"
  have same: "isReplayed ?now (pr_sessionId r) ?h (pr_timestamp r) ?now (pg_cache p2)
      = isReplayed ?now (pr_sessionId r) ?h (pr_timestamp r) ?now (pg_cache p)"
    using assms(2) by auto
  show ?thesis
    using assms(1) by (auto simp: handleIncomingRequest_def Let_def case_prod_beta same split: if_splits option.splits)
qed

text \<open>
  C31: A request handled with a password that yields another proof fails with AuthFailed and
  no result, and does not use the request up: with the right password it is then answered as
  it would have been.
\<close>

theorem wrong_password_retry:
  assumes "handleIncomingRequest qt ol e r pw ip p = (p1, Some s, ev)"
    and "pairing_key qt ol wrong (from_base64 qt (pr_saltBase64 r)) = Some k"
    and "computeHmacSha256 ol k (PairingRequest_transcript qt r) = Some h" and "h \<noteq> from_base64 qt (pr_authProofBase64 r)"
  shows "\<exists>p2 ev2 p3 ev3. handleIncomingRequest qt ol e r wrong ip p = (p2, None, ev2)
    \<and> pg_state p2 = PairFailed \<and> pg_lastError p2 = AuthFailed \<and> pg_result p2 = None
    \<and> handleIncomingRequest qt ol e r pw ip p2 = (p3, Some s, ev3)"
proof -
  have "\<exists>p2 ev2. handleIncomingRequest qt ol e r wrong ip p = (p2, None, ev2)
      \<and> pg_state p2 = PairFailed \<and> pg_lastError p2 = AuthFailed \<and> pg_result p2 = None
      \<and> pg_cache p2 = pruneExpired (pe_now e) (pe_now e) (pg_cache p)"
    using assms
    by (auto simp: handleIncomingRequest_def Let_def fail_with_def setFailed_def verifyHmacConstantTime_def isReplayed_def
        dest!: setState_eqD reset_eqD split: prod.splits if_splits option.splits)
  with same_answer [OF assms(1)] show ?thesis by blast
qed

text \<open>
  C32: The proposed virtual address is not covered by the proof: replacing it in an accepted
  request leaves the request accepted with the same answer, and the paired session takes the
  replaced address.
\<close>

theorem virtual_ip_not_authenticated:
  assumes "handleIncomingRequest qt ol e r pw ip p = (p1, Some s, ev)"
  shows "\<exists>ev'. handleIncomingRequest qt ol e (r\<lparr>pr_proposedVirtualIp := x\<rparr>) pw ip p
    = (p1\<lparr>pg_result := map_option (\<lambda>res. res\<lparr>rs_peerVirtualIp := x\<rparr>) (pg_result p1)\<rparr>, Some s, ev')"
proof -
  have "PairingRequest_transcript qt (r\<lparr>pr_proposedVirtualIp := x\<rparr>) = PairingRequest_transcript qt r"
    by (simp add: PairingRequest_transcript_def)
  then show ?thesis
    using assms
    by (auto simp: handleIncomingRequest_def Let_def case_prod_beta split: if_splits option.splits)
qed

text \<open>A response nobody waits for puts the session into the failed state, the result of an earlier run stays.\<close>

lemma stray_response_fails_session:
  "pg_state p \<noteq> AwaitingResponse \<Longrightarrow> \<exists>p' ev. handleIncomingResponse qt ol e s pw p = (p', None, ev)
    \<and> pg_state p' = PairFailed \<and> pg_result p' = pg_result p"
  by (simp add: handleIncomingResponse_def fail_with_def setFailed_def case_prod_beta)

section \<open>A concrete run\<close>

text \<open>A stand-in for OpenSSL that satisfies \<open>ssl_ok\<close>, and the calls of two devices.\<close>

definition ol0 :: openssl where
  "ol0 = \<lparr>ol_public = (\<lambda>k. k), ol_x25519 = (\<lambda>a b. Some (map2 (+) a b)),
     ol_argon2id = Some (\<lambda>pw salt mem it par n. Some (take n (pw @ salt @ replicate n 0))),
     ol_pbkdf2 = (\<lambda>pw salt it n. None),
     ol_hmac_sha256 = (\<lambda>k m. Some (take 32 (k @ m @ replicate 32 0))), ol_sha256 = (\<lambda>m. 1 # m)\<rparr>"

definition alice :: pair_env where
  "alice = \<lparr>pe_now = 1000, pe_deviceId = qs ''mc_a'', pe_virtualIp = qs ''10.77.0.2'', pe_uuid = qs ''u1'',
     pe_private = Some (replicate 32 7), pe_random = (\<lambda>n. replicate n 3)\<rparr>"

definition bob :: pair_env where
  "bob = \<lparr>pe_now = 1100, pe_deviceId = qs ''mc_b'', pe_virtualIp = qs ''10.77.0.5'', pe_uuid = qs ''u2'',
     pe_private = Some (replicate 32 9), pe_random = (\<lambda>n. replicate n 4)\<rparr>"

lemma ol0_key: "pw \<noteq> [] \<Longrightarrow> 8 \<le> length salt \<Longrightarrow>
    pairing_key qt0 ol0 pw salt = Some (take 32 (to_utf8 qt0 pw @ salt @ replicate 32 0))"
  by (simp add: pairing_key_def deriveArgon2idKey_def ol0_def)

lemma ol0_hmac: "k \<noteq> [] \<Longrightarrow> computeHmacSha256 ol0 k m = Some (take 32 (k @ m @ replicate 32 0))"
  by (simp add: computeHmacSha256_def ol0_def)

lemma ssl_ok_ol0: "ssl_ok qt0 ol0"
proof -
  have comm: "map2 (+) a b = map2 (+) b a" for a b :: bytes
    by (induction a b rule: list_induct2') (simp_all add: add.commute)
  show ?thesis
    unfolding ssl_ok_def using ol0_key by (fastforce simp: ol0_def comm intro: comm)
qed

lemma env_ok_pair: "env_ok alice" "env_ok bob"
  by (simp_all add: env_ok_def alice_def bob_def)

theorem pairing_agreement_witness:
  "\<exists>pA1 r evA pB1 s evB pA2 evC secret.
      initiatePairing qt0 ol0 alice (qs ''mc_b'') (qs ''pw'') [] pairing_init = (pA1, Some r, evA)
    \<and> handleIncomingRequest qt0 ol0 bob r (qs ''pw'') [] pairing_init = (pB1, Some s, evB)
    \<and> handleIncomingResponse qt0 ol0 (alice\<lparr>pe_now := 1200\<rparr>) s (qs ''pw'') pA1 = (pA2, Some (), evC)
    \<and> pg_state pA2 = Paired \<and> pg_state pB1 = Paired
    \<and> map_option rs_sharedSecret (pg_result pA2) = Some secret \<and> map_option rs_sharedSecret (pg_result pB1) = Some secret"
proof -
  let ?r0 = "sent_request qt0 ol0 alice (pe_deviceId bob) [] (replicate 32 7) []"
  let ?s0 = "sent_response qt0 ol0 bob ?r0 [] (replicate 32 9) []"
  have a: "to_utf8 qt0 (qs t) = map ucast (qs t)" if "q_ascii (qs t)" for t
    using utf8_ascii_qt0 that by (simp add: utf8_ascii_def)
  have "ol_sha256 ol0 (PairingResponse_transcript qt0 ?s0) \<noteq> ol_sha256 ol0 (PairingRequest_transcript qt0 ?r0)"
    by (simp add: ol0_def PairingRequest_transcript_def PairingResponse_transcript_def alice_def bob_def a q_ascii_qs)
      (simp add: qs_def)
  then show ?thesis
    using pairing_agreement [OF base64_roundtrip_qt0 ssl_ok_ol0 env_ok_pair, of "alice\<lparr>pe_now := 1200\<rparr>" "qs ''pw''"
        "replicate 32 7" "replicate 32 9" ?r0 "[]" ?s0 "[]" pairing_init pairing_init]
    by (auto simp: alice_def bob_def pairing_init_def)
qed


text \<open>The request of \<open>alice\<close>, and its proof under a password.\<close>

definition alice_key :: "qstring \<Rightarrow> bytes" where
  "alice_key pw = take 32 (to_utf8 qt0 pw @ replicate 16 3 @ replicate 32 0)"

definition alice_proof :: "qstring \<Rightarrow> bytes" where
  "alice_proof pw = take 32 (alice_key pw
     @ PairingRequest_transcript qt0 (sent_request qt0 ol0 alice (qs ''mc_b'') [] (replicate 32 7) []) @ replicate 32 0)"

definition alice_request :: pairing_request where
  "alice_request = sent_request qt0 ol0 alice (qs ''mc_b'') [] (replicate 32 7) (alice_proof (qs ''pw''))"

lemma alice_request_keys:
  "pw \<noteq> [] \<Longrightarrow> pairing_key qt0 ol0 pw (from_base64 qt0 (pr_saltBase64 alice_request)) = Some (alice_key pw)"
  "computeHmacSha256 ol0 (alice_key pw) (PairingRequest_transcript qt0 alice_request) = Some (alice_proof pw)"
  "from_base64 qt0 (pr_authProofBase64 alice_request) = alice_proof (qs ''pw'')"
proof -
  have b64: "from_base64 qt0 (to_base64 qt0 x) = x" for x
    using base64_roundtrip_qt0 by (simp add: base64_roundtrip_def)
  have tr: "PairingRequest_transcript qt0 alice_request
      = PairingRequest_transcript qt0 (sent_request qt0 ol0 alice (qs ''mc_b'') [] (replicate 32 7) [])"
    by (simp add: alice_request_def PairingRequest_transcript_def)
  show "pw \<noteq> [] \<Longrightarrow> pairing_key qt0 ol0 pw (from_base64 qt0 (pr_saltBase64 alice_request)) = Some (alice_key pw)"
    by (simp add: alice_request_def b64 ol0_key alice_key_def) (simp add: alice_def ol0_key)
  have "alice_key pw \<noteq> []" by (simp add: alice_key_def)
  then show "computeHmacSha256 ol0 (alice_key pw) (PairingRequest_transcript qt0 alice_request) = Some (alice_proof pw)"
    by (simp add: ol0_hmac tr alice_proof_def)
  show "from_base64 qt0 (pr_authProofBase64 alice_request) = alice_proof (qs ''pw'')"
    by (simp add: alice_request_def b64)
qed

lemma alice_accepted:
  "\<exists>p1 s ev. handleIncomingRequest qt0 ol0 bob alice_request (qs ''pw'') [] pairing_init = (p1, Some s, ev)"
proof -
  have b64: "from_base64 qt0 (to_base64 qt0 x) = x" for x
    using base64_roundtrip_qt0 by (simp add: base64_roundtrip_def)
  have ne: "alice_key (qs ''pw'') \<noteq> []" by (simp add: alice_key_def)
  show ?thesis
    using request_accepts [of alice_request bob ol0 qt0 pairing_init "qs ''pw''" "alice_key (qs ''pw'')" "replicate 32 9"
        "replicate 32 16" "[]"] alice_request_keys(1,2) [of "qs ''pw''"] alice_request_keys(3) ol0_hmac [OF ne] ssl_sha [OF ssl_ok_ol0]
      near_valid [of 1000 1100]
    by (simp add: alice_request_def b64 pairing_init_def)
      (auto simp: alice_def bob_def ol0_def deriveSharedSecret_def REPLAY_WINDOW_SECONDS_def numeral_eq_Suc)
qed

theorem request_accepted_once_witness:
  "\<exists>p1 s ev. handleIncomingRequest qt0 ol0 bob alice_request (qs ''pw'') [] pairing_init = (p1, Some s, ev)
    \<and> fst (snd (handleIncomingRequest qt0 ol0 (bob\<lparr>pe_now := 1200\<rparr>) alice_request (qs ''pw'') []
        (pairing_run qt0 ol0 [(bob, ResetPairing)] p1))) = None"
proof -
  obtain p1 s ev where h: "handleIncomingRequest qt0 ol0 bob alice_request (qs ''pw'') [] pairing_init = (p1, Some s, ev)"
    using alice_accepted by blast
  have own: "own_key (pr_sessionId alice_request)"
  proof -
    have "length (pr_sessionId alice_request) < length (j @ qs ''_resp'')" for j
      by (simp add: alice_request_def alice_def)
    then show ?thesis unfolding own_key_def by (metis less_irrefl)
  qed
  have "qm_ok (pg_cache pairing_init)" by (simp add: pairing_init_def)
  from request_accepted_once [OF this h own, of "[(bob, ResetPairing)]" "bob\<lparr>pe_now := 1200\<rparr>" alice_request "qs ''pw''" "[]"] h
  show ?thesis by (auto simp: bob_def)
qed

theorem wrong_password_retry_witness:
  "\<exists>p2 ev2 p3 s ev3. handleIncomingRequest qt0 ol0 bob alice_request (qs ''no'') [] pairing_init = (p2, None, ev2)
    \<and> pg_lastError p2 = AuthFailed
    \<and> handleIncomingRequest qt0 ol0 bob alice_request (qs ''pw'') [] p2 = (p3, Some s, ev3)"
proof -
  obtain p1 s ev where h: "handleIncomingRequest qt0 ol0 bob alice_request (qs ''pw'') [] pairing_init = (p1, Some s, ev)"
    using alice_accepted by blast
  have a: "to_utf8 qt0 (qs t) = map ucast (qs t)" if "q_ascii (qs t)" for t
    using utf8_ascii_qt0 that by (simp add: utf8_ascii_def)
  have "alice_key (qs ''no'') ! 0 \<noteq> alice_key (qs ''pw'') ! 0"
    by (simp add: alice_key_def a q_ascii_qs) (simp add: qs_def)
  moreover have "alice_proof pw ! 0 = alice_key pw ! 0" for pw
    by (simp add: alice_proof_def alice_key_def nth_append)
  ultimately have "alice_proof (qs ''no'') \<noteq> alice_proof (qs ''pw'')" by metis
  then show ?thesis
    using wrong_password_retry [OF h, of "qs ''no''" "alice_key (qs ''no'')" "alice_proof (qs ''no'')"]
    by (auto simp: alice_request_keys)
qed

theorem virtual_ip_not_authenticated_witness:
  "\<exists>p1 s ev p2 ev'. handleIncomingRequest qt0 ol0 bob alice_request (qs ''pw'') [] pairing_init = (p1, Some s, ev)
    \<and> handleIncomingRequest qt0 ol0 bob (alice_request\<lparr>pr_proposedVirtualIp := qs ''10.77.6.6''\<rparr>) (qs ''pw'') [] pairing_init
        = (p2, Some s, ev')"
proof -
  obtain p1 s ev where h: "handleIncomingRequest qt0 ol0 bob alice_request (qs ''pw'') [] pairing_init = (p1, Some s, ev)"
    using alice_accepted by blast
  from virtual_ip_not_authenticated [OF h, of "qs ''10.77.6.6''"] h show ?thesis by blast
qed


end
