(* ===== verification/Handshake.thy ===== *)
theory Handshake
  imports Pairing
begin

text \<open>
  The handshake of src/crypto/pairing_session.cpp over the code of src/crypto/crypto_provider.cpp
  instead of its contract: the same three functions in the state monad of theory Crypto, with the
  calls of \<open>secureCleanse\<close> and the ends of the buffers for keys where the code has them. They compute
  what the functions of theory Pairing say, so what is proved there holds for this code, and
  every key they give back is wiped, but shared secrets are not, nor the key of a PBKDF2
  fallback that failed.
\<close>

section \<open>The code\<close>

text \<open>
  \<open>m_ephemeralKeyPair.clear()\<close>, the wiping of the salt, and the end of an old result. Buffers count as
  given back when the session drops them: copies of the result that other objects hold, and
  the proofs, which are sent anyway, are left out.
\<close>

definition evp_pair_reset :: "pairing \<Rightarrow> ('k crypto_heap, pairing \<times> pairing_event list) state" where
  "evp_pair_reset p = do {
     kp \<leftarrow> KeyPair_clear \<lparr>kp_privateKey = pg_privateKey p, kp_publicKey = pg_publicKey p\<rparr>;
     release (secureCleanse (pg_salt p));
     (case pg_result p of Some r \<Rightarrow> release (rs_sharedSecret r) | None \<Rightarrow> ret ());
     ret (pair_reset (p\<lparr>pg_privateKey := kp_privateKey kp, pg_publicKey := kp_publicKey kp\<rparr>))
   }"

definition evp_pairing_key :: "qt_lib \<Rightarrow> 'k evp_lib \<Rightarrow> qstring \<Rightarrow> bytes \<Rightarrow> ('k crypto_heap, bytes option) state" where
  "evp_pairing_key qt lib password salt = evp_deriveArgon2idKey qt lib password salt 65536 3 1 32"

definition evp_initiatePairing :: "qt_lib \<Rightarrow> 'k evp_lib \<Rightarrow> (bytes \<Rightarrow> bytes) \<Rightarrow> pair_env \<Rightarrow> qstring \<Rightarrow> qstring \<Rightarrow> qstring \<Rightarrow> pairing
    \<Rightarrow> ('k crypto_heap, pairing \<times> pairing_request option \<times> pairing_event list) state" where
  "evp_initiatePairing qt lib sha256 e peerDeviceId password localVirtualIp p = do {
     (p0, ev0) \<leftarrow> evp_pair_reset p;
     case pair_setState PairInitiating p0 of (p1, ev1) \<Rightarrow>
     let ev = ev0 @ ev1 in
     if pe_deviceId e = [] \<or> peerDeviceId = [] \<or> password = [] then ret (fail_with InvalidMessage (p1, ev))
     else do {
       keyPairOpt \<leftarrow> evp_generateX25519KeyPair lib;
       case keyPairOpt of None \<Rightarrow> ret (fail_with CryptoError (p1, ev))
       | Some kp \<Rightarrow>
         let p2 = p1\<lparr>pg_privateKey := kp_privateKey kp, pg_publicKey := kp_publicKey kp,
                     pg_salt := generateSecureRandomBytes lib 16\<rparr> in
         if length (pg_salt p2) \<noteq> 16 then ret (fail_with CryptoError (p2, ev))
         else do {
           kdfKeyOpt \<leftarrow> evp_pairing_key qt lib password (pg_salt p2);
           case kdfKeyOpt of None \<Rightarrow> ret (fail_with CryptoError (p2, ev))
           | Some kdfKey \<Rightarrow>
             let p3 = p2\<lparr>pg_sessionId := pe_uuid e, pg_peerDeviceId := peerDeviceId\<rparr>;
                 req = \<lparr>pr_sessionId = pe_uuid e, pr_senderDeviceId = pe_deviceId e, pr_receiverDeviceId = peerDeviceId,
                    pr_timestamp = pe_now e, pr_saltBase64 = to_base64 qt (pg_salt p3),
                    pr_ephemeralPublicKeyBase64 = to_base64 qt (pg_publicKey p3),
                    pr_proposedVirtualIp = (if localVirtualIp = [] then pe_virtualIp e else localVirtualIp),
                    pr_authProofBase64 = []\<rparr>;
                 transcript = PairingRequest_transcript qt req in
             do {
               proofOpt \<leftarrow> evp_computeHmacSha256 lib kdfKey transcript;
               release (secureCleanse kdfKey);
               case proofOpt of None \<Rightarrow> ret (fail_with CryptoError (p3, ev))
               | Some proof \<Rightarrow> ret
                   (case pair_setState AwaitingResponse
                      (p3\<lparr>pg_cache := registerSession (pr_sessionId req) (sha256 transcript) (pr_timestamp req) (pg_cache p3)\<rparr>)
                    of (p4, ev4) \<Rightarrow> (p4, Some (req\<lparr>pr_authProofBase64 := to_base64 qt proof\<rparr>), ev @ ev4)) } } }
   }"

definition evp_handleIncomingRequest :: "qt_lib \<Rightarrow> 'k evp_lib \<Rightarrow> (bytes \<Rightarrow> bytes) \<Rightarrow> pair_env \<Rightarrow> pairing_request \<Rightarrow> qstring \<Rightarrow> qstring \<Rightarrow> pairing
    \<Rightarrow> ('k crypto_heap, pairing \<times> pairing_response option \<times> pairing_event list) state" where
  "evp_handleIncomingRequest qt lib sha256 e request password localVirtualIp p = do {
     (p0, ev0) \<leftarrow> evp_pair_reset p;
     case pair_setState PairVerifying p0 of (p1, ev1) \<Rightarrow>
     let ev = ev0 @ ev1; now = pe_now e in
     if pr_receiverDeviceId request \<noteq> pe_deviceId e then ret (fail_with InvalidMessage (p1, ev))
     else if \<not> isTimestampValid now (pr_timestamp request) now then ret (fail_with TimestampExpired (p1, ev))
     else
      let transcript = PairingRequest_transcript qt request; transcriptHash = sha256 transcript in
      case isReplayed now (pr_sessionId request) transcriptHash (pr_timestamp request) now (pg_cache p1) of (seen, replayed) \<Rightarrow>
      let p2 = p1\<lparr>pg_cache := seen\<rparr> in
      if replayed then ret (fail_with ReplayDetected (p2, ev))
      else
       let peerPubKey = from_base64 qt (pr_ephemeralPublicKeyBase64 request);
           salt = from_base64 qt (pr_saltBase64 request);
           peerProof = from_base64 qt (pr_authProofBase64 request) in
       if length peerPubKey \<noteq> 32 \<or> length salt < 8 \<or> length peerProof \<noteq> 32 then ret (fail_with InvalidMessage (p2, ev))
       else do {
        kdfKeyOpt \<leftarrow> evp_pairing_key qt lib password salt;
        case kdfKeyOpt of None \<Rightarrow> ret (fail_with CryptoError (p2, ev))
        | Some kdfKey \<Rightarrow> do {
         expectedProofOpt \<leftarrow> evp_computeHmacSha256 lib kdfKey transcript;
         case expectedProofOpt of
           None \<Rightarrow> do { release (secureCleanse kdfKey); ret (fail_with CryptoError (p2, ev)) }
         | Some expectedProof \<Rightarrow>
           if \<not> verifyHmacConstantTime expectedProof peerProof
           then do { release (secureCleanse kdfKey); ret (fail_with AuthFailed (p2, ev)) }
           else
            let p3 = p2\<lparr>pg_cache := registerSession (pr_sessionId request) transcriptHash (pr_timestamp request) (pg_cache p2)\<rparr> in
            do {
             ourKeyPairOpt \<leftarrow> evp_generateX25519KeyPair lib;
             case ourKeyPairOpt of
               None \<Rightarrow> do { release (secureCleanse kdfKey); ret (fail_with CryptoError (p3, ev)) }
             | Some kp \<Rightarrow>
               let p4 = p3\<lparr>pg_privateKey := kp_privateKey kp, pg_publicKey := kp_publicKey kp\<rparr> in
               do {
                sharedSecretOpt \<leftarrow> evp_deriveSharedSecret lib (kp_privateKey kp) peerPubKey;
                case sharedSecretOpt of
                  None \<Rightarrow> do { release (secureCleanse kdfKey); ret (fail_with CryptoError (p4, ev)) }
                | Some sharedSecret \<Rightarrow>
                  let resp = \<lparr>ps_sessionId = pr_sessionId request, ps_senderDeviceId = pe_deviceId e,
                             ps_receiverDeviceId = pr_senderDeviceId request, ps_timestamp = now,
                             ps_saltBase64 = to_base64 qt salt,
                             ps_ephemeralPublicKeyBase64 = to_base64 qt (pg_publicKey p4),
                             ps_proposedVirtualIp = (if localVirtualIp = [] then pe_virtualIp e else localVirtualIp),
                             ps_authProofBase64 = [], ps_status = qs ''accepted'', ps_errorMessage = None\<rparr>;
                      respTranscript = PairingResponse_transcript qt resp in
                  do {
                   respProofOpt \<leftarrow> evp_computeHmacSha256 lib kdfKey respTranscript;
                   release (secureCleanse kdfKey);
                   case respProofOpt of
                     None \<Rightarrow> do { release sharedSecret; ret (fail_with CryptoError (p4, ev)) }
                   | Some respProof \<Rightarrow>
                     let res = \<lparr>rs_peerDeviceId = pr_senderDeviceId request,
                               rs_peerPublicKeyBase64 = pr_ephemeralPublicKeyBase64 request,
                               rs_peerVirtualIp = pr_proposedVirtualIp request, rs_sharedSecret = sharedSecret\<rparr>;
                         p5 = p4\<lparr>pg_cache := registerSession (ps_sessionId resp @ qs ''_resp'') (sha256 respTranscript)
                                   (ps_timestamp resp) (pg_cache p4), pg_result := Some res\<rparr> in
                     ret (case pair_setState Paired p5 of (p6, ev6) \<Rightarrow>
                       (p6, Some (resp\<lparr>ps_authProofBase64 := to_base64 qt respProof\<rparr>), ev @ ev6 @ [PairingSucceeded res])) } } } } }
   }"

definition evp_handleIncomingResponse :: "qt_lib \<Rightarrow> 'k evp_lib \<Rightarrow> (bytes \<Rightarrow> bytes) \<Rightarrow> pair_env \<Rightarrow> pairing_response \<Rightarrow> qstring \<Rightarrow> pairing
    \<Rightarrow> ('k crypto_heap, pairing \<times> unit option \<times> pairing_event list) state" where
  "evp_handleIncomingResponse qt lib sha256 e response password p =
    (if pg_state p \<noteq> AwaitingResponse then ret (fail_with InvalidMessage (p, []))
     else case pair_setState PairVerifying p of (p1, ev) \<Rightarrow>
     let now = pe_now e in
     if ps_sessionId response \<noteq> pg_sessionId p1 then ret (fail_with InvalidMessage (p1, ev))
     else if ps_receiverDeviceId response \<noteq> pe_deviceId e \<or> ps_senderDeviceId response \<noteq> pg_peerDeviceId p1
     then ret (fail_with InvalidMessage (p1, ev))
     else if ps_status response \<noteq> qs ''accepted'' then ret (fail_with AuthFailed (p1, ev))
     else if \<not> isTimestampValid now (ps_timestamp response) now then ret (fail_with TimestampExpired (p1, ev))
     else
      let respTranscript = PairingResponse_transcript qt response; respHash = sha256 respTranscript in
      case isReplayed now (ps_sessionId response @ qs ''_resp'') respHash (ps_timestamp response) now (pg_cache p1)
      of (seen, replayed) \<Rightarrow>
      let p2 = p1\<lparr>pg_cache := seen\<rparr> in
      if replayed then ret (fail_with ReplayDetected (p2, ev))
      else
       let peerPubKey = from_base64 qt (ps_ephemeralPublicKeyBase64 response);
           salt = from_base64 qt (ps_saltBase64 response);
           peerProof = from_base64 qt (ps_authProofBase64 response) in
       if length peerPubKey \<noteq> 32 \<or> length salt < 8 \<or> length peerProof \<noteq> 32 then ret (fail_with InvalidMessage (p2, ev))
       else do {
        kdfKeyOpt \<leftarrow> evp_pairing_key qt lib password salt;
        case kdfKeyOpt of None \<Rightarrow> ret (fail_with CryptoError (p2, ev))
        | Some kdfKey \<Rightarrow> do {
         expectedProofOpt \<leftarrow> evp_computeHmacSha256 lib kdfKey respTranscript;
         release (secureCleanse kdfKey);
         case expectedProofOpt of None \<Rightarrow> ret (fail_with CryptoError (p2, ev))
         | Some expectedProof \<Rightarrow>
           if \<not> verifyHmacConstantTime expectedProof peerProof then ret (fail_with AuthFailed (p2, ev))
           else do {
             sharedSecretOpt \<leftarrow> evp_deriveSharedSecret lib (pg_privateKey p2) peerPubKey;
             case sharedSecretOpt of None \<Rightarrow> ret (fail_with CryptoError (p2, ev))
             | Some sharedSecret \<Rightarrow>
               let res = \<lparr>rs_peerDeviceId = ps_senderDeviceId response,
                         rs_peerPublicKeyBase64 = ps_ephemeralPublicKeyBase64 response,
                         rs_peerVirtualIp = ps_proposedVirtualIp response, rs_sharedSecret = sharedSecret\<rparr>;
                   p3 = p2\<lparr>pg_cache := registerSession (ps_sessionId response @ qs ''_resp'') respHash
                             (ps_timestamp response) (pg_cache p2), pg_result := Some res\<rparr> in
               ret (case pair_setState Paired p3 of (p4, ev4) \<Rightarrow> (p4, Some (), ev @ ev4 @ [PairingSucceeded res])) } } })"

section \<open>Running two programs side by side\<close>

text \<open>
  \<open>m\<close> returns \<open>a\<close>, leaves every object as it found it and gives back only buffers that satisfy \<open>P\<close>.
  The rules follow the structure the code and its model share.
\<close>

definition runs_to :: "(bytes \<Rightarrow> bool) \<Rightarrow> ('k crypto_heap, 'a) state \<Rightarrow> 'a \<Rightarrow> bool" where
  "runs_to P m a \<longleftrightarrow> (\<forall>h. heap_ok h \<longrightarrow> (case run_state m h of (a', h') \<Rightarrow>
     a' = a \<and> heap_ok h' \<and> ch_objects h' = ch_objects h \<and> ch_faults h' = ch_faults h
     \<and> (\<exists>given. ch_released h' = ch_released h @ given \<and> list_all P given)))"

lemma runs_ret: "runs_to P (ret a) a"
  by (simp add: runs_to_def)

lemma runs_release: "P data \<Longrightarrow> runs_to P (release data) ()"
  by (simp add: runs_to_def)

lemma runs_bind:
  assumes m: "runs_to P m a" and f: "runs_to P (f a) b"
  shows "runs_to P (State_Monad.bind m f) b"
  unfolding runs_to_def
proof (intro allI impI)
  fix h :: "'a crypto_heap"
  assume ok: "heap_ok h"
  obtain a' h' where 1: "run_state m h = (a', h')" by fastforce
  with m ok obtain g where r1: "a' = a" "heap_ok h'" "ch_objects h' = ch_objects h" "ch_faults h' = ch_faults h"
    "ch_released h' = ch_released h @ g" "list_all P g" by (auto simp: runs_to_def)
  obtain b' h'' where 2: "run_state (f a) h' = (b', h'')" by fastforce
  with f r1(2) obtain g' where r2: "b' = b" "heap_ok h''" "ch_objects h'' = ch_objects h'" "ch_faults h'' = ch_faults h'"
    "ch_released h'' = ch_released h' @ g'" "list_all P g'" by (auto simp: runs_to_def)
  show "case run_state (State_Monad.bind m f) h of (c, h1) \<Rightarrow> c = b \<and> heap_ok h1 \<and> ch_objects h1 = ch_objects h
      \<and> ch_faults h1 = ch_faults h \<and> (\<exists>given. ch_released h1 = ch_released h @ given \<and> list_all P given)"
    using 1 2 r1 r2 by (auto intro!: exI [of _ "g @ g'"])
qed

lemma runs_if: "(c \<Longrightarrow> runs_to P m a) \<Longrightarrow> (\<not> c \<Longrightarrow> runs_to P n b) \<Longrightarrow> runs_to P (if c then m else n) (if c then a else b)"
  by simp

lemma runs_option:
  "(x = None \<Longrightarrow> runs_to P m a) \<Longrightarrow> (\<And>y. x = Some y \<Longrightarrow> runs_to P (f y) (g y)) \<Longrightarrow>
    runs_to P (case x of None \<Rightarrow> m | Some y \<Rightarrow> f y) (case x of None \<Rightarrow> a | Some y \<Rightarrow> g y)"
  by (cases x) simp_all

lemma runs_pair: "(\<And>a b. x = (a, b) \<Longrightarrow> runs_to P (f a b) (g a b)) \<Longrightarrow>
    runs_to P (case x of (a, b) \<Rightarrow> f a b) (case x of (a, b) \<Rightarrow> g a b)"
  by (cases x) simp

text \<open>A contract turned into a rule.\<close>

lemma runs_tidy:
  assumes "\<And>h :: 'k crypto_heap. heap_ok h \<Longrightarrow> tidy_run m a clean h" and "clean" and "\<And>b. wiped b \<Longrightarrow> P b"
  shows "runs_to P m a"
  unfolding runs_to_def
proof (intro allI impI)
  fix h :: "'k crypto_heap"
  assume "heap_ok h"
  from assms(1) [OF this] show "case run_state m h of (a', h') \<Rightarrow> a' = a \<and> heap_ok h' \<and> ch_objects h' = ch_objects h
      \<and> ch_faults h' = ch_faults h \<and> (\<exists>given. ch_released h' = ch_released h @ given \<and> list_all P given)"
    using assms(2,3) by (auto simp: tidy_run_def list_all_iff)
qed

text \<open>What the environment of the model is for a library, and the contract with the public key of its key pair.\<close>

definition evp_env :: "'k evp_lib \<Rightarrow> pair_env \<Rightarrow> pair_env" where
  "evp_env lib e = e\<lparr>pe_private := map_option kp_privateKey (x25519_pair lib), pe_random := generateSecureRandomBytes lib\<rparr>"

definition evp_openssl :: "'k evp_lib \<Rightarrow> (bytes \<Rightarrow> bytes) \<Rightarrow> openssl" where
  "evp_openssl lib sha256 = openssl_of lib (\<lambda>_. kp_publicKey (the (x25519_pair lib))) sha256"

lemma evp_env_simps [simp]:
  "pe_now (evp_env lib e) = pe_now e" "pe_deviceId (evp_env lib e) = pe_deviceId e" "pe_virtualIp (evp_env lib e) = pe_virtualIp e"
  "pe_uuid (evp_env lib e) = pe_uuid e" "pe_private (evp_env lib e) = map_option kp_privateKey (x25519_pair lib)"
  "pe_random (evp_env lib e) = generateSecureRandomBytes lib"
  by (simp_all add: evp_env_def)

lemma evp_openssl_simps [simp]:
  "ol_sha256 (evp_openssl lib sha256) = sha256" "ol_public (evp_openssl lib sha256) priv = kp_publicKey (the (x25519_pair lib))"
  by (simp_all add: evp_openssl_def openssl_of_def)

text \<open>
  What may be given back unwiped: the shared secret of the result a session had, the one the call
  derives from \<open>priv\<close> and \<open>peer\<close>, and the key of a PBKDF2 fallback that failed.
\<close>

definition may_stay :: "'k evp_lib \<Rightarrow> pairing \<Rightarrow> bytes \<Rightarrow> bytes \<Rightarrow> bytes \<Rightarrow> bool" where
  "may_stay lib p priv peer b \<longleftrightarrow> wiped b
    \<or> (\<exists>r. pg_result p = Some r \<and> b = rs_sharedSecret r)
    \<or> deriveSharedSecret (evp_openssl lib id) priv peer = Some b
    \<or> (\<exists>pw salt r out. \<not> ev_argon2id lib \<and> ev_pbkdf2 lib pw salt (pbkdf2_rounds 3) 32 = (r, out) \<and> r \<noteq> 1 \<and> b = fill 32 out)"

lemma may_stay_wiped: "wiped b \<Longrightarrow> may_stay lib p k q b"
  by (simp add: may_stay_def)

lemma runs_wipe: "runs_to (may_stay lib p k q) (release (secureCleanse b)) ()"
  by (rule runs_release) (simp add: may_stay_def)

lemma runs_clear: "runs_to (may_stay lib p k q) (KeyPair_clear kp) \<lparr>kp_privateKey = [], kp_publicKey = []\<rparr>"
  by (cases kp) (auto simp: KeyPair_clear_def intro: runs_ret runs_bind [OF runs_wipe])

lemma runs_reset: "runs_to (may_stay lib p k q) (evp_pair_reset p) (pair_reset p)"
proof -
  have r: "runs_to (may_stay lib p k q) (case pg_result p of Some r \<Rightarrow> release (rs_sharedSecret r) | None \<Rightarrow> ret ()) ()"
    by (cases "pg_result p") (auto simp: may_stay_def intro!: runs_ret runs_release)
  have "pair_reset (p\<lparr>pg_privateKey := [], pg_publicKey := []\<rparr>) = pair_reset p"
    by (simp add: pair_reset_def)
  then have e: "runs_to (may_stay lib p k q) (ret (pair_reset (p\<lparr>pg_privateKey := [], pg_publicKey := []\<rparr>))) (pair_reset p)"
    using runs_ret [of _ "pair_reset p"] by simp
  show ?thesis
    unfolding evp_pair_reset_def
    by (rule runs_bind [OF runs_clear], rule runs_bind [OF runs_wipe], rule runs_bind [OF r]) (simp add: e)
qed

lemma runs_keypair: "runs_to (may_stay lib p k q) (evp_generateX25519KeyPair lib) (x25519_pair lib)"
  by (rule runs_tidy [OF tidy_keypair TrueI may_stay_wiped])

lemma runs_hmac: "runs_to (may_stay lib p k q) (evp_computeHmacSha256 lib key msg) (computeHmacSha256 (evp_openssl lib sha256) key msg)"
  unfolding evp_openssl_def by (rule runs_tidy [OF tidy_hmac TrueI may_stay_wiped])

lemma runs_shared: "runs_to (may_stay lib p k q) (evp_deriveSharedSecret lib a b) (deriveSharedSecret (evp_openssl lib sha256) a b)"
  unfolding evp_openssl_def by (rule runs_tidy [OF tidy_shared TrueI may_stay_wiped])

lemma tidy_key:
  "heap_ok h \<Longrightarrow> tidy_run (evp_deriveArgon2idKey qt lib pw salt m i t n) (deriveArgon2idKey qt (evp_openssl lib sha256) pw salt m i t n)
    (ev_argon2id lib \<or> fst (ev_pbkdf2 lib (to_utf8 qt pw) salt (pbkdf2_rounds i) n) = 1) h"
  unfolding evp_openssl_def by (rule tidy_argon2id)

lemma runs_key: "runs_to (may_stay lib p k q) (evp_pairing_key qt lib pw salt) (pairing_key qt (evp_openssl lib sha256) pw salt)"
proof (cases "ev_argon2id lib \<or> fst (ev_pbkdf2 lib (to_utf8 qt pw) salt (pbkdf2_rounds 3) 32) = 1")
  case True
  show ?thesis unfolding evp_pairing_key_def pairing_key_def
    by (rule runs_tidy [OF tidy_key True may_stay_wiped])
next
  case False
  obtain r out where r: "ev_pbkdf2 lib (to_utf8 qt pw) salt (pbkdf2_rounds 3) 32 = (r, out)" by fastforce
  show ?thesis unfolding evp_pairing_key_def pairing_key_def runs_to_def
  proof (intro allI impI)
    fix h :: "'a crypto_heap"
    let ?m = "evp_deriveArgon2idKey qt lib pw salt 65536 3 1 32"
    assume "heap_ok h"
    from tidy_key [OF this, of qt lib pw salt 65536 3 1 32 sha256]
    obtain h' given where t: "run_state ?m h = (deriveArgon2idKey qt (evp_openssl lib sha256) pw salt 65536 3 1 32, h')"
      "heap_ok h'" "ch_objects h' = ch_objects h" "ch_faults h' = ch_faults h" "ch_released h' = ch_released h @ given"
      by (auto simp: tidy_run_def split: prod.splits)
    have "given = given_back ?m h" using t(1,5) by (simp add: given_back_def)
    also have "\<dots> = (if pw = [] \<or> length salt < 8 then [] else [secureCleanse (to_utf8 qt pw), fill 32 out])"
      using fallback_failure [OF _ r, where m = 65536 and p = 1 and h = h] False r
      by (auto simp: given_back_def evp_deriveArgon2idKey_def)
    finally have g: "given = (if pw = [] \<or> length salt < 8 then [] else [secureCleanse (to_utf8 qt pw), fill 32 out])" .
    have "\<exists>pw salt r o'. \<not> ev_argon2id lib \<and> ev_pbkdf2 lib pw salt (pbkdf2_rounds 3) 32 = (r, o') \<and> r \<noteq> 1 \<and> fill 32 out = fill 32 o'"
      using False r by (intro exI [of _ "to_utf8 qt pw"] exI [of _ salt] exI [of _ r] exI [of _ out]) simp
    then have "may_stay lib p k q (fill 32 out)" unfolding may_stay_def by (intro disjI2)
    then have "list_all (may_stay lib p k q) given" unfolding g by (simp add: may_stay_wiped)
    with t show "case run_state ?m h of (a', h') \<Rightarrow> a' = deriveArgon2idKey qt (evp_openssl lib sha256) pw salt 65536 3 1 32 \<and> heap_ok h'
        \<and> ch_objects h' = ch_objects h \<and> ch_faults h' = ch_faults h
        \<and> (\<exists>given. ch_released h' = ch_released h @ given \<and> list_all (may_stay lib p k q) given)"
      by auto
  qed
qed


section \<open>The handshake\<close>

lemma runs_seq: "runs_to P m a \<Longrightarrow> runs_to P n b \<Longrightarrow> runs_to P (do { m; n }) b"
  by (rule runs_bind)

text \<open>A fresh key pair: the model takes the private key from its environment and asks for the public one.\<close>

lemma runs_fresh_keys:
  assumes "runs_to (may_stay lib p k q) m a"
    and "\<And>kp. x25519_pair lib = Some kp \<Longrightarrow> runs_to (may_stay lib p k q) (f kp) (g (kp_privateKey kp) (kp_publicKey kp))"
  shows "runs_to (may_stay lib p k q) (do { new \<leftarrow> evp_generateX25519KeyPair lib; case new of None \<Rightarrow> m | Some kp \<Rightarrow> f kp })
    (case map_option kp_privateKey (x25519_pair lib) of None \<Rightarrow> a | Some priv \<Rightarrow> g priv (kp_publicKey (the (x25519_pair lib))))"
  by (rule runs_bind [OF runs_keypair]) (cases "x25519_pair lib"; simp add: assms)

lemmas handshake_steps =
  runs_bind [OF runs_reset] runs_bind [OF runs_key] runs_bind [OF runs_hmac] runs_bind [OF runs_shared] runs_seq [OF runs_wipe]
  runs_fresh_keys runs_pair runs_if runs_option runs_ret

lemma runs_initiate:
  "runs_to (may_stay lib p k q) (evp_initiatePairing qt lib sha256 e peer pw ip p)
    (initiatePairing qt (evp_openssl lib sha256) (evp_env lib e) peer pw ip p)"
  unfolding evp_initiatePairing_def initiatePairing_def Let_def evp_env_simps evp_openssl_simps
  by (rule handshake_steps)+

text \<open>The secret of a request is the one of the fresh private key and the public key in the request.\<close>

lemma runs_unwiped:
  assumes "deriveSharedSecret (evp_openssl lib sha256) k q = Some sharedSecret" and "runs_to (may_stay lib p k q) m a"
  shows "runs_to (may_stay lib p k q) (do { release sharedSecret; m }) a"
proof (rule runs_seq [OF runs_release assms(2)])
  have "deriveSharedSecret (evp_openssl lib id) k q = deriveSharedSecret (evp_openssl lib sha256) k q"
    by (simp add: deriveSharedSecret_def evp_openssl_def openssl_of_def)
  with assms(1) show "may_stay lib p k q sharedSecret" by (simp add: may_stay_def)
qed

lemma runs_request:
  assumes "k = (case x25519_pair lib of Some kp \<Rightarrow> kp_privateKey kp | None \<Rightarrow> [])" and "q = from_base64 qt (pr_ephemeralPublicKeyBase64 r)"
  shows "runs_to (may_stay lib p k q) (evp_handleIncomingRequest qt lib sha256 e r pw ip p)
    (handleIncomingRequest qt (evp_openssl lib sha256) (evp_env lib e) r pw ip p)"
  unfolding evp_handleIncomingRequest_def handleIncomingRequest_def Let_def evp_env_simps evp_openssl_simps
  apply (rule handshake_steps)+
   apply (rule runs_unwiped [OF _ runs_ret], simp add: assms)
  apply (rule runs_ret)
  done

lemma runs_response:
  "runs_to (may_stay lib p k q) (evp_handleIncomingResponse qt lib sha256 e r pw p)
    (handleIncomingResponse qt (evp_openssl lib sha256) (evp_env lib e) r pw p)"
  unfolding evp_handleIncomingResponse_def handleIncomingResponse_def Let_def evp_env_simps evp_openssl_simps
  by (rule handshake_steps)+

section \<open>Results\<close>

definition performs :: "(bytes \<Rightarrow> bool) \<Rightarrow> ('k crypto_heap, 'a) state \<Rightarrow> 'a \<Rightarrow> 'k crypto_heap \<Rightarrow> bool" where
  "performs P m a h \<longleftrightarrow> fst (run_state m h) = a \<and> leaves_tidy m h \<and> list_all P (given_back m h)"

lemma runs_performs: "runs_to P m a \<Longrightarrow> heap_ok h \<Longrightarrow> performs P m a h"
  unfolding runs_to_def performs_def leaves_tidy_def given_back_def by (cases "run_state m h") fastforce

definition fresh_private :: "'k evp_lib \<Rightarrow> bytes" where
  "fresh_private lib = (case x25519_pair lib of Some kp \<Rightarrow> kp_privateKey kp | None \<Rightarrow> [])"

text \<open>\<open>reset()\<close> drops the shared secret of a paired session as it is.\<close>

lemma reset_drops_secret:
  assumes "pg_result p = Some r"
  shows "rs_sharedSecret r \<in> set (given_back (evp_pair_reset p) h)"
  using assms by (simp add: given_back_def evp_pair_reset_def KeyPair_clear_def)

text \<open>
  C24: The three steps of the handshake over the code of the crypto provider, on any heap of
  OpenSSL objects and whatever OpenSSL answers, return what the model over the contract
  returns, free every object, and wipe every buffer for keys they give back, but for shared
  secrets (of the old result, or when the proof of the answer fails) and the key of a failed
  PBKDF2 fallback.
\<close>

theorem handshake_code_refines_model:
  assumes "heap_ok h"
  shows "performs (may_stay lib p [] []) (evp_initiatePairing qt lib sha256 e peer pw ip p)
      (initiatePairing qt (evp_openssl lib sha256) (evp_env lib e) peer pw ip p) h
    \<and> performs (may_stay lib p (fresh_private lib) (from_base64 qt (pr_ephemeralPublicKeyBase64 req)))
      (evp_handleIncomingRequest qt lib sha256 e req pw ip p)
      (handleIncomingRequest qt (evp_openssl lib sha256) (evp_env lib e) req pw ip p) h
    \<and> performs (may_stay lib p [] []) (evp_handleIncomingResponse qt lib sha256 e resp pw p)
      (handleIncomingResponse qt (evp_openssl lib sha256) (evp_env lib e) resp pw p) h"
  by (intro conjI runs_performs [OF _ assms] runs_initiate runs_response runs_request [OF fresh_private_def refl])

text \<open>A second pairing without a password: the old secret is given back as it was.\<close>

definition paired0 :: pairing where
  "paired0 = pairing_init\<lparr>pg_state := Paired, pg_privateKey := [4, 2], pg_result := Some \<lparr>rs_peerDeviceId = [], rs_peerPublicKeyBase64 = [],
     rs_peerVirtualIp = [], rs_sharedSecret = [7, 9]\<rparr>\<rparr>"

definition env0 :: pair_env where
  "env0 = \<lparr>pe_now = 1, pe_deviceId = qs ''me'', pe_virtualIp = [], pe_uuid = qs ''id'', pe_private = None, pe_random = (\<lambda>_. [])\<rparr>"

theorem handshake_code_refines_model_witness:
  "performs (may_stay evp0 paired0 [] []) (evp_initiatePairing qt0 evp0 id env0 (qs ''peer'') [] [] paired0)
      (initiatePairing qt0 (evp_openssl evp0 id) (evp_env evp0 env0) (qs ''peer'') [] [] paired0) crypto_start
    \<and> given_back (evp_initiatePairing qt0 evp0 id env0 (qs ''peer'') [] [] paired0) crypto_start = [[0, 0], [], [7, 9]]"
proof
  show "performs (may_stay evp0 paired0 [] []) (evp_initiatePairing qt0 evp0 id env0 (qs ''peer'') [] [] paired0)
      (initiatePairing qt0 (evp_openssl evp0 id) (evp_env evp0 env0) (qs ''peer'') [] [] paired0) crypto_start"
    by (rule handshake_code_refines_model [OF start_ok, THEN conjunct1])
  show "given_back (evp_initiatePairing qt0 evp0 id env0 (qs ''peer'') [] [] paired0) crypto_start = [[0, 0], [], [7, 9]]"
    by (simp add: given_back_def evp_initiatePairing_def evp_pair_reset_def KeyPair_clear_def paired0_def pairing_init_def
      secureCleanse_def pair_reset_def pair_setState_def crypto_start_def numeral_2_eq_2)
qed

end
