(* ===== verification/Netlink.thy ===== *)
theory Netlink
  imports Messages
begin

text \<open>
  src/network/netlink_wireguard.cpp: the address and key checks, the assembly of netlink
  messages with nested attributes, the parsing of the kernel's replies, and the calls that
  configure an interface and its WireGuard device. The kernel is a parameter: the record
  \<open>kernel\<close> says what \<open>if_nametoindex\<close>, \<open>socket\<close> and a request with its answer give in a
  kernel state \<open>'k\<close> of any type, which the calls thread through. Structures are laid out in
  memory as on the little-endian machines the program runs on.
\<close>

section \<open>Checks\<close>

text \<open>
  A prefix length is 1 to 32: with 0 the source shifts a 32-bit value by 32 bits, which C++ leaves
  undefined. The program only uses the default of 16.
\<close>

definition isSubnetValid :: "qt_lib \<Rightarrow> qstring \<Rightarrow> qstring \<Rightarrow> nat \<Rightarrow> bool" where
  "isSubnetValid qt ip expectedSubnet prefixLen =
    (case host_parse qt ip of
       IPv4Addr ipVal \<Rightarrow>
        (if host_parse qt expectedSubnet = NullAddr then False
         else
          let mask = push_bit (32 - prefixLen) 0xFFFFFFFF :: u32;
              subVal = (case host_parse qt expectedSubnet of IPv4Addr a \<Rightarrow> a | _ \<Rightarrow> 0) in
          if ipVal AND mask \<noteq> subVal AND mask then False
          else let hostPart = ipVal AND NOT mask in
            if hostPart = 0 \<or> hostPart = NOT mask then False else True)
     | _ \<Rightarrow> False)"

text \<open>The call with the default arguments of the declaration.\<close>

definition tunnel_ip_valid :: "qt_lib \<Rightarrow> qstring \<Rightarrow> bool" where
  "tunnel_ip_valid qt ip = isSubnetValid qt ip (qs ''10.77.0.0'') 16"

definition isValidBase64Key :: "qt_lib \<Rightarrow> qstring \<Rightarrow> bool" where
  "isValidBase64Key qt keyBase64 =
    (if q_trimmed keyBase64 = [] then False else length (from_base64 qt (q_trimmed keyBase64)) = 32)"

definition parseEndpoint :: "qt_lib \<Rightarrow> qstring \<Rightarrow> (host_addr \<times> u16) option" where
  "parseEndpoint qt endpointStr =
    (let str = q_trimmed endpointStr in
     case q_lastIndexOf 0x3A str of
       None \<Rightarrow> None
     | Some lastColon \<Rightarrow>
       if lastColon = 0 \<or> lastColon + 1 = length str then None
       else case to_uint qt (drop (lastColon + 1) str) of
         None \<Rightarrow> None
       | Some p \<Rightarrow>
         if p = 0 \<or> p > 65535 then None
         else if host_parse qt (take lastColon str) = NullAddr then None
         else Some (host_parse qt (take lastColon str), of_nat p))"

section \<open>Messages\<close>

definition le16 :: "u16 \<Rightarrow> bytes" where "le16 w = rev (be16 w)"
definition le32 :: "u32 \<Rightarrow> bytes" where "le32 w = rev (be32 w)"

definition lrd16 :: "bytes \<Rightarrow> nat \<Rightarrow> u16" where
  "lrd16 b i = push_bit 8 (ucast (b ! (i + 1))) OR ucast (b ! i)"

definition lrd32 :: "bytes \<Rightarrow> nat \<Rightarrow> u32" where
  "lrd32 b i = push_bit 24 (ucast (b ! (i + 3))) OR push_bit 16 (ucast (b ! (i + 2)))
     OR push_bit 8 (ucast (b ! (i + 1))) OR ucast (b ! i)"

text \<open>\<open>NLA_ALIGN\<close> is computed in \<open>int\<close>, above the range of the 16-bit length.\<close>

definition nla_align :: "nat \<Rightarrow> nat" where
  "nla_align n = (n + 3) div 4 * 4"

definition nla_pad :: "u16 \<Rightarrow> bytes" where
  "nla_pad len = replicate (nla_align (unat len) - unat len) 0"

definition putAttr :: "u16 \<Rightarrow> bytes \<Rightarrow> bytes \<Rightarrow> bytes" where
  "putAttr ty data buf =
    (let attrLen = of_nat (4 + length data) in buf @ le16 attrLen @ le16 ty @ data @ nla_pad attrLen)"

definition putAttrU8 :: "u16 \<Rightarrow> u8 \<Rightarrow> bytes \<Rightarrow> bytes" where "putAttrU8 ty w = putAttr ty [w]"
definition putAttrU16 :: "u16 \<Rightarrow> u16 \<Rightarrow> bytes \<Rightarrow> bytes" where "putAttrU16 ty w = putAttr ty (le16 w)"
definition putAttrU32 :: "u16 \<Rightarrow> u32 \<Rightarrow> bytes \<Rightarrow> bytes" where "putAttrU32 ty w = putAttr ty (le32 w)"
definition putAttrStr :: "qt_lib \<Rightarrow> u16 \<Rightarrow> qstring \<Rightarrow> bytes \<Rightarrow> bytes" where
  "putAttrStr qt ty str = putAttr ty (to_utf8 qt str @ [0])"

definition startNested :: "u16 \<Rightarrow> bytes \<Rightarrow> bytes \<times> nat" where
  "startNested ty buf = (buf @ le16 0 @ le16 (0x8000 OR ty), length buf)"

definition endNested :: "nat \<Rightarrow> bytes \<Rightarrow> bytes" where
  "endNested offset buf =
    (let len = of_nat (length buf - offset) :: u16 in
     take offset buf @ le16 len @ drop (offset + 2) buf @ nla_pad len)"

text \<open>The structures in front of the attributes; the length of the message is filled in later.\<close>

definition nlmsghdr :: "u16 \<Rightarrow> u16 \<Rightarrow> u32 \<Rightarrow> bytes" where
  "nlmsghdr ty fl sq = le32 0 @ le16 ty @ le16 fl @ le32 sq @ le32 0"

definition genlmsghdr :: "u8 \<Rightarrow> u8 \<Rightarrow> bytes" where
  "genlmsghdr cmd version = [cmd, version, 0, 0]"

definition ifinfomsg :: "u32 \<Rightarrow> u32 \<Rightarrow> u32 \<Rightarrow> bytes" where
  "ifinfomsg index fl change = [0, 0, 0, 0] @ le32 index @ le32 fl @ le32 change"

definition ifaddrmsg :: "u8 \<Rightarrow> u32 \<Rightarrow> bytes" where
  "ifaddrmsg prefixlen index = [2, prefixlen, 0x80, 0] @ le32 index"

definition set_nlmsg_len :: "bytes \<Rightarrow> bytes" where
  "set_nlmsg_len buf = le32 (of_nat (length buf)) @ drop 4 buf"

text \<open>\<open>sockaddr_in\<close>: family in host order, port and address in network order, zero padding.\<close>

definition sockaddr_in :: "u32 \<Rightarrow> u16 \<Rightarrow> bytes" where
  "sockaddr_in a port = le16 2 @ be16 port @ be32 a @ replicate 8 0"

record allowed_ip =
  ai_address :: host_addr
  ai_cidrMask :: u8

record peer_config =
  wp_publicKey :: bytes
  wp_endpoint :: qstring
  wp_keepalive :: u16
  wp_allowedIps :: "allowed_ip list"
  wp_remove :: bool

record device_status =
  ds_ifName :: qstring
  ds_publicKey :: bytes
  ds_listenPort :: u16
  ds_peers :: "peer_config list"

definition put_allowed_ip :: "allowed_ip \<Rightarrow> bytes \<Rightarrow> bytes" where
  "put_allowed_ip aip buf =
    (case ai_address aip of
       IPv4Addr a \<Rightarrow>
        (case startNested 0 buf of (buf1, aipNest) \<Rightarrow>
          endNested aipNest (putAttrU8 3 (ai_cidrMask aip) (putAttr 2 (be32 a) (putAttrU16 1 2 buf1))))
     | _ \<Rightarrow> buf)"

definition put_endpoint :: "qt_lib \<Rightarrow> qstring \<Rightarrow> bytes \<Rightarrow> bytes" where
  "put_endpoint qt endpoint buf =
    (if endpoint = [] then buf
     else case parseEndpoint qt endpoint of
       Some (IPv4Addr a, port) \<Rightarrow> putAttr 4 (sockaddr_in a port) buf
     | _ \<Rightarrow> buf)"

definition put_peer :: "qt_lib \<Rightarrow> peer_config \<Rightarrow> bytes \<Rightarrow> bytes" where
  "put_peer qt peer buf =
    (if length (wp_publicKey peer) \<noteq> 32 then buf
     else case startNested 0 buf of (buf1, peerNest) \<Rightarrow>
      let buf2 = putAttr 1 (wp_publicKey peer) buf1 in
      endNested peerNest
       (if wp_remove peer then putAttrU32 3 1 buf2
        else
         let buf3 = putAttrU32 3 2 buf2;
             buf4 = (if wp_keepalive peer > 0 then putAttrU16 5 (wp_keepalive peer) buf3 else buf3);
             buf5 = put_endpoint qt (wp_endpoint peer) buf4 in
         if wp_allowedIps peer = [] then buf5
         else case startNested 9 buf5 of (buf6, allowedNest) \<Rightarrow>
           endNested allowedNest (fold put_allowed_ip (wp_allowedIps peer) buf6)))"

text \<open>The message of \<open>setWireGuardDevice\<close>, before its length is set.\<close>

definition set_device_message :: "qt_lib \<Rightarrow> u16 \<Rightarrow> qstring \<Rightarrow> bytes \<Rightarrow> u16 \<Rightarrow> peer_config list \<Rightarrow> bytes" where
  "set_device_message qt family ifName privateKey listenPort peers =
    (let buf0 = nlmsghdr family (1 OR 4) 6 @ genlmsghdr 1 1;
         buf1 = putAttrStr qt 2 ifName buf0;
         buf2 = (if length privateKey = 32 then putAttr 3 privateKey buf1 else buf1);
         buf3 = (if listenPort > 0 then putAttrU16 6 listenPort buf2 else buf2) in
     if peers = [] then buf3
     else case startNested 8 buf3 of (buf4, peersNest) \<Rightarrow> endNested peersNest (fold (put_peer qt) peers buf4))"

section \<open>What a message says\<close>

text \<open>A message is a sequence of attributes; an attribute holds bytes or further attributes.\<close>

datatype nla = Leaf u16 bytes | Nest u16 "nla list"

fun nla_ser :: "nla \<Rightarrow> bytes" where
  "nla_ser (Leaf ty d) = le16 (of_nat (4 + length d)) @ le16 ty @ d @ nla_pad (of_nat (4 + length d))"
| "nla_ser (Nest ty ts) =
    (let body = concat (map nla_ser ts) in
     le16 (of_nat (4 + length body)) @ le16 (0x8000 OR ty) @ body @ nla_pad (of_nat (4 + length body)))"

abbreviation nlas_ser :: "nla list \<Rightarrow> bytes" where
  "nlas_ser ts \<equiv> concat (map nla_ser ts)"

lemma length_le [simp]: "length (le16 w) = 2" "length (le32 v) = 4"
  by (simp_all add: le16_def le32_def)

lemma putAttr_ser: "putAttr ty d buf = buf @ nla_ser (Leaf ty d)"
  by (simp add: putAttr_def Let_def)

lemma nested_ser:
  "startNested ty buf = (buf1, off) \<Longrightarrow> endNested off (buf1 @ nlas_ser ts) = buf @ nla_ser (Nest ty ts)"
  by (auto simp: startNested_def endNested_def Let_def)

lemma fold_ser:
  "(\<And>x buf. put x buf = buf @ nlas_ser (tree x)) \<Longrightarrow> fold put xs buf = buf @ nlas_ser (concat (map tree xs))"
  by (induction xs arbitrary: buf) simp_all

definition allowed_tree :: "allowed_ip \<Rightarrow> nla list" where
  "allowed_tree aip =
    (case ai_address aip of
       IPv4Addr a \<Rightarrow> [Nest 0 [Leaf 1 (le16 2), Leaf 2 (be32 a), Leaf 3 [ai_cidrMask aip]]]
     | _ \<Rightarrow> [])"

definition endpoint_tree :: "qt_lib \<Rightarrow> qstring \<Rightarrow> nla list" where
  "endpoint_tree qt endpoint =
    (if endpoint = [] then []
     else case parseEndpoint qt endpoint of Some (IPv4Addr a, port) \<Rightarrow> [Leaf 4 (sockaddr_in a port)] | _ \<Rightarrow> [])"

definition peer_tree :: "qt_lib \<Rightarrow> peer_config \<Rightarrow> nla list" where
  "peer_tree qt peer =
    (if length (wp_publicKey peer) \<noteq> 32 then []
     else [Nest 0 (Leaf 1 (wp_publicKey peer) #
        (if wp_remove peer then [Leaf 3 (le32 1)]
         else Leaf 3 (le32 2) # (if wp_keepalive peer > 0 then [Leaf 5 (le16 (wp_keepalive peer))] else [])
           @ endpoint_tree qt (wp_endpoint peer)
           @ (if wp_allowedIps peer = [] then [] else [Nest 9 (concat (map allowed_tree (wp_allowedIps peer)))])))])"

definition device_tree :: "qt_lib \<Rightarrow> qstring \<Rightarrow> bytes \<Rightarrow> u16 \<Rightarrow> peer_config list \<Rightarrow> nla list" where
  "device_tree qt ifName privateKey listenPort peers =
    Leaf 2 (to_utf8 qt ifName @ [0])
    # (if length privateKey = 32 then [Leaf 3 privateKey] else [])
    @ (if listenPort > 0 then [Leaf 6 (le16 listenPort)] else [])
    @ (if peers = [] then [] else [Nest 8 (concat (map (peer_tree qt) peers))])"

lemmas put_ser = putAttr_ser putAttrU8_def putAttrU16_def putAttrU32_def putAttrStr_def

lemma put_allowed_ip_ser: "put_allowed_ip aip buf = buf @ nlas_ser (allowed_tree aip)"
proof (cases "ai_address aip")
  case (IPv4Addr a)
  obtain b1 off where s: "startNested 0 buf = (b1, off)" by fastforce
  show ?thesis
    using nested_ser [OF s, of "[Leaf 1 (le16 2), Leaf 2 (be32 a), Leaf 3 [ai_cidrMask aip]]"] IPv4Addr
    by (simp add: put_allowed_ip_def allowed_tree_def put_ser s del: nla_ser.simps)
qed (simp_all add: put_allowed_ip_def allowed_tree_def)

lemma put_endpoint_ser: "put_endpoint qt ep buf = buf @ nlas_ser (endpoint_tree qt ep)"
  by (simp add: put_endpoint_def endpoint_tree_def put_ser del: nla_ser.simps split: option.splits prod.splits host_addr.splits)

lemma put_peer_ser: "put_peer qt peer buf = buf @ nlas_ser (peer_tree qt peer)"
proof (cases "length (wp_publicKey peer) = 32")
  case True
  obtain b1 off where s: "startNested 0 buf = (b1, off)" by fastforce
  have nest: "(case startNested 9 x of (b6, o6) \<Rightarrow> endNested o6 (fold put_allowed_ip (wp_allowedIps peer) b6))
      = x @ nla_ser (Nest 9 (concat (map allowed_tree (wp_allowedIps peer))))" for x
    by (cases "startNested 9 x") (simp add: fold_ser [OF put_allowed_ip_ser] nested_ser del: nla_ser.simps)
  define ts where "ts = Leaf 1 (wp_publicKey peer) #
        (if wp_remove peer then [Leaf 3 (le32 1)]
         else Leaf 3 (le32 2) # (if wp_keepalive peer > 0 then [Leaf 5 (le16 (wp_keepalive peer))] else [])
           @ endpoint_tree qt (wp_endpoint peer)
           @ (if wp_allowedIps peer = [] then [] else [Nest 9 (concat (map allowed_tree (wp_allowedIps peer)))]))"
  have "put_peer qt peer buf = endNested off (b1 @ nlas_ser ts)"
    using True by (simp add: put_peer_def ts_def s put_ser put_endpoint_ser nest Let_def del: nla_ser.simps)
  then show ?thesis using nested_ser [OF s, of ts] True by (simp add: peer_tree_def ts_def del: nla_ser.simps)
qed (simp add: put_peer_def peer_tree_def)


lemma device_message_ser:
  "set_device_message qt family ifName privateKey listenPort peers
    = nlmsghdr family (1 OR 4) 6 @ genlmsghdr 1 1 @ nlas_ser (device_tree qt ifName privateKey listenPort peers)"
proof -
  have nest: "(case startNested 8 x of (b, off) \<Rightarrow> endNested off (fold (put_peer qt) peers b))
      = x @ nla_ser (Nest 8 (concat (map (peer_tree qt) peers)))" for x
    by (cases "startNested 8 x") (simp add: fold_ser [OF put_peer_ser] nested_ser del: nla_ser.simps)
  show ?thesis
    by (simp add: set_device_message_def device_tree_def put_ser nest Let_def del: nla_ser.simps)
qed

section \<open>Reading attributes\<close>

text \<open>The kernel's reading of a message: \<open>None\<close> for a length that does not fit.\<close>

fun nla_parse :: "nat \<Rightarrow> bytes \<Rightarrow> nla list option" where
  "nla_parse 0 b = None"
| "nla_parse (Suc n) b =
    (if b = [] then Some []
     else if length b < 4 then None
     else
      let len = unat (lrd16 b 0); ty = lrd16 b 2; body = mid b 4 (len - 4) in
      if len < 4 \<or> len > length b then None
      else
        (case (if bit ty 15 then map_option (Nest (ty AND 0x7FFF)) (nla_parse n body) else Some (Leaf ty body)) of
           None \<Rightarrow> None
         | Some t \<Rightarrow> map_option (\<lambda>ts. t # ts) (nla_parse n (drop (nla_align len) b))))"

text \<open>Attributes that can be written: the lengths fit 16 bits and the types leave the flag bit free.\<close>

fun nla_ok :: "nla \<Rightarrow> bool" where
  "nla_ok (Leaf ty d) = (4 + length d < 2 ^ 16 \<and> \<not> bit ty 15)"
| "nla_ok (Nest ty ts) = (4 + length (nlas_ser ts) < 2 ^ 16 \<and> \<not> bit ty 15 \<and> list_all nla_ok ts)"

lemma lrd16_le16 [be_simps]: "length p = i \<Longrightarrow> lrd16 (p @ le16 w @ s) i = w"
  by (simp add: lrd16_def le16_def be16_def nth_append join16)

lemma lrd16_append: "i + 1 < length b \<Longrightarrow> lrd16 (b @ c) i = lrd16 b i"
  by (simp add: lrd16_def nth_append)

lemma unat_u16: "n < 2 ^ 16 \<Longrightarrow> unat (of_nat n :: u16) = n"
  by (simp add: unat_of_nat take_bit_nat_eq_self)

lemma align_ge: "n \<le> nla_align n" "nla_align n < n + 4"
  by (simp_all add: nla_align_def)

text \<open>An attribute at the front of a buffer.\<close>

lemma attr_at_front:
  assumes "4 + length d < 2 ^ 16"
  shows "lrd16 (le16 (of_nat (4 + length d)) @ le16 ty @ d @ nla_pad (of_nat (4 + length d)) @ r) 0 = of_nat (4 + length d)"
    and "lrd16 (le16 (of_nat (4 + length d)) @ le16 ty @ d @ nla_pad (of_nat (4 + length d)) @ r) 2 = ty"
    and "mid (le16 (of_nat (4 + length d)) @ le16 ty @ d @ nla_pad (of_nat (4 + length d)) @ r) 4 (length d) = d"
    and "drop (nla_align (4 + length d)) (le16 (of_nat (4 + length d)) @ le16 ty @ d @ nla_pad (of_nat (4 + length d)) @ r) = r"
proof -
  let ?l = "le16 (of_nat (4 + length d))" and ?p = "nla_pad (of_nat (4 + length d))"
  show "lrd16 (?l @ le16 ty @ d @ ?p @ r) 0 = of_nat (4 + length d)"
    using lrd16_le16 [of "[]" 0] by simp
  show "lrd16 (?l @ le16 ty @ d @ ?p @ r) 2 = ty" using lrd16_le16 [of ?l 2] by simp
  show "mid (?l @ le16 ty @ d @ ?p @ r) 4 (length d) = d" using mid_append [of "?l @ le16 ty" 4 d] by simp
  have "length (?l @ le16 ty @ d @ ?p) = nla_align (4 + length d)"
    using align_ge(1) [of "4 + length d"] by (simp only: length_append length_le nla_pad_def length_replicate unat_u16 [OF assms])
  then show "drop (nla_align (4 + length d)) (?l @ le16 ty @ d @ ?p @ r) = r"
    by (metis append_assoc append_eq_conv_conj)
qed

lemma bit_nested: "\<not> bit ty 15 \<Longrightarrow> bit (0x8000 OR ty) 15 \<and> (0x8000 OR ty) AND 0x7FFF = ty" for ty :: u16
proof
  have b: "bit (0x8000 :: u16) n \<longleftrightarrow> n = 15" "bit (0x7FFF :: u16) n \<longleftrightarrow> n < 15"
    "bit (0x8000 :: int) n \<longleftrightarrow> n = 15" "bit (0x7FFF :: int) n \<longleftrightarrow> n < 15" for n
    using bit_exp_iff [of 15 n, where 'a = u16] bit_mask_iff [of 15 n, where 'a = u16]
      bit_exp_iff [of 15 n, where 'a = int] bit_mask_iff [of 15 n, where 'a = int] by (auto simp: mask_eq_exp_minus_1)
  show "bit (0x8000 OR ty) 15" by (simp add: bit_or_iff b)
  assume "\<not> bit ty 15"
  then have "bit ty n \<Longrightarrow> n < 15" for n using bit_imp_le_length [of ty n] by (cases "n = 15") auto
  then show "(0x8000 OR ty) AND 0x7FFF = ty"
    by (intro bit_word_eqI) (auto simp: bit_or_iff bit_and_iff b)
qed

lemma nla_parse_step:
  assumes "4 + length d < 2 ^ 16" and "lrd16 b 0 = of_nat (4 + length d)" and "lrd16 b 2 = ty"
    and "mid b 4 (length d) = d" and "drop (nla_align (4 + length d)) b = r" and "4 + length d \<le> length b"
  shows "nla_parse (Suc n) b = (case (if bit ty 15 then map_option (Nest (ty AND 0x7FFF)) (nla_parse n d) else Some (Leaf ty d)) of
           None \<Rightarrow> None
         | Some t \<Rightarrow> map_option (\<lambda>ts. t # ts) (nla_parse n r))"
proof -
  have "b \<noteq> []" using assms(6) by auto
  moreover have "unat (lrd16 b 0) = 4 + length d" using assms(2) unat_u16 [OF assms(1)] by simp
  ultimately show ?thesis using assms(3,4,6) unfolding assms(5) [symmetric] by (simp add: Let_def)
qed

lemma nla_parse_ser:
  "list_all nla_ok ts \<Longrightarrow> length (nlas_ser ts) < n \<Longrightarrow> nla_parse n (nlas_ser ts) = Some ts"
proof (induction n arbitrary: ts)
  case (Suc n)
  show ?case
  proof (cases ts)
    case (Cons t rest)
    have more: "nla_parse n (nlas_ser rest) = Some rest"
      using Suc Cons by (cases t) (simp_all add: Let_def)
    show ?thesis
    proof (cases t)
      case (Leaf ty d)
      then have ok: "4 + length d < 2 ^ 16" "\<not> bit ty 15" using Suc.prems(1) Cons by simp_all
      note f = attr_at_front [OF ok(1), of ty "nlas_ser rest"]
      show ?thesis unfolding Cons Leaf
        using nla_parse_step [OF ok(1) f, of n] ok(2) more by (simp del: of_nat_add nla_parse.simps drop_append)
    next
      case (Nest ty us)
      let ?d = "nlas_ser us"
      have ok: "4 + length ?d < 2 ^ 16" "\<not> bit ty 15" "list_all nla_ok us" using Suc.prems(1) Cons Nest by simp_all
      note f = attr_at_front [OF ok(1), of "0x8000 OR ty" "nlas_ser rest"]
      have "nla_parse n ?d = Some us" using Suc.IH [OF ok(3)] Suc.prems(2) Cons Nest by (simp add: Let_def)
      then show ?thesis unfolding Cons Nest
        using nla_parse_step [OF ok(1) f, of n] bit_nested [OF ok(2)] more
        by (simp add: Let_def del: of_nat_add nla_parse.simps drop_append)
    qed
  qed simp
qed simp


section \<open>Calls to the kernel\<close>

text \<open>The answer to one request: \<open>sendto\<close> or \<open>recv\<close> fails with an errno, or the buffer holds a reply.\<close>

datatype nl_reply = SendFailed int | RecvFailed int | Reply bytes nat

record 'k kernel =
  kn_ifindex :: "'k \<Rightarrow> bytes \<Rightarrow> u32"
  kn_socket :: "'k \<Rightarrow> nat \<Rightarrow> bool"
  kn_talk :: "'k \<Rightarrow> nat \<Rightarrow> bytes \<Rightarrow> 'k \<times> nl_reply"
  kn_pton :: "bytes \<Rightarrow> u32 option"

definition NETLINK_ROUTE :: nat where "NETLINK_ROUTE = 0"
definition NETLINK_GENERIC :: nat where "NETLINK_GENERIC = 16"

definition sendNetlinkRequest :: "'k kernel \<Rightarrow> nat \<Rightarrow> bytes \<Rightarrow> 'k \<Rightarrow> 'k \<times> int" where
  "sendNetlinkRequest K proto buf k =
    (case kn_talk K k proto (set_nlmsg_len buf) of
       (k', SendFailed err) \<Rightarrow> (k', - err)
     | (k', RecvFailed err) \<Rightarrow> (k', - err)
     | (k', Reply b len) \<Rightarrow>
        (k', if lrd16 b 4 = 2 then (let err = sint (lrd32 b 16) in if err \<noteq> 0 then - (- err) else 0) else 0))"

definition interfaceExists :: "qt_lib \<Rightarrow> 'k kernel \<Rightarrow> qstring \<Rightarrow> 'k \<Rightarrow> bool" where
  "interfaceExists qt K ifName k = (kn_ifindex K k (to_utf8 qt ifName) > 0)"

text \<open>
  The size of the attributes of a reply is computed in 64 bits from its length field. The loops over
  them trust it: for a length field beyond the bytes received the source reads behind them, where the
  value of \<open>b ! i\<close> is not specified here either. What is proved of the loops is for replies
  that hold what their fields say.
\<close>

definition reply_attrs :: "bytes \<Rightarrow> nat" where
  "reply_attrs b = unat (ucast (lrd32 b 0) - 20 :: 64 word)"

function family_loop :: "bytes \<Rightarrow> nat \<Rightarrow> nat \<Rightarrow> int" where
  "family_loop b ptr attrLen =
    (if attrLen < 4 then - 1
     else let nlaLen = unat (lrd16 b ptr) in
       if nlaLen < 4 \<or> nlaLen > attrLen then - 1
       else if lrd16 b (ptr + 2) = 1 then int (unat (lrd16 b (ptr + 4)))
       else let alignedLen = nla_align nlaLen in
         if alignedLen > attrLen then - 1 else family_loop b (ptr + alignedLen) (attrLen - alignedLen))"
  by pat_completeness auto
termination
proof (relation "measure (\<lambda>(b, ptr, attrLen). attrLen)", goal_cases)
  case (2 b ptr attrLen n al)
  then show ?case using align_ge(1) [of n] by simp
qed simp

declare family_loop.simps [simp del]

definition family_request :: "qt_lib \<Rightarrow> bytes" where
  "family_request qt = putAttrStr qt 2 (qs ''wireguard'') (nlmsghdr 16 1 1 @ genlmsghdr 3 1)"

definition resolveWireGuardFamily :: "qt_lib \<Rightarrow> 'k kernel \<Rightarrow> 'k \<Rightarrow> 'k \<times> int" where
  "resolveWireGuardFamily qt K k =
    (if \<not> kn_socket K k NETLINK_GENERIC then (k, - 1)
     else case kn_talk K k NETLINK_GENERIC (set_nlmsg_len (family_request qt)) of
       (k', SendFailed err) \<Rightarrow> (k', - 1)
     | (k', RecvFailed err) \<Rightarrow> (k', - 1)
     | (k', Reply b len) \<Rightarrow>
        (k', if len < 20 then - 1 else if lrd16 b 4 = 2 then - 1 else family_loop b 20 (reply_attrs b)))"

definition kernel_supports :: "qt_lib \<Rightarrow> 'k kernel \<Rightarrow> 'k \<Rightarrow> 'k \<times> bool" where
  "kernel_supports qt K k = (case resolveWireGuardFamily qt K k of (k', f) \<Rightarrow> (k', f > 0))"

definition create_message :: "qt_lib \<Rightarrow> qstring \<Rightarrow> bytes" where
  "create_message qt ifName =
    (case startNested 18 (putAttrStr qt 3 ifName (nlmsghdr 16 (1 OR 4 OR 0x400 OR 0x200) 2 @ ifinfomsg 0 0 0)) of
       (buf, linkInfo) \<Rightarrow> endNested linkInfo (putAttrStr qt 1 (qs ''wireguard'') buf))"

definition createInterface :: "qt_lib \<Rightarrow> 'k kernel \<Rightarrow> qstring \<Rightarrow> 'k \<Rightarrow> 'k \<times> bool" where
  "createInterface qt K ifName k =
    (if interfaceExists qt K ifName k then (k, True)
     else if \<not> kn_socket K k NETLINK_ROUTE then (k, False)
     else case sendNetlinkRequest K NETLINK_ROUTE (create_message qt ifName) k of
       (k', res) \<Rightarrow> (k', if res \<noteq> 0 \<and> res \<noteq> - 17 then False else True))"

definition delete_message :: "qt_lib \<Rightarrow> qstring \<Rightarrow> u32 \<Rightarrow> bytes" where
  "delete_message qt ifName index = putAttrStr qt 3 ifName (nlmsghdr 17 (1 OR 4) 3 @ ifinfomsg index 0 0)"

definition deleteInterface :: "qt_lib \<Rightarrow> 'k kernel \<Rightarrow> qstring \<Rightarrow> 'k \<Rightarrow> 'k \<times> bool" where
  "deleteInterface qt K ifName k =
    (if \<not> interfaceExists qt K ifName k then (k, True)
     else if \<not> kn_socket K k NETLINK_ROUTE then (k, False)
     else case sendNetlinkRequest K NETLINK_ROUTE (delete_message qt ifName (kn_ifindex K k (to_utf8 qt ifName))) k of
       (k', res) \<Rightarrow> (k', if res \<noteq> 0 \<and> res \<noteq> - 19 \<and> res \<noteq> - 2 then False else True))"

definition address_message :: "u32 \<Rightarrow> u8 \<Rightarrow> u32 \<Rightarrow> bytes" where
  "address_message a prefixLen index =
    putAttr 1 (be32 a) (putAttr 2 (be32 a) (nlmsghdr 20 (1 OR 4 OR 0x400 OR 0x100) 4 @ ifaddrmsg prefixLen index))"

definition setInterfaceAddress :: "qt_lib \<Rightarrow> 'k kernel \<Rightarrow> qstring \<Rightarrow> qstring \<Rightarrow> int \<Rightarrow> 'k \<Rightarrow> 'k \<times> bool" where
  "setInterfaceAddress qt K ifName virtualIp prefixLen k =
    (let ifIndex = kn_ifindex K k (to_utf8 qt ifName) in
     if ifIndex = 0 then (k, False)
     else case kn_pton K (to_utf8 qt virtualIp) of
       None \<Rightarrow> (k, False)
     | Some a \<Rightarrow>
        if \<not> kn_socket K k NETLINK_ROUTE then (k, False)
        else case sendNetlinkRequest K NETLINK_ROUTE (address_message a (word_of_int prefixLen) ifIndex) k of
          (k', res) \<Rightarrow> (k', res = 0))"

definition up_message :: "u32 \<Rightarrow> bool \<Rightarrow> bytes" where
  "up_message index up = nlmsghdr 19 (1 OR 4) 5 @ ifinfomsg index (if up then 1 else 0) 1"

definition setInterfaceUp :: "qt_lib \<Rightarrow> 'k kernel \<Rightarrow> qstring \<Rightarrow> bool \<Rightarrow> 'k \<Rightarrow> 'k \<times> bool" where
  "setInterfaceUp qt K ifName up k =
    (let ifIndex = kn_ifindex K k (to_utf8 qt ifName) in
     if ifIndex = 0 then (k, False)
     else if \<not> kn_socket K k NETLINK_ROUTE then (k, False)
     else case sendNetlinkRequest K NETLINK_ROUTE (up_message ifIndex up) k of (k', res) \<Rightarrow> (k', res = 0))"

definition setWireGuardDevice :: "qt_lib \<Rightarrow> 'k kernel \<Rightarrow> qstring \<Rightarrow> bytes \<Rightarrow> u16 \<Rightarrow> peer_config list \<Rightarrow> 'k \<Rightarrow> 'k \<times> bool" where
  "setWireGuardDevice qt K ifName privateKey listenPort peers k =
    (case resolveWireGuardFamily qt K k of (k1, familyId) \<Rightarrow>
     if familyId \<le> 0 then (k1, False)
     else if \<not> kn_socket K k1 NETLINK_GENERIC then (k1, False)
     else case sendNetlinkRequest K NETLINK_GENERIC
            (set_device_message qt (word_of_int familyId) ifName privateKey listenPort peers) k1 of
       (k2, res) \<Rightarrow> (k2, res = 0))"

function device_loop :: "bytes \<Rightarrow> nat \<Rightarrow> nat \<Rightarrow> device_status \<Rightarrow> device_status" where
  "device_loop b ptr attrLen status =
    (if attrLen < 4 then status
     else let nlaLen = unat (lrd16 b ptr) in
       if nlaLen < 4 \<or> nlaLen > attrLen then status
       else
        let ty = lrd16 b (ptr + 2) AND 0x3FFF;
            status' = (if ty = 4 \<and> nlaLen \<ge> 36 then status\<lparr>ds_publicKey := mid b (ptr + 4) 32\<rparr>
               else if ty = 6 \<and> nlaLen \<ge> 6 then status\<lparr>ds_listenPort := lrd16 b (ptr + 4)\<rparr> else status);
            alignedLen = nla_align nlaLen in
        if alignedLen > attrLen then status' else device_loop b (ptr + alignedLen) (attrLen - alignedLen) status')"
  by pat_completeness auto
termination
proof (relation "measure (\<lambda>(b, ptr, attrLen, status). attrLen)", goal_cases)
  case (2 b ptr attrLen status n ty status' al)
  then show ?case using align_ge(1) [of n] by simp
qed simp

declare device_loop.simps [simp del]

definition get_device_request :: "qt_lib \<Rightarrow> u16 \<Rightarrow> qstring \<Rightarrow> bytes" where
  "get_device_request qt family ifName = putAttrStr qt 2 ifName (nlmsghdr family (1 OR 0x300) 7 @ genlmsghdr 0 1)"

definition getWireGuardDevice :: "qt_lib \<Rightarrow> 'k kernel \<Rightarrow> qstring \<Rightarrow> 'k \<Rightarrow> 'k \<times> device_status option" where
  "getWireGuardDevice qt K ifName k =
    (case resolveWireGuardFamily qt K k of (k1, familyId) \<Rightarrow>
     if familyId \<le> 0 then (k1, None)
     else if \<not> kn_socket K k1 NETLINK_GENERIC then (k1, None)
     else case kn_talk K k1 NETLINK_GENERIC (set_nlmsg_len (get_device_request qt (word_of_int familyId) ifName)) of
       (k2, SendFailed err) \<Rightarrow> (k2, None)
     | (k2, RecvFailed err) \<Rightarrow> (k2, None)
     | (k2, Reply b len) \<Rightarrow>
        (k2, if len < 20 then None else if lrd16 b 4 = 2 then None
             else Some (device_loop b 20 (reply_attrs b) \<lparr>ds_ifName = ifName, ds_publicKey = [], ds_listenPort = 0, ds_peers = []\<rparr>)))"


section \<open>What the kernel reads\<close>

fun nla_payload :: "nla \<Rightarrow> bytes" where
  "nla_payload (Leaf ty d) = d"
| "nla_payload (Nest ty ts) = nlas_ser ts"

fun nla_type :: "nla \<Rightarrow> u16" where
  "nla_type (Leaf ty d) = ty"
| "nla_type (Nest ty ts) = 0x8000 OR ty"

fun nla_plain :: "nla \<Rightarrow> bool" where
  "nla_plain (Leaf ty d) = (\<not> bit ty 15)"
| "nla_plain (Nest ty ts) = (\<not> bit ty 15 \<and> list_all nla_plain ts)"

lemma nla_ser_parts:
  "nla_ser t = le16 (of_nat (4 + length (nla_payload t))) @ le16 (nla_type t) @ nla_payload t
    @ nla_pad (of_nat (4 + length (nla_payload t)))"
  by (cases t) (simp_all add: Let_def)

lemma payload_le: "4 + length (nla_payload t) \<le> length (nla_ser t)"
  by (simp add: nla_ser_parts)

lemma ser_le: "t \<in> set ts \<Longrightarrow> length (nla_ser t) \<le> length (nlas_ser ts)"
  by (induction ts) auto

text \<open>Only the size of the whole matters.\<close>

lemma nla_ok_size: "nla_plain t \<Longrightarrow> 4 + length (nla_payload t) < 2 ^ 16 \<Longrightarrow> nla_ok t"
proof (induction t)
  case (Nest ty ts)
  have "nla_ok t" if "t \<in> set ts" for t
    using Nest.IH [OF that] Nest.prems that payload_le [of t] ser_le [OF that] by (auto simp: list_all_iff)
  then show ?case using Nest.prems by (simp add: list_all_iff)
qed simp

lemma bits15: "\<not> bit (1 :: u16) 15" "\<not> bit (2 :: u16) 15" "\<not> bit (3 :: u16) 15" "\<not> bit (4 :: u16) 15" "\<not> bit (5 :: u16) 15"
  "\<not> bit (6 :: u16) 15" "\<not> bit (8 :: u16) 15" "\<not> bit (9 :: u16) 15" "\<not> bit (0 :: u16) 15"
  by simp_all

lemma peer_tree_plain: "list_all nla_plain (peer_tree qt p)"
  by (auto simp: peer_tree_def endpoint_tree_def allowed_tree_def list_all_iff bits15
      split: option.splits prod.splits host_addr.splits if_splits)

lemma device_tree_ok:
  assumes "length (to_utf8 qt ifName) < 2 ^ 16 - 5"
    and "length (nlas_ser (concat (map (peer_tree qt) peers))) < 2 ^ 16 - 4"
  shows "list_all nla_ok (device_tree qt ifName privateKey listenPort peers)"
proof -
  have "nla_ok (Nest 8 (concat (map (peer_tree qt) peers)))"
    using assms(2) peer_tree_plain by (intro nla_ok_size) (auto simp: bits15 list_all_iff)
  then show ?thesis using assms(1) by (auto simp: device_tree_def bits15 simp del: nla_ok.simps(2))
qed

lemma lrd32_le32: "lrd32 (le32 w @ s) 0 = w"
  by (simp add: lrd32_def le32_def be32_def join32)

lemma set_device_message_layout:
  "set_nlmsg_len (set_device_message qt family ifName privateKey listenPort peers)
    = le32 (of_nat (20 + length (nlas_ser (device_tree qt ifName privateKey listenPort peers)))) @ le16 family @ le16 5
      @ le32 6 @ le32 0 @ [1, 1, 0, 0] @ nlas_ser (device_tree qt ifName privateKey listenPort peers)"
  by (simp add: set_nlmsg_len_def device_message_ser nlmsghdr_def genlmsghdr_def)

text \<open>
  C22: The message that configures the WireGuard device decodes, by the kernel rules for
  nested attributes, to exactly the attribute tree of its arguments (name, key, port and for
  each peer with a 32-byte key its flags, keepalive, endpoint and allowed addresses), as
  long as name and peers fit the 16-bit lengths.
\<close>

theorem device_message_decodes:
  assumes "length (to_utf8 qt ifName) < 2 ^ 16 - 5"
    and "length (nlas_ser (concat (map (peer_tree qt) peers))) < 2 ^ 16 - 4"
    and "msg = set_nlmsg_len (set_device_message qt family ifName privateKey listenPort peers)"
  shows "lrd16 msg 4 = family \<and> (length msg < 2 ^ 32 \<longrightarrow> unat (lrd32 msg 0) = length msg)
    \<and> nla_parse (length msg) (drop 20 msg) = Some (device_tree qt ifName privateKey listenPort peers)"
proof -
  let ?t = "device_tree qt ifName privateKey listenPort peers"
  have m: "msg = le32 (of_nat (20 + length (nlas_ser ?t))) @ le16 family @ le16 5 @ le32 6 @ le32 0 @ [1, 1, 0, 0] @ nlas_ser ?t"
    using set_device_message_layout assms(3) by simp
  have len: "length msg = 20 + length (nlas_ser ?t)" by (simp add: m)
  have "lrd16 msg 4 = family"
    unfolding m using lrd16_le16 [of "le32 (of_nat (20 + length (nlas_ser ?t)))" 4] by simp
  moreover have "unat (lrd32 msg 0) = length msg" if "length msg < 2 ^ 32"
  proof -
    have "lrd32 msg 0 = of_nat (length msg)" unfolding len unfolding m by (rule lrd32_le32)
    then show ?thesis using unat_of_nat_u32 [OF that] by (simp only:)
  qed
  moreover have "drop 20 msg = nlas_ser ?t" by (simp add: m)
  moreover have "nla_parse (length msg) (nlas_ser ?t) = Some ?t"
    using nla_parse_ser [OF device_tree_ok [OF assms(1,2)]] len by simp
  ultimately show ?thesis by metis
qed


lemma lrd16_shift: "lrd16 (p @ x) (length p + i) = lrd16 x i"
  by (simp add: lrd16_def nth_append)

lemma mid_shift: "mid (p @ x) (length p + i) n = mid x i n"
  by (simp add: mid_def)

lemma mid_take: "m \<le> n \<Longrightarrow> mid b i m = take m (mid b i n)"
  by (simp add: mid_def min_def)

text \<open>An attribute met by the loops: its length, its type and its value.\<close>

lemma attr_met:
  assumes "nla_ok t" and "i + 1 < length (nla_payload t)"
  shows "lrd16 (p @ nla_ser t @ r) (length p + 4 + i) = lrd16 (nla_payload t) i"
proof -
  let ?l = "le16 (of_nat (4 + length (nla_payload t))) @ le16 (nla_type t)"
  have "p @ nla_ser t @ r = (p @ ?l) @ nla_payload t @ nla_pad (of_nat (4 + length (nla_payload t))) @ r"
    by (simp add: nla_ser_parts)
  then show ?thesis
    using lrd16_shift [of "p @ ?l" "nla_payload t @ nla_pad (of_nat (4 + length (nla_payload t))) @ r" i]
      lrd16_append [OF assms(2)] by (simp add: add.assoc)
qed

lemma attr_head:
  assumes "nla_ok t"
  shows "unat (lrd16 (p @ nla_ser t @ r) (length p)) = 4 + length (nla_payload t)"
    and "lrd16 (p @ nla_ser t @ r) (length p + 2) = nla_type t"
    and "mid (p @ nla_ser t @ r) (length p + 4) (length (nla_payload t)) = nla_payload t"
    and "length (nla_ser t) = nla_align (4 + length (nla_payload t))"
proof -
  have ok: "4 + length (nla_payload t) < 2 ^ 16" using assms by (cases t) simp_all
  note f = attr_at_front [OF ok, of "nla_type t" r]
  note e = nla_ser_parts [of t]
  show "unat (lrd16 (p @ nla_ser t @ r) (length p)) = 4 + length (nla_payload t)"
    using lrd16_shift [of p "nla_ser t @ r" 0] f(1) unat_u16 [OF ok] by (simp add: e del: of_nat_add)
  show "lrd16 (p @ nla_ser t @ r) (length p + 2) = nla_type t"
    using lrd16_shift [of p "nla_ser t @ r" 2] f(2) by (simp add: e del: of_nat_add)
  show "mid (p @ nla_ser t @ r) (length p + 4) (length (nla_payload t)) = nla_payload t"
    using mid_shift [of p "nla_ser t @ r" 4] f(3) by (simp add: e del: of_nat_add)
  show "length (nla_ser t) = nla_align (4 + length (nla_payload t))"
    using align_ge(1) [of "4 + length (nla_payload t)"]
    by (simp only: e length_append length_le nla_pad_def length_replicate unat_u16 [OF ok])
qed

definition read_status :: "device_status \<Rightarrow> nla \<Rightarrow> device_status" where
  "read_status st t =
    (let ty = nla_type t AND 0x3FFF; d = nla_payload t in
     if ty = 4 \<and> length d \<ge> 32 then st\<lparr>ds_publicKey := take 32 d\<rparr>
     else if ty = 6 \<and> length d \<ge> 2 then st\<lparr>ds_listenPort := lrd16 d 0\<rparr> else st)"

lemma family_loop_ser:
  "list_all nla_ok ts \<Longrightarrow> list_all (\<lambda>t. nla_type t = 1 \<longrightarrow> 2 \<le> length (nla_payload t)) ts \<Longrightarrow>
     family_loop (p @ nlas_ser ts @ r) (length p) (length (nlas_ser ts))
       = (case find (\<lambda>t. nla_type t = 1) ts of Some t \<Rightarrow> int (unat (lrd16 (nla_payload t) 0)) | None \<Rightarrow> - 1)"
proof (induction ts arbitrary: p)
  case Nil
  show ?case by (subst family_loop.simps) simp
next
  case (Cons t ts)
  have ok: "nla_ok t" using Cons.prems by simp
  note h = attr_head(1-3) [OF ok, of p "nlas_ser ts @ r"] attr_head(4) [OF ok]
  have v: "nla_type t = 1 \<Longrightarrow> lrd16 (p @ nla_ser t @ nlas_ser ts @ r) (length p + 4) = lrd16 (nla_payload t) 0"
    using attr_met [OF ok, of 0 p "nlas_ser ts @ r"] Cons.prems(2) by simp
  have rec: "family_loop (p @ nla_ser t @ nlas_ser ts @ r) (length p + nla_align (4 + length (nla_payload t))) (length (nlas_ser ts))
      = (case find (\<lambda>t. nla_type t = 1) ts of Some t \<Rightarrow> int (unat (lrd16 (nla_payload t) 0)) | None \<Rightarrow> - 1)"
    using Cons.IH [of "p @ nla_ser t"] Cons.prems h(4) by simp
  have ge: "4 + length (nla_payload t) \<le> length (nla_ser t)" by (rule payload_le)
  show ?case
    using ge rec h v by (subst family_loop.simps) (simp add: Let_def del: nla_ser.simps)
qed

lemma device_loop_step:
  assumes "unat (lrd16 b ptr) = n" and "4 \<le> n" and "nla_align n \<le> attrLen"
  shows "device_loop b ptr attrLen st = device_loop b (ptr + nla_align n) (attrLen - nla_align n)
    (if lrd16 b (ptr + 2) AND 0x3FFF = 4 \<and> 36 \<le> n then st\<lparr>ds_publicKey := mid b (ptr + 4) 32\<rparr>
     else if lrd16 b (ptr + 2) AND 0x3FFF = 6 \<and> 6 \<le> n then st\<lparr>ds_listenPort := lrd16 b (ptr + 4)\<rparr> else st)"
proof -
  have "n \<le> attrLen" using align_ge(1) [of n] assms(3) by simp
  then have c: "\<not> attrLen < 4" "\<not> n < 4" "\<not> attrLen < n" "\<not> attrLen < nla_align n" using assms(2,3) by linarith+
  show ?thesis
    unfolding device_loop.simps [of b ptr attrLen st] Let_def assms(1) by (simp only: c if_False simp_thms)
qed

lemma device_loop_ser:
  "list_all nla_ok ts \<Longrightarrow> device_loop (p @ nlas_ser ts @ r) (length p) (length (nlas_ser ts)) st = foldl read_status st ts"
proof (induction ts arbitrary: p st)
  case Nil
  show ?case by (subst device_loop.simps) simp
next
  case (Cons t ts)
  have ok: "nla_ok t" using Cons.prems by simp
  let ?b = "p @ nla_ser t @ nlas_ser ts @ r"
  note h = attr_head(1-3) [OF ok, of p "nlas_ser ts @ r"] attr_head(4) [OF ok]
  have key: "32 \<le> length (nla_payload t) \<Longrightarrow> mid ?b (length p + 4) 32 = take 32 (nla_payload t)"
    using mid_take [where m = 32 and b = ?b and i = "length p + 4"] h(3) by metis
  have port: "2 \<le> length (nla_payload t) \<Longrightarrow> lrd16 ?b (length p + 4) = lrd16 (nla_payload t) 0"
    using attr_met [OF ok, of 0 p "nlas_ser ts @ r"] by (simp only: add_0_right)
  have rec: "device_loop ?b (length p + nla_align (4 + length (nla_payload t))) (length (nlas_ser ts)) st'
      = foldl read_status st' ts" for st'
    using Cons.IH [of "p @ nla_ser t"] Cons.prems h(4) by simp
  have status: "(if lrd16 ?b (length p + 2) AND 0x3FFF = 4 \<and> 36 \<le> 4 + length (nla_payload t)
       then st\<lparr>ds_publicKey := mid ?b (length p + 4) 32\<rparr>
     else if lrd16 ?b (length p + 2) AND 0x3FFF = 6 \<and> 6 \<le> 4 + length (nla_payload t)
       then st\<lparr>ds_listenPort := lrd16 ?b (length p + 4)\<rparr> else st) = read_status st t"
    unfolding h(2) using key port by (auto simp: read_status_def Let_def)
  have "device_loop ?b (length p) (length (nlas_ser (t # ts))) st
      = device_loop ?b (length p + nla_align (4 + length (nla_payload t)))
          (length (nlas_ser (t # ts)) - nla_align (4 + length (nla_payload t))) (read_status st t)"
    unfolding status [symmetric] using h(4) by (intro device_loop_step h(1)) simp_all
  also have "length (nlas_ser (t # ts)) - nla_align (4 + length (nla_payload t)) = length (nlas_ser ts)"
    using h(4) by simp
  finally show ?case using rec by simp
qed


section \<open>Replies\<close>

text \<open>A reply as the kernel sends it: a header with its size, the generic header, attributes.\<close>

definition kernel_reply :: "u16 \<Rightarrow> bytes \<Rightarrow> nla list \<Rightarrow> bytes \<Rightarrow> bytes" where
  "kernel_reply ty rest ts junk = le32 (of_nat (20 + length (nlas_ser ts))) @ le16 ty @ rest @ nlas_ser ts @ junk"

lemma reply_attrs_reply:
  assumes "20 + length (nlas_ser ts) < 2 ^ 32"
  shows "reply_attrs (kernel_reply ty rest ts junk) = length (nlas_ser ts)"
proof -
  let ?n = "20 + length (nlas_ser ts)"
  have u: "lrd32 (kernel_reply ty rest ts junk) 0 = of_nat ?n" by (simp only: kernel_reply_def lrd32_le32)
  have "unat (of_nat ?n :: u32) = ?n" by (rule unat_of_nat_u32 [OF assms])
  then have "(ucast (of_nat ?n :: u32) :: 64 word) = of_nat ?n" by (metis of_nat_unat)
  then have "(ucast (of_nat ?n :: u32) :: 64 word) - 20 = of_nat (length (nlas_ser ts))" by simp
  moreover have "unat (of_nat (length (nlas_ser ts)) :: 64 word) = length (nlas_ser ts)"
    using assms by (simp add: unat_of_nat take_bit_nat_eq_self)
  ultimately show ?thesis by (simp only: reply_attrs_def u)
qed

lemma kernel_reply_at:
  assumes "length rest = 14"
  shows "lrd16 (kernel_reply ty rest ts junk) 4 = ty"
    and "\<exists>p. length p = 20 \<and> kernel_reply ty rest ts junk = p @ nlas_ser ts @ junk"
proof -
  show "lrd16 (kernel_reply ty rest ts junk) 4 = ty"
    unfolding kernel_reply_def by (rule lrd16_le16) simp
  show "\<exists>p. length p = 20 \<and> kernel_reply ty rest ts junk = p @ nlas_ser ts @ junk"
    by (rule exI [of _ "le32 (of_nat (20 + length (nlas_ser ts))) @ le16 ty @ rest"])
      (simp only: kernel_reply_def length_append length_le assms append_assoc, simp)
qed

definition family_of :: "nla list \<Rightarrow> int" where
  "family_of ts = (case find (\<lambda>t. nla_type t = 1) ts of Some t \<Rightarrow> int (unat (lrd16 (nla_payload t) 0)) | None \<Rightarrow> - 1)"

text \<open>
  C23: When the kernel answers with well-formed attributes, resolveWireGuardFamily returns
  the first family id among them and getWireGuardDevice the key and port they carry,
  whatever other attributes, nesting or trailing bytes the replies hold.
\<close>

theorem kernel_replies_read:
  assumes "kn_socket K k NETLINK_GENERIC"
    and "kn_talk K k NETLINK_GENERIC (set_nlmsg_len (family_request qt)) = (k1, Reply (kernel_reply ty rest ts junk) len)"
    and "kn_socket K k1 NETLINK_GENERIC"
    and "kn_talk K k1 NETLINK_GENERIC (set_nlmsg_len (get_device_request qt (word_of_int (family_of ts)) ifName))
      = (k2, Reply (kernel_reply ty' rest' us junk') len')"
    and "ty \<noteq> 2" and "ty' \<noteq> 2" and "20 \<le> len" and "20 \<le> len'" and "length rest = 14" and "length rest' = 14"
    and "list_all nla_ok ts" and "list_all (\<lambda>t. nla_type t = 1 \<longrightarrow> 2 \<le> length (nla_payload t)) ts"
    and "list_all nla_ok us" and "20 + length (nlas_ser ts) < 2 ^ 32" and "20 + length (nlas_ser us) < 2 ^ 32"
  shows "resolveWireGuardFamily qt K k = (k1, family_of ts)
    \<and> (0 < family_of ts \<longrightarrow> getWireGuardDevice qt K ifName k
      = (k2, Some (foldl read_status \<lparr>ds_ifName = ifName, ds_publicKey = [], ds_listenPort = 0, ds_peers = []\<rparr> us)))"
proof -
  obtain p where p: "length p = 20" "kernel_reply ty rest ts junk = p @ nlas_ser ts @ junk"
    using kernel_reply_at(2) [OF assms(9)] by blast
  obtain q where q: "length q = 20" "kernel_reply ty' rest' us junk' = q @ nlas_ser us @ junk'"
    using kernel_reply_at(2) [OF assms(10)] by blast
  have fam: "family_loop (kernel_reply ty rest ts junk) 20 (reply_attrs (kernel_reply ty rest ts junk)) = family_of ts"
    unfolding reply_attrs_reply [OF assms(14)] unfolding p(2)
    using family_loop_ser [OF assms(11,12), of p junk] by (simp only: p(1) family_of_def)
  have dev: "device_loop (kernel_reply ty' rest' us junk') 20 (reply_attrs (kernel_reply ty' rest' us junk')) st
      = foldl read_status st us" for st
    unfolding reply_attrs_reply [OF assms(15)] unfolding q(2)
    using device_loop_ser [OF assms(13), of q junk' st] by (simp only: q(1))
  have res: "resolveWireGuardFamily qt K k = (k1, family_of ts)"
    using assms(1,2,5,7) kernel_reply_at(1) [OF assms(9)] fam by (simp add: resolveWireGuardFamily_def)
  show ?thesis
    using res assms(3,4,6,8) kernel_reply_at(1) [OF assms(10)] dev by (simp add: getWireGuardDevice_def)
qed

definition peer_ex :: peer_config where
  "peer_ex = \<lparr>wp_publicKey = replicate 32 1, wp_endpoint = [], wp_keepalive = 25,
     wp_allowedIps = [\<lparr>ai_address = IPv4Addr 0x0A4D0005, ai_cidrMask = 32\<rparr>], wp_remove = False\<rparr>"

lemma peer_tree_ex: "peer_tree qt0 peer_ex = [Nest 0 [Leaf 1 (replicate 32 1), Leaf 3 (le32 2), Leaf 5 (le16 25),
    Nest 9 [Nest 0 [Leaf 1 (le16 2), Leaf 2 (be32 0x0A4D0005), Leaf 3 [32]]]]]"
  by (simp add: peer_tree_def peer_ex_def endpoint_tree_def allowed_tree_def del: replicate_Suc)

lemma length_nla_ser: "length (nla_ser t) = 4 + length (nla_payload t) + length (nla_pad (of_nat (4 + length (nla_payload t))))"
  by (simp add: nla_ser_parts)

lemma peer_tree_ex_size: "length (nlas_ser (concat (map (peer_tree qt0) [peer_ex]))) = 88"
  by (simp add: peer_tree_ex length_nla_ser nla_pad_def nla_align_def be32_def del: nla_ser.simps replicate_Suc)

theorem device_message_decodes_witness:
  "nla_parse (length (set_nlmsg_len (set_device_message qt0 30 (qs ''wg0'') [] 51820 [peer_ex])))
      (drop 20 (set_nlmsg_len (set_device_message qt0 30 (qs ''wg0'') [] 51820 [peer_ex])))
    = Some [Leaf 2 [0x77, 0x67, 0x30, 0], Leaf 6 (le16 51820), Nest 8 (peer_tree qt0 peer_ex)]"
proof -
  have utf8: "to_utf8 qt0 (qs ''wg0'') = [0x77, 0x67, 0x30]"
    by (simp add: qt0_def qs_def enc_text_def enc_unit_def)
  have tree: "device_tree qt0 (qs ''wg0'') [] 51820 [peer_ex]
      = [Leaf 2 [0x77, 0x67, 0x30, 0], Leaf 6 (le16 51820), Nest 8 (peer_tree qt0 peer_ex)]"
    by (simp add: device_tree_def utf8)
  show ?thesis
    using device_message_decodes [where qt = qt0 and ifName = "qs ''wg0''" and peers = "[peer_ex]" and family = 30
        and privateKey = "[]" and listenPort = 51820, OF _ _ refl] peer_tree_ex_size
    unfolding tree utf8 by simp
qed

text \<open>A kernel that knows the family 30 and reports the port of a device.\<close>

definition kernel_ex :: "unit kernel" where
  "kernel_ex = \<lparr>kn_ifindex = (\<lambda>k n. 3), kn_socket = (\<lambda>k p. True),
     kn_talk = (\<lambda>k p m. (k, Reply (if length m = 36 then kernel_reply 16 (replicate 14 0) [Leaf 2 [0x77, 0], Leaf 1 (le16 30)] []
        else kernel_reply 30 (replicate 14 0) [Leaf 6 (le16 51820)] [0]) 64)),
     kn_pton = (\<lambda>n. Some 0x0A4D0002)\<rparr>"

theorem kernel_replies_read_witness:
  "getWireGuardDevice qt0 kernel_ex (qs ''wg0'') () = ((), Some \<lparr>ds_ifName = qs ''wg0'', ds_publicKey = [], ds_listenPort = 51820, ds_peers = []\<rparr>)"
proof -
  have fam: "family_of [Leaf 2 [0x77, 0], Leaf 1 (le16 30)] = 30"
    using lrd16_le16 [of "[]" 0 30 "[]"] by (simp add: family_of_def)
  have len: "length (set_nlmsg_len (family_request qt0)) = 36"
    "length (set_nlmsg_len (get_device_request qt0 30 (qs ''wg0''))) = 28"
    by (simp_all add: set_nlmsg_len_def family_request_def get_device_request_def put_ser length_nla_ser nlmsghdr_def
        genlmsghdr_def nla_pad_def nla_align_def qt0_def qs_def enc_text_def enc_unit_def del: nla_ser.simps)
  have port: "lrd16 (le16 51820) 0 = 51820" using lrd16_le16 [of "[]" 0 51820 "[]"] by simp
  show ?thesis
    using kernel_replies_read [where K = kernel_ex and k = "()" and qt = qt0 and ?k1.0 = "()" and ?k2.0 = "()"
        and ts = "[Leaf 2 [0x77, 0], Leaf 1 (le16 30)]" and us = "[Leaf 6 (le16 51820)]" and ty = 16 and ty' = 30
        and rest = "replicate 14 0" and rest' = "replicate 14 0" and junk = "[]" and junk' = "[0]"
        and len = 64 and len' = 64 and ifName = "qs ''wg0''"]
    unfolding fam using len port
    by (simp add: kernel_ex_def bits15 read_status_def Let_def nla_pad_def nla_align_def del: replicate_Suc)
qed

lemma halves_sum: "(a AND 0xFFFF0000) + (a AND 0xFFFF) = (a :: u32)"
proof -
  have m: "(0xFFFF0000 :: u32) = NOT 0xFFFF" by simp
  have "(a AND NOT 0xFFFF) + (a AND 0xFFFF) = (a AND NOT 0xFFFF) OR (a AND 0xFFFF)"
    by (rule disjunctive_add) (simp add: bit_simps)
  also have "\<dots> = a" by (rule bit_word_eqI) (auto simp: bit_simps)
  finally show ?thesis by (simp only: m)
qed

lemma low16: "(a :: u32) AND 0xFFFF = of_nat (unat a mod 65536)"
proof -
  have m: "(0xFFFF :: u32) = mask 16" by (simp add: mask_eq_exp_minus_1)
  have "a AND 0xFFFF = take_bit 16 a" by (simp only: m take_bit_eq_mask)
  also have "\<dots> = of_nat (unat (take_bit 16 a))" by simp
  also have "unat (take_bit 16 a) = unat a mod 2 ^ 16" by (simp only: unsigned_take_bit_eq) (simp only: take_bit_eq_mod)
  finally show ?thesis by (simp only: power_numeral Num.pow.simps Num.sqr.simps numeral_One)
qed

lemma in_subnet:
  "(a AND 0xFFFF0000 = (0x0A4D0000 :: u32) \<and> a AND 0xFFFF \<noteq> 0 \<and> a AND 0xFFFF \<noteq> 0xFFFF)
    \<longleftrightarrow> (\<exists>h. 0 < h \<and> h < 0xFFFF \<and> a = of_nat (0x0A4D0000 + h))" (is "?l = ?r")
proof
  assume l: ?l
  let ?h = "unat a mod 65536"
  have a: "a = of_nat (0x0A4D0000 + ?h)"
    using halves_sum [of a] l unfolding low16 by (simp only: of_nat_add of_nat_numeral)
  have "(of_nat ?h :: u32) \<noteq> 0" "(of_nat ?h :: u32) \<noteq> 0xFFFF"
    using l unfolding low16 [symmetric] by blast+
  moreover have "n = 0 \<Longrightarrow> (of_nat n :: u32) = 0" "n = 65535 \<Longrightarrow> (of_nat n :: u32) = 0xFFFF" for n :: nat
    by simp_all
  ultimately have "?h \<noteq> 0" "?h \<noteq> 65535" by blast+
  then have "0 < ?h \<and> ?h < 0xFFFF" using mod_less_divisor [of 65536 "unat a"] by linarith
  with a show ?r by blast
next
  assume ?r
  then obtain h where h: "0 < h" "h < 0xFFFF" "a = of_nat (0x0A4D0000 + h)" by blast
  have ua: "unat a = 0x0A4D0000 + h" unfolding h(3) using h(2) by (intro unat_of_nat_u32) simp
  have uh: "unat (of_nat h :: u32) = h" using h(2) by (intro unat_of_nat_u32) simp
  have m: "(0x0A4D0000 + h) mod 65536 = h" using h(2) mod_mult_self2 [of h 65536 2637] by (simp add: add.commute)
  have low: "a AND 0xFFFF = of_nat h" by (simp only: low16 ua m)
  have "(a AND 0xFFFF0000) + of_nat h = 0x0A4D0000 + of_nat h"
    using halves_sum [of a] unfolding low unfolding h(3) by (simp only: of_nat_add of_nat_numeral)
  then have "a AND 0xFFFF0000 = 0x0A4D0000" by (simp only: add_right_cancel)
  moreover have "(of_nat h :: u32) \<noteq> 0" "(of_nat h :: u32) \<noteq> 0xFFFF" using uh h(1,2) by auto
  ultimately show ?l using low by metis
qed

lemma subnet_mask: "push_bit (32 - 16) 0xFFFFFFFF = (0xFFFF0000 :: u32)" "NOT 0xFFFF0000 = (0xFFFF :: u32)"
  by simp_all

lemma tunnel_ip_range:
  assumes "host_parse qt (qs ''10.77.0.0'') = IPv4Addr 0x0A4D0000"
  shows "tunnel_ip_valid qt ip
    \<longleftrightarrow> (\<exists>h. 0 < h \<and> h < 0xFFFF \<and> host_parse qt ip = IPv4Addr (of_nat (0x0A4D0000 + h)))"
proof (cases "host_parse qt ip")
  case (IPv4Addr a)
  have "tunnel_ip_valid qt ip \<longleftrightarrow> a AND 0xFFFF0000 = 0x0A4D0000 \<and> a AND 0xFFFF \<noteq> 0 \<and> a AND 0xFFFF \<noteq> 0xFFFF"
    by (simp only: tunnel_ip_valid_def isSubnetValid_def Let_def assms IPv4Addr host_addr.simps subnet_mask) simp
  then show ?thesis using in_subnet [of a] IPv4Addr by simp
qed (simp_all add: tunnel_ip_valid_def isSubnetValid_def)

text \<open>
  C38: isSubnetValid with its default arguments accepts exactly the texts that parse to an
  IPv4 address 10.77.x.y other than 10.77.0.0 and 10.77.255.255.
\<close>

theorem subnet_valid_iff:
  assumes "host_parse qt (qs ''10.77.0.0'') = IPv4Addr 0x0A4D0000"
  shows "tunnel_ip_valid qt ip
    \<longleftrightarrow> (\<exists>h. 0 < h \<and> h < 0xFFFF \<and> host_parse qt ip = IPv4Addr (of_nat (0x0A4D0000 + h)))"
  by (rule tunnel_ip_range [OF assms])

theorem subnet_valid_iff_witness:
  "tunnel_ip_valid qt0 (qs ''10.77.0.5'') \<and> \<not> tunnel_ip_valid qt0 (qs ''192.168.1.50'')"
proof -
  have p: "host_parse qt0 (qs ''10.77.0.0'') = IPv4Addr 0x0A4D0000" "host_parse qt0 (qs ''10.77.0.5'') = IPv4Addr 0x0A4D0005"
    "host_parse qt0 (qs ''192.168.1.50'') = IPv4Addr 0xC0A80132"
    by (simp_all add: qt0_def dotted_quad_def qs_def)
  have "\<not> tunnel_ip_valid qt0 (qs ''192.168.1.50'')"
    by (simp add: tunnel_ip_valid_def isSubnetValid_def p Let_def)
  moreover have "tunnel_ip_valid qt0 (qs ''10.77.0.5'')"
    using subnet_valid_iff [OF p(1), of "qs ''10.77.0.5''"] p(2) by (intro iffD2 [OF subnet_valid_iff [OF p(1)]] exI [of _ 5]) simp
  ultimately show ?thesis by blast
qed

text \<open>
  \<open>P2PSocket::isValidPeerAddress\<close>, the check of src/network/p2p_socket.cpp for the address of a peer;
  \<open>addr_text\<close> is \<open>QHostAddress::toString\<close>. No code of the program calls it.
\<close>

definition isValidPeerAddress :: "qt_lib \<Rightarrow> (host_addr \<Rightarrow> qstring) \<Rightarrow> host_addr \<Rightarrow> bool \<Rightarrow> bool" where
  "isValidPeerAddress qt addr_text addr enforceWireGuardSubnet =
    (case addr of
       IPv4Addr a \<Rightarrow>
         if a = 0xFFFFFFFF \<or> a = 0 then False
         else if enforceWireGuardSubnet then tunnel_ip_valid qt (addr_text addr)
         else True
     | _ \<Rightarrow> False)"

lemma tunnel_peer_range:
  assumes "host_parse qt (qs ''10.77.0.0'') = IPv4Addr 0x0A4D0000" and "host_parse qt (addr_text addr) = addr"
    and "isValidPeerAddress qt addr_text addr True"
  shows "\<exists>h. 0 < h \<and> h < 0xFFFF \<and> addr = IPv4Addr (of_nat (0x0A4D0000 + h))"
  using assms(2,3) tunnel_ip_range [OF assms(1), of "addr_text addr"]
  by (auto simp: isValidPeerAddress_def split: host_addr.splits if_splits)


end
