(* ===== verification/WireGuard.thy ===== *)
theory WireGuard
  imports Netlink QMap QtInstance
begin

text \<open>
  \<open>WireGuardService\<close> of src/network/wireguard_service.cpp: the life of the tunnel and its
  peers. The state is the record \<open>wg\<close>: the members, the kernel beside them, and the signals
  emitted so far, oldest first. An error message is kept as its template and the arguments that are
  the program's own; the part that comes from \<open>strerror\<close> is left out.
\<close>

section \<open>State\<close>

datatype tunnel_status = TunnelDown | TunnelConfiguring | TunnelUp | TunnelError

datatype wg_error =
    InvalidVirtualIp qstring
  | InvalidPrivateKey
  | NoKernelSupport
  | CreateFailed qstring
  | ConfigureFailed
  | AssignFailed qstring qstring
  | BringUpFailed qstring
  | InvalidPeerKey
  | InvalidPeerIp qstring
  | PeerFailed qstring

datatype wg_signal = StatusChanged tunnel_status | ErrorOccurred wg_error | PeerAdded qstring | PeerRemoved qstring

record 'k wg =
  wg_status :: tunnel_status
  wg_interfaceName :: qstring
  wg_virtualIp :: qstring
  wg_listenPort :: u16
  wg_lastError :: "wg_error option"
  wg_peers :: "(qstring, peer_config) qmap"
  wg_createdByUs :: bool
  wg_kernel :: 'k
  wg_signals :: "wg_signal list"

definition wg_init :: "'k \<Rightarrow> 'k wg" where
  "wg_init k = \<lparr>wg_status = TunnelDown, wg_interfaceName = qs ''wg-meckchat'', wg_virtualIp = qs ''10.77.0.2'',
     wg_listenPort = 51820, wg_lastError = None, wg_peers = [], wg_createdByUs = False, wg_kernel = k, wg_signals = []\<rparr>"

definition wg_emit :: "wg_signal \<Rightarrow> 'k wg \<Rightarrow> 'k wg" where
  "wg_emit e s = s\<lparr>wg_signals := wg_signals s @ [e]\<rparr>"

text \<open>A call of \<open>NetlinkWireGuard\<close> moves the kernel and gives a result.\<close>

definition wg_call :: "('k \<Rightarrow> 'k \<times> 'a) \<Rightarrow> 'k wg \<Rightarrow> 'k wg \<times> 'a" where
  "wg_call f s = (case f (wg_kernel s) of (k, r) \<Rightarrow> (s\<lparr>wg_kernel := k\<rparr>, r))"

section \<open>Operations\<close>

definition wg_setStatus :: "tunnel_status \<Rightarrow> 'k wg \<Rightarrow> 'k wg" where
  "wg_setStatus st s = (if wg_status s \<noteq> st then wg_emit (StatusChanged st) (s\<lparr>wg_status := st\<rparr>) else s)"

definition wg_setError :: "wg_error \<Rightarrow> 'k wg \<Rightarrow> 'k wg" where
  "wg_setError e s = wg_emit (ErrorOccurred e) (wg_setStatus TunnelError (s\<lparr>wg_lastError := Some e\<rparr>))"

text \<open>The steps of \<open>startTunnel\<close> after the interface exists: device, address, link.\<close>

definition configureDevice :: "qt_lib \<Rightarrow> 'k kernel \<Rightarrow> bytes \<Rightarrow> 'k wg \<Rightarrow> 'k wg \<times> bool" where
  "configureDevice qt K rawPrivKey s =
    (if rawPrivKey \<noteq> []
     then wg_call (setWireGuardDevice qt K (wg_interfaceName s) rawPrivKey (wg_listenPort s) (qm_values (wg_peers s))) s
     else (s, True))"

definition finishStart :: "qt_lib \<Rightarrow> 'k kernel \<Rightarrow> bytes \<Rightarrow> 'k wg \<Rightarrow> 'k wg \<times> bool" where
  "finishStart qt K rawPrivKey s =
    (case configureDevice qt K rawPrivKey s of (s1, ok1) \<Rightarrow>
     if \<not> ok1 then (wg_setError ConfigureFailed s1, False)
     else case wg_call (setInterfaceAddress qt K (wg_interfaceName s1) (wg_virtualIp s1) 16) s1 of (s2, ok2) \<Rightarrow>
     if \<not> ok2 then (wg_setError (AssignFailed (wg_virtualIp s2) (wg_interfaceName s2)) s2, False)
     else case wg_call (setInterfaceUp qt K (wg_interfaceName s2) True) s2 of (s3, ok3) \<Rightarrow>
     if \<not> ok3 then (wg_setError (BringUpFailed (wg_interfaceName s3)) s3, False)
     else (wg_setStatus TunnelUp s3, True))"

definition startTunnel :: "qt_lib \<Rightarrow> 'k kernel \<Rightarrow> qstring \<Rightarrow> qstring \<Rightarrow> qstring \<Rightarrow> u16 \<Rightarrow> 'k wg \<Rightarrow> 'k wg \<times> bool" where
  "startTunnel qt K interfaceName virtualIp privateKeyBase64 listenPort s =
    (let s1 = wg_setStatus TunnelConfiguring
           (s\<lparr>wg_interfaceName := (if interfaceName = [] then qs ''wg-meckchat'' else interfaceName),
              wg_virtualIp := (if virtualIp = [] then qs ''10.77.0.2'' else virtualIp),
              wg_listenPort := (if listenPort = 0 then 51820 else listenPort)\<rparr>) in
     if \<not> tunnel_ip_valid qt (wg_virtualIp s1) then (wg_setError (InvalidVirtualIp (wg_virtualIp s1)) s1, False)
     else if privateKeyBase64 \<noteq> [] \<and> \<not> isValidBase64Key qt privateKeyBase64
     then (wg_setError InvalidPrivateKey s1, False)
     else
      let rawPrivKey = (if privateKeyBase64 \<noteq> [] then from_base64 qt privateKeyBase64 else []) in
      case wg_call (kernel_supports qt K) s1 of (s2, supported) \<Rightarrow>
      if \<not> supported then (wg_setError NoKernelSupport s2, False)
      else
       let existed = interfaceExists qt K (wg_interfaceName s2) (wg_kernel s2) in
       case wg_call (createInterface qt K (wg_interfaceName s2)) s2 of (s3, created) \<Rightarrow>
       if \<not> created then (wg_setError (CreateFailed (wg_interfaceName s3)) s3, False)
       else finishStart qt K rawPrivKey (s3\<lparr>wg_createdByUs := \<not> existed\<rparr>))"

definition stopTunnel :: "qt_lib \<Rightarrow> 'k kernel \<Rightarrow> 'k wg \<Rightarrow> 'k wg" where
  "stopTunnel qt K s =
    (if wg_status s = TunnelDown then s
     else
      let s1 = (if interfaceExists qt K (wg_interfaceName s) (wg_kernel s)
                then let s' = fst (wg_call (setInterfaceUp qt K (wg_interfaceName s) False) s) in
                  (if wg_createdByUs s'
                   then (fst (wg_call (deleteInterface qt K (wg_interfaceName s')) s'))\<lparr>wg_createdByUs := False\<rparr>
                   else s')
                else s) in
      wg_setStatus TunnelDown (s1\<lparr>wg_peers := []\<rparr>))"

definition peer_of :: "qt_lib \<Rightarrow> qstring \<Rightarrow> qstring \<Rightarrow> qstring \<Rightarrow> u16 \<Rightarrow> peer_config" where
  "peer_of qt peerPublicKeyBase64 peerVirtualIp endpoint persistentKeepalive =
    \<lparr>wp_publicKey = from_base64 qt peerPublicKeyBase64, wp_endpoint = endpoint, wp_keepalive = persistentKeepalive,
     wp_allowedIps = [\<lparr>ai_address = host_parse qt peerVirtualIp, ai_cidrMask = 32\<rparr>], wp_remove = False\<rparr>"

definition addPeer :: "qt_lib \<Rightarrow> 'k kernel \<Rightarrow> qstring \<Rightarrow> qstring \<Rightarrow> qstring \<Rightarrow> u16 \<Rightarrow> 'k wg \<Rightarrow> 'k wg \<times> bool" where
  "addPeer qt K peerPublicKeyBase64 peerVirtualIp endpoint persistentKeepalive s =
    (if \<not> isValidBase64Key qt peerPublicKeyBase64 then (wg_setError InvalidPeerKey s, False)
     else if \<not> tunnel_ip_valid qt peerVirtualIp then (wg_setError (InvalidPeerIp peerVirtualIp) s, False)
     else
      let peer = peer_of qt peerPublicKeyBase64 peerVirtualIp endpoint persistentKeepalive in
      case (if wg_status s = TunnelUp
            then wg_call (setWireGuardDevice qt K (wg_interfaceName s) [] 0 [peer]) s else (s, True)) of (s1, ok) \<Rightarrow>
      if \<not> ok then (wg_setError (PeerFailed peerPublicKeyBase64) s1, False)
      else (wg_emit (PeerAdded peerPublicKeyBase64)
              (s1\<lparr>wg_peers := qm_insert peerPublicKeyBase64 peer (wg_peers s1)\<rparr>), True))"

definition removed_peer :: "qt_lib \<Rightarrow> qstring \<Rightarrow> peer_config" where
  "removed_peer qt peerPublicKeyBase64 =
    \<lparr>wp_publicKey = from_base64 qt peerPublicKeyBase64, wp_endpoint = [], wp_keepalive = 25, wp_allowedIps = [], wp_remove = True\<rparr>"

definition removePeer :: "qt_lib \<Rightarrow> 'k kernel \<Rightarrow> qstring \<Rightarrow> 'k wg \<Rightarrow> 'k wg \<times> bool" where
  "removePeer qt K peerPublicKeyBase64 s =
    (if \<not> qm_contains (wg_peers s) peerPublicKeyBase64 then (s, True)
     else
      let peer = removed_peer qt peerPublicKeyBase64;
          s1 = (if wg_status s = TunnelUp
                then fst (wg_call (setWireGuardDevice qt K (wg_interfaceName s) [] 0 [peer]) s) else s) in
      (wg_emit (PeerRemoved peerPublicKeyBase64) (s1\<lparr>wg_peers := qm_remove peerPublicKeyBase64 (wg_peers s1)\<rparr>), True))"

definition isPeerConfigured :: "qstring \<Rightarrow> 'k wg \<Rightarrow> bool" where
  "isPeerConfigured peerPublicKeyBase64 s = qm_contains (wg_peers s) peerPublicKeyBase64"

definition wg_peers_list :: "'k wg \<Rightarrow> peer_config list" where
  "wg_peers_list s = qm_values (wg_peers s)"

section \<open>The requests a call makes\<close>

text \<open>The same kernel, writing down every request it is sent.\<close>

definition recording :: "'k kernel \<Rightarrow> ('k \<times> (nat \<times> bytes) list) kernel" where
  "recording K = \<lparr>kn_ifindex = (\<lambda>kl. kn_ifindex K (fst kl)), kn_socket = (\<lambda>kl. kn_socket K (fst kl)),
     kn_talk = (\<lambda>kl proto m. case kn_talk K (fst kl) proto m of (k', r) \<Rightarrow> ((k', snd kl @ [(proto, m)]), r)),
     kn_pton = kn_pton K\<rparr>"

lemma recording_simps [simp]:
  "kn_ifindex (recording K) kl = kn_ifindex K (fst kl)" "kn_socket (recording K) kl = kn_socket K (fst kl)"
  "kn_pton (recording K) = kn_pton K"
  "interfaceExists qt (recording K) n kl = interfaceExists qt K n (fst kl)"
  by (simp_all add: recording_def interfaceExists_def)

named_theorems logged

lemma send_logged [logged]:
  "snd (fst (sendNetlinkRequest (recording K) proto buf kl)) = snd kl @ [(proto, set_nlmsg_len buf)]"
  by (auto simp: sendNetlinkRequest_def recording_def split: prod.splits nl_reply.splits)

abbreviation family_query :: "qt_lib \<Rightarrow> nat \<times> bytes" where
  "family_query qt \<equiv> (NETLINK_GENERIC, set_nlmsg_len (family_request qt))"

lemma resolve_logged [logged]:
  "snd (fst (resolveWireGuardFamily qt (recording K) kl))
    = snd kl @ (if kn_socket K (fst kl) NETLINK_GENERIC then [family_query qt] else [])"
  by (auto simp: resolveWireGuardFamily_def recording_def split: prod.splits nl_reply.splits)

lemma supports_logged:
  "snd (kernel_supports qt (recording K) kl) \<Longrightarrow> snd (fst (kernel_supports qt (recording K) kl)) = snd kl @ [family_query qt]"
  using resolve_logged [of qt K kl]
  by (auto simp: kernel_supports_def case_prod_beta resolveWireGuardFamily_def split: if_splits)

lemma create_logged:
  "snd (createInterface qt (recording K) n kl) \<Longrightarrow> snd (fst (createInterface qt (recording K) n kl))
    = snd kl @ (if interfaceExists qt K n (fst kl) then [] else [(NETLINK_ROUTE, set_nlmsg_len (create_message qt n))])"
  using send_logged [of K NETLINK_ROUTE "create_message qt n" kl]
  by (auto simp: createInterface_def case_prod_beta split: if_splits)

lemma device_logged:
  assumes "snd (setWireGuardDevice qt (recording K) n key port ps kl)"
  shows "\<exists>f > 0. snd (fst (setWireGuardDevice qt (recording K) n key port ps kl))
    = snd kl @ [family_query qt, (NETLINK_GENERIC, set_nlmsg_len (set_device_message qt (word_of_int f) n key port ps))]"
proof -
  obtain kl1 f where r: "resolveWireGuardFamily qt (recording K) kl = (kl1, f)" by fastforce
  have f: "0 < f" using assms by (simp add: setWireGuardDevice_def r split: if_splits)
  have "snd kl1 = snd kl @ [family_query qt]"
    using supports_logged [of qt K kl] f by (simp add: kernel_supports_def r)
  then have "snd (fst (setWireGuardDevice qt (recording K) n key port ps kl))
    = snd kl @ [family_query qt, (NETLINK_GENERIC, set_nlmsg_len (set_device_message qt (word_of_int f) n key port ps))]"
    using assms f send_logged [of K NETLINK_GENERIC "set_device_message qt (word_of_int f) n key port ps" kl1]
    by (auto simp: setWireGuardDevice_def r case_prod_beta split: if_splits)
  with f show ?thesis by blast
qed

lemma address_logged:
  "snd (setInterfaceAddress qt (recording K) n ip p kl) \<Longrightarrow> \<exists>a i. i \<noteq> 0 \<and> kn_pton K (to_utf8 qt ip) = Some a
    \<and> snd (fst (setInterfaceAddress qt (recording K) n ip p kl))
      = snd kl @ [(NETLINK_ROUTE, set_nlmsg_len (address_message a (word_of_int p) i))]"
  by (auto simp: setInterfaceAddress_def Let_def case_prod_beta logged split: if_splits option.splits)

lemma up_logged:
  "snd (setInterfaceUp qt (recording K) n up kl) \<Longrightarrow>
    \<exists>i. i \<noteq> 0 \<and> snd (fst (setInterfaceUp qt (recording K) n up kl)) = snd kl @ [(NETLINK_ROUTE, set_nlmsg_len (up_message i up))]"
  by (auto simp: setInterfaceUp_def Let_def case_prod_beta logged split: if_splits)

lemma up_logged_most:
  "snd (fst (setInterfaceUp qt (recording K) n up kl)) = snd kl
    \<or> (\<exists>i. snd (fst (setInterfaceUp qt (recording K) n up kl)) = snd kl @ [(NETLINK_ROUTE, set_nlmsg_len (up_message i up))])"
  by (auto simp: setInterfaceUp_def Let_def case_prod_beta logged)

section \<open>What a call leaves alone\<close>

lemma wg_call_simps [simp]:
  "fst (wg_call f s) = s\<lparr>wg_kernel := fst (f (wg_kernel s))\<rparr>" "snd (wg_call f s) = snd (f (wg_kernel s))"
  by (simp_all add: wg_call_def case_prod_beta)

lemma wg_setStatus_simps [simp]:
  "wg_status (wg_setStatus st s) = st" "wg_interfaceName (wg_setStatus st s) = wg_interfaceName s"
  "wg_virtualIp (wg_setStatus st s) = wg_virtualIp s" "wg_listenPort (wg_setStatus st s) = wg_listenPort s"
  "wg_lastError (wg_setStatus st s) = wg_lastError s" "wg_peers (wg_setStatus st s) = wg_peers s"
  "wg_createdByUs (wg_setStatus st s) = wg_createdByUs s" "wg_kernel (wg_setStatus st s) = wg_kernel s"
  by (simp_all add: wg_setStatus_def wg_emit_def)

lemma wg_setError_simps [simp]:
  "wg_status (wg_setError e s) = TunnelError" "wg_interfaceName (wg_setError e s) = wg_interfaceName s"
  "wg_virtualIp (wg_setError e s) = wg_virtualIp s" "wg_listenPort (wg_setError e s) = wg_listenPort s"
  "wg_lastError (wg_setError e s) = Some e" "wg_peers (wg_setError e s) = wg_peers s"
  "wg_createdByUs (wg_setError e s) = wg_createdByUs s" "wg_kernel (wg_setError e s) = wg_kernel s"
  by (simp_all add: wg_setError_def wg_emit_def)


lemma configureDevice_frame:
  "\<exists>k. fst (configureDevice qt K raw s) = s\<lparr>wg_kernel := k\<rparr>"
  unfolding configureDevice_def by (cases "raw = []") (auto intro: exI [of _ "wg_kernel s"])

lemma wg_call_frame: "wg_call f s = (s', r) \<Longrightarrow> \<exists>k. s' = s\<lparr>wg_kernel := k\<rparr>"
  by (auto simp: wg_call_def case_prod_beta)

lemma finishStart_cases:
  obtains (ok) k where "finishStart qt K raw s = (wg_setStatus TunnelUp (s\<lparr>wg_kernel := k\<rparr>), True)"
  | (failed) k e where "finishStart qt K raw s = (wg_setError e (s\<lparr>wg_kernel := k\<rparr>), False)"
proof -
  obtain s1 o1 where w1: "configureDevice qt K raw s = (s1, o1)" by fastforce
  obtain s2 o2 where w2: "wg_call (setInterfaceAddress qt K (wg_interfaceName s1) (wg_virtualIp s1) 16) s1 = (s2, o2)" by fastforce
  obtain s3 o3 where w3: "wg_call (setInterfaceUp qt K (wg_interfaceName s2) True) s2 = (s3, o3)" by fastforce
  obtain k1 where s1: "s1 = s\<lparr>wg_kernel := k1\<rparr>" using configureDevice_frame [of qt K raw s] w1 by auto
  obtain k2 where s2: "s2 = s\<lparr>wg_kernel := k2\<rparr>" using wg_call_frame [OF w2] s1 by auto
  obtain k3 where s3: "s3 = s\<lparr>wg_kernel := k3\<rparr>" using wg_call_frame [OF w3] s2 by auto
  have "finishStart qt K raw s =
    (if \<not> o1 then (wg_setError ConfigureFailed s1, False)
     else if \<not> o2 then (wg_setError (AssignFailed (wg_virtualIp s2) (wg_interfaceName s2)) s2, False)
     else if \<not> o3 then (wg_setError (BringUpFailed (wg_interfaceName s3)) s3, False)
     else (wg_setStatus TunnelUp s3, True))"
    by (simp add: finishStart_def w1 w2 w3)
  then show thesis using that unfolding s1 s2 s3 by (auto split: if_splits)
qed

definition start_config :: "qstring \<Rightarrow> qstring \<Rightarrow> u16 \<Rightarrow> 'k wg \<Rightarrow> 'k wg" where
  "start_config interfaceName virtualIp listenPort s = wg_setStatus TunnelConfiguring
     (s\<lparr>wg_interfaceName := (if interfaceName = [] then qs ''wg-meckchat'' else interfaceName),
        wg_virtualIp := (if virtualIp = [] then qs ''10.77.0.2'' else virtualIp),
        wg_listenPort := (if listenPort = 0 then 51820 else listenPort)\<rparr>)"

lemma wg_swap: "s\<lparr>wg_kernel := k, wg_createdByUs := b\<rparr> = s\<lparr>wg_createdByUs := b, wg_kernel := k\<rparr>"
  by simp

lemma startTunnel_cases:
  obtains (ok) k own where "startTunnel qt K n ip key port s
      = (wg_setStatus TunnelUp ((start_config n ip port s)\<lparr>wg_createdByUs := own, wg_kernel := k\<rparr>), True)"
    and "tunnel_ip_valid qt (wg_virtualIp (start_config n ip port s))"
  | (failed) k own e where "startTunnel qt K n ip key port s
      = (wg_setError e ((start_config n ip port s)\<lparr>wg_createdByUs := own, wg_kernel := k\<rparr>), False)"
proof -
  let ?c = "start_config n ip port s" and ?raw = "if key \<noteq> [] then from_base64 qt key else []"
  obtain s2 su where w2: "wg_call (kernel_supports qt K) ?c = (s2, su)" by fastforce
  obtain s3 cr where w3: "wg_call (createInterface qt K (wg_interfaceName s2)) s2 = (s3, cr)" by fastforce
  define ex where "ex = interfaceExists qt K (wg_interfaceName s2) (wg_kernel s2)"
  have s2: "\<exists>k. s2 = ?c\<lparr>wg_kernel := k\<rparr>" by (rule wg_call_frame [OF w2])
  have s3': "\<exists>k. s3 = s2\<lparr>wg_kernel := k\<rparr>" by (rule wg_call_frame [OF w3])
  from s2 s3' obtain k3 where "s3 = ?c\<lparr>wg_kernel := k3\<rparr>" by auto
  then have s3: "s3\<lparr>wg_createdByUs := \<not> ex\<rparr> = ?c\<lparr>wg_createdByUs := \<not> ex, wg_kernel := k3\<rparr>" by (simp add: wg_swap)
  have start: "startTunnel qt K n ip key port s =
    (if \<not> tunnel_ip_valid qt (wg_virtualIp ?c) then (wg_setError (InvalidVirtualIp (wg_virtualIp ?c)) ?c, False)
     else if key \<noteq> [] \<and> \<not> isValidBase64Key qt key then (wg_setError InvalidPrivateKey ?c, False)
     else if \<not> su then (wg_setError NoKernelSupport s2, False)
     else if \<not> cr then (wg_setError (CreateFailed (wg_interfaceName s3)) s3, False)
     else finishStart qt K ?raw (s3\<lparr>wg_createdByUs := \<not> ex\<rparr>))"
    by (simp add: startTunnel_def start_config_def [symmetric] Let_def w2 w3 ex_def)
  obtain k2 where k2: "s2 = ?c\<lparr>wg_createdByUs := wg_createdByUs ?c, wg_kernel := k2\<rparr>" using s2 by auto
  obtain k4 where k4: "s3 = ?c\<lparr>wg_createdByUs := wg_createdByUs ?c, wg_kernel := k4\<rparr>" using s2 s3' by auto
  have c: "?c = ?c\<lparr>wg_createdByUs := wg_createdByUs ?c, wg_kernel := wg_kernel ?c\<rparr>" by simp
  show thesis
  proof (cases "tunnel_ip_valid qt (wg_virtualIp ?c) \<and> (key = [] \<or> isValidBase64Key qt key) \<and> su \<and> cr")
    case True
    then have run: "startTunnel qt K n ip key port s = finishStart qt K ?raw (?c\<lparr>wg_createdByUs := \<not> ex, wg_kernel := k3\<rparr>)"
      using start s3 by auto
    show thesis
      by (rule finishStart_cases [of qt K ?raw "?c\<lparr>wg_createdByUs := \<not> ex, wg_kernel := k3\<rparr>"])
        (use run True that(1) [where own = "\<not> ex"] that(2) [where own = "\<not> ex"] in auto)
  next
    case False
    then consider "startTunnel qt K n ip key port s = (wg_setError (InvalidVirtualIp (wg_virtualIp ?c)) ?c, False)"
      | "startTunnel qt K n ip key port s = (wg_setError InvalidPrivateKey ?c, False)"
      | "startTunnel qt K n ip key port s = (wg_setError NoKernelSupport s2, False)"
      | "startTunnel qt K n ip key port s = (wg_setError (CreateFailed (wg_interfaceName s3)) s3, False)"
      using start by (auto split: if_splits)
    then show thesis
      using that(2) c k2 k4 by cases metis+
  qed
qed


section \<open>Reachable states\<close>

datatype wg_input =
    StartTunnel qstring qstring qstring u16
  | StopTunnel
  | AddPeer qstring qstring qstring u16
  | RemovePeer qstring

definition wg_step :: "qt_lib \<Rightarrow> 'k kernel \<Rightarrow> wg_input \<Rightarrow> 'k wg \<Rightarrow> 'k wg" where
  "wg_step qt K i s =
    (case i of
       StartTunnel n ip key port \<Rightarrow> fst (startTunnel qt K n ip key port s)
     | StopTunnel \<Rightarrow> stopTunnel qt K s
     | AddPeer key ip ep ka \<Rightarrow> fst (addPeer qt K key ip ep ka s)
     | RemovePeer key \<Rightarrow> fst (removePeer qt K key s))"

text \<open>Between two calls the kernel may change by itself.\<close>

inductive wg_reach :: "qt_lib \<Rightarrow> 'k kernel \<Rightarrow> 'k wg \<Rightarrow> bool" for qt K where
  start: "wg_reach qt K (wg_init k)"
| step: "wg_reach qt K s \<Longrightarrow> wg_reach qt K (wg_step qt K i s)"
| kernel: "wg_reach qt K s \<Longrightarrow> wg_reach qt K (s\<lparr>wg_kernel := k\<rparr>)"

text \<open>The status a listener of the signals knows.\<close>

definition announced :: "wg_signal list \<Rightarrow> tunnel_status" where
  "announced = foldl (\<lambda>st e. case e of StatusChanged st' \<Rightarrow> st' | _ \<Rightarrow> st) TunnelDown"

definition peer_entry :: "qt_lib \<Rightarrow> qstring \<times> peer_config \<Rightarrow> bool" where
  "peer_entry qt e \<longleftrightarrow> isValidBase64Key qt (fst e)
    \<and> (\<exists>ip endpoint keepalive. tunnel_ip_valid qt ip \<and> snd e = peer_of qt (fst e) ip endpoint keepalive)"

definition wg_base :: "qt_lib \<Rightarrow> 'k wg \<Rightarrow> bool" where
  "wg_base qt s \<longleftrightarrow> qm_ok (wg_peers s) \<and> list_all (peer_entry qt) (wg_peers s)
    \<and> wg_interfaceName s \<noteq> [] \<and> wg_listenPort s \<noteq> 0 \<and> announced (wg_signals s) = wg_status s"

definition wg_inv :: "qt_lib \<Rightarrow> 'k wg \<Rightarrow> bool" where
  "wg_inv qt s \<longleftrightarrow> wg_base qt s \<and> wg_status s \<noteq> TunnelConfiguring
    \<and> (wg_status s = TunnelUp \<longrightarrow> tunnel_ip_valid qt (wg_virtualIp s))
    \<and> (wg_status s = TunnelError \<longrightarrow> wg_lastError s \<noteq> None)"

lemma announced_snoc [simp]:
  "announced (es @ [e]) = (case e of StatusChanged st \<Rightarrow> st | _ \<Rightarrow> announced es)" "announced [] = TunnelDown"
  by (simp_all add: announced_def split: wg_signal.split)

named_theorems base_intros

lemma base_setStatus [base_intros]: "wg_base qt s \<Longrightarrow> wg_base qt (wg_setStatus st s)"
  by (simp add: wg_base_def wg_setStatus_def wg_emit_def)

lemma base_setError [base_intros]: "wg_base qt s \<Longrightarrow> wg_base qt (wg_setError e s)"
  unfolding wg_setError_def wg_setStatus_def by (simp add: wg_base_def wg_emit_def)

lemma base_updates [base_intros]:
  "wg_base qt s \<Longrightarrow> wg_base qt (s\<lparr>wg_kernel := k\<rparr>)"
  "wg_base qt s \<Longrightarrow> wg_base qt (s\<lparr>wg_createdByUs := b\<rparr>)"
  "wg_base qt s \<Longrightarrow> wg_base qt (s\<lparr>wg_createdByUs := b, wg_kernel := k\<rparr>)"
  "wg_base qt s \<Longrightarrow> wg_base qt (s\<lparr>wg_peers := []\<rparr>)"
  by (simp_all add: wg_base_def)

lemma base_config [base_intros]: "wg_base qt s \<Longrightarrow> wg_base qt (start_config n ip port s)"
  unfolding start_config_def by (rule base_setStatus) (simp add: wg_base_def)

lemma inv_error: "wg_base qt s \<Longrightarrow> wg_inv qt (wg_setError e s)"
  by (simp add: wg_inv_def base_intros)

lemma inv_startTunnel: "wg_inv qt s \<Longrightarrow> wg_inv qt (fst (startTunnel qt K n ip key port s))"
  by (rule startTunnel_cases [of qt K n ip key port s]) (auto simp: wg_inv_def intro!: base_intros)

lemma stopTunnel_frame:
  assumes "wg_status s \<noteq> TunnelDown"
  shows "\<exists>own k. stopTunnel qt K s = wg_setStatus TunnelDown (s\<lparr>wg_peers := [], wg_createdByUs := own, wg_kernel := k\<rparr>)"
proof -
  let ?up = "\<lambda>s. fst (wg_call (setInterfaceUp qt K (wg_interfaceName s) False) s)"
  have eq: "x = y \<Longrightarrow> wg_setStatus TunnelDown x = wg_setStatus TunnelDown y" for x y :: "'a wg" by simp
  show ?thesis
  proof (cases "interfaceExists qt K (wg_interfaceName s) (wg_kernel s) \<and> wg_createdByUs s")
    case True
    then show ?thesis using assms
      by (intro exI [of _ False] exI [of _ "fst (deleteInterface qt K (wg_interfaceName s) (wg_kernel (?up s)))"])
        (simp add: stopTunnel_def Let_def, rule eq, simp)
  next
    case False
    then show ?thesis using assms
      by (intro exI [of _ "wg_createdByUs s"] exI [of _ "wg_kernel (if interfaceExists qt K (wg_interfaceName s) (wg_kernel s) then ?up s else s)"])
        (simp add: stopTunnel_def Let_def, intro conjI impI, (rule eq, simp)+)
  qed
qed


lemma inv_stopTunnel: "wg_inv qt s \<Longrightarrow> wg_inv qt (stopTunnel qt K s)"
proof (cases "wg_status s = TunnelDown")
  case False
  then obtain own k where e: "stopTunnel qt K s = wg_setStatus TunnelDown (s\<lparr>wg_peers := [], wg_createdByUs := own, wg_kernel := k\<rparr>)"
    using stopTunnel_frame [of s qt K] by blast
  assume i: "wg_inv qt s"
  then have "wg_base qt (s\<lparr>wg_peers := [], wg_createdByUs := own, wg_kernel := k\<rparr>)" by (simp add: wg_inv_def wg_base_def)
  then show ?thesis unfolding e by (simp add: wg_inv_def base_setStatus)
qed (simp add: stopTunnel_def)

lemma addPeer_cases:
  obtains (added) k where "addPeer qt K key ip ep ka s = (wg_emit (PeerAdded key)
        (s\<lparr>wg_peers := qm_insert key (peer_of qt key ip ep ka) (wg_peers s), wg_kernel := k\<rparr>), True)"
    and "isValidBase64Key qt key" and "tunnel_ip_valid qt ip" and "wg_status s \<noteq> TunnelUp \<Longrightarrow> k = wg_kernel s"
  | (refused) k e where "addPeer qt K key ip ep ka s = (wg_setError e (s\<lparr>wg_kernel := k\<rparr>), False)"
      and "\<not> isValidBase64Key qt key \<or> \<not> tunnel_ip_valid qt ip \<Longrightarrow> k = wg_kernel s"
proof -
  obtain s1 ok where c: "(if wg_status s = TunnelUp
            then wg_call (setWireGuardDevice qt K (wg_interfaceName s) [] 0 [peer_of qt key ip ep ka]) s else (s, True)) = (s1, ok)"
    by fastforce
  obtain k where s1: "s1 = s\<lparr>wg_kernel := k\<rparr>" and k: "wg_status s \<noteq> TunnelUp \<Longrightarrow> k = wg_kernel s"
    using c wg_call_frame [of "setWireGuardDevice qt K (wg_interfaceName s) [] 0 [peer_of qt key ip ep ka]" s s1 ok]
    by (cases "wg_status s = TunnelUp") (auto intro: that)
  have "addPeer qt K key ip ep ka s =
    (if \<not> isValidBase64Key qt key then (wg_setError InvalidPeerKey s, False)
     else if \<not> tunnel_ip_valid qt ip then (wg_setError (InvalidPeerIp ip) s, False)
     else if \<not> ok then (wg_setError (PeerFailed key) s1, False)
     else (wg_emit (PeerAdded key) (s1\<lparr>wg_peers := qm_insert key (peer_of qt key ip ep ka) (wg_peers s1)\<rparr>), True))"
    unfolding addPeer_def Let_def c by simp
  then consider "addPeer qt K key ip ep ka s = (wg_setError InvalidPeerKey s, False)"
    | "addPeer qt K key ip ep ka s = (wg_setError (InvalidPeerIp ip) s, False)"
    | "addPeer qt K key ip ep ka s = (wg_setError (PeerFailed key) s1, False)" "isValidBase64Key qt key" "tunnel_ip_valid qt ip"
    | "addPeer qt K key ip ep ka s = (wg_emit (PeerAdded key) (s1\<lparr>wg_peers := qm_insert key (peer_of qt key ip ep ka) (wg_peers s1)\<rparr>), True)"
      "isValidBase64Key qt key" "tunnel_ip_valid qt ip"
    by (auto split: if_splits)
  then show thesis
  proof cases
    case 1
    then show thesis using that(2) [of InvalidPeerKey "wg_kernel s"] by simp
  next
    case 2
    then show thesis using that(2) [of "InvalidPeerIp ip" "wg_kernel s"] by simp
  next
    case 3
    then show thesis using that(2) [of "PeerFailed key" k] by (simp add: s1)
  next
    case 4
    moreover have "s1\<lparr>wg_peers := qm_insert key p (wg_peers s1)\<rparr> = s\<lparr>wg_peers := qm_insert key p (wg_peers s), wg_kernel := k\<rparr>" for p
      by (simp add: s1)
    ultimately show thesis using that(1) [of k] k by simp
  qed
qed

lemma peer_entry_peer_of: "isValidBase64Key qt key \<Longrightarrow> tunnel_ip_valid qt ip \<Longrightarrow> peer_entry qt (key, peer_of qt key ip ep ka)"
  unfolding peer_entry_def fst_conv snd_conv by blast

lemma base_addPeer:
  "wg_base qt s \<Longrightarrow> isValidBase64Key qt key \<Longrightarrow> tunnel_ip_valid qt ip \<Longrightarrow>
    wg_base qt (wg_emit (PeerAdded key) (s\<lparr>wg_peers := qm_insert key (peer_of qt key ip ep ka) (wg_peers s), wg_kernel := k\<rparr>))"
  by (simp add: wg_base_def wg_emit_def list_all_qm_insert peer_entry_peer_of)

lemma inv_addPeer: "wg_inv qt s \<Longrightarrow> wg_inv qt (fst (addPeer qt K key ip ep ka s))"
proof (rule addPeer_cases [of qt K key ip ep ka s])
  fix k assume "wg_inv qt s"
    and a: "addPeer qt K key ip ep ka s = (wg_emit (PeerAdded key)
        (s\<lparr>wg_peers := qm_insert key (peer_of qt key ip ep ka) (wg_peers s), wg_kernel := k\<rparr>), True)"
    and v: "isValidBase64Key qt key" "tunnel_ip_valid qt ip"
  then show ?thesis using base_addPeer [OF _ v, where s = s and ep = ep and ka = ka and k = k]
    by (simp add: wg_inv_def) (simp add: wg_emit_def)
next
  fix k e assume "wg_inv qt s" and a: "addPeer qt K key ip ep ka s = (wg_setError e (s\<lparr>wg_kernel := k\<rparr>), False)"
  then show ?thesis unfolding a fst_conv by (intro inv_error base_updates(1)) (simp add: wg_inv_def)
qed

lemma removePeer_frame:
  assumes "isPeerConfigured key s"
  shows "\<exists>k. fst (removePeer qt K key s)
    = wg_emit (PeerRemoved key) (s\<lparr>wg_peers := qm_remove key (wg_peers s), wg_kernel := k\<rparr>)"
proof -
  let ?s1 = "if wg_status s = TunnelUp then fst (wg_call (setWireGuardDevice qt K (wg_interfaceName s) [] 0 [removed_peer qt key]) s) else s"
  obtain k where s1: "?s1 = s\<lparr>wg_kernel := k\<rparr>" by (cases "wg_status s = TunnelUp") (auto intro: that [of "wg_kernel s"])
  have "fst (removePeer qt K key s) = wg_emit (PeerRemoved key) (s\<lparr>wg_kernel := k, wg_peers := qm_remove key (wg_peers s)\<rparr>)"
    using assms unfolding removePeer_def isPeerConfigured_def Let_def s1 by simp
  also have "s\<lparr>wg_kernel := k, wg_peers := qm_remove key (wg_peers s)\<rparr> = s\<lparr>wg_peers := qm_remove key (wg_peers s), wg_kernel := k\<rparr>"
    by simp
  finally show ?thesis by blast
qed

lemma inv_removePeer: "wg_inv qt s \<Longrightarrow> wg_inv qt (fst (removePeer qt K key s))"
proof (cases "isPeerConfigured key s")
  case True
  assume i: "wg_inv qt s"
  obtain k where e: "fst (removePeer qt K key s) = wg_emit (PeerRemoved key) (s\<lparr>wg_peers := qm_remove key (wg_peers s), wg_kernel := k\<rparr>)"
    using removePeer_frame [OF True, of qt K] by blast
  show ?thesis using i unfolding e
    by (simp add: wg_inv_def wg_base_def wg_emit_def qm_remove_def list_all_filter) (simp add: qm_remove_def [symmetric])
qed (simp add: removePeer_def isPeerConfigured_def)

lemma wg_reach_inv: "wg_reach qt K s \<Longrightarrow> wg_inv qt s"
proof (induction rule: wg_reach.induct)
  case (start k)
  show ?case by (simp add: wg_inv_def wg_base_def wg_init_def)
next
  case (step s i)
  then show ?case
    by (cases i) (simp_all add: wg_step_def inv_startTunnel inv_stopTunnel inv_addPeer inv_removePeer)
next
  case (kernel s k)
  then show ?case by (simp add: wg_inv_def base_updates)
qed


section \<open>What holds of the tunnel\<close>

text \<open>Qt decodes Base64 leniently: white space around the text makes no difference.\<close>

definition base64_trim :: "qt_lib \<Rightarrow> bool" where
  "base64_trim qt \<longleftrightarrow> (\<forall>s. from_base64 qt (q_trimmed s) = from_base64 qt s)"

lemma valid_key_length: "base64_trim qt \<Longrightarrow> isValidBase64Key qt key \<Longrightarrow> length (from_base64 qt key) = 32"
  by (simp add: isValidBase64Key_def base64_trim_def split: if_splits)

lemma stored_peer:
  assumes "wg_base qt s" and "p \<in> set (wg_peers_list s)"
  obtains key ip endpoint keepalive where "isValidBase64Key qt key" and "tunnel_ip_valid qt ip"
    and "p = peer_of qt key ip endpoint keepalive"
  using assms by (auto simp: wg_base_def wg_peers_list_def qm_values_def list_all_iff peer_entry_def)

text \<open>
  C21: In every reachable state of the service each stored peer has a 32-byte key and
  exactly one allowed address, a /32 host of 10.77.0.0/16; the status last signalled is the
  status, it is never left at Configuring, and it is Up only with a valid own address.
\<close>

theorem tunnel_peers_invariant:
  assumes "wg_reach qt K s" and "base64_trim qt" and "host_parse qt (qs ''10.77.0.0'') = IPv4Addr 0x0A4D0000"
  shows "(\<forall>p \<in> set (wg_peers_list s). length (wp_publicKey p) = 32 \<and> \<not> wp_remove p
      \<and> (\<exists>h. 0 < h \<and> h < 0xFFFF \<and> wp_allowedIps p = [\<lparr>ai_address = IPv4Addr (of_nat (0x0A4D0000 + h)), ai_cidrMask = 32\<rparr>]))
    \<and> announced (wg_signals s) = wg_status s \<and> wg_status s \<noteq> TunnelConfiguring
    \<and> (wg_status s = TunnelUp \<longrightarrow> tunnel_ip_valid qt (wg_virtualIp s))
    \<and> (wg_status s = TunnelError \<longrightarrow> wg_lastError s \<noteq> None)"
proof -
  have i: "wg_inv qt s" by (rule wg_reach_inv [OF assms(1)])
  then have b: "wg_base qt s" by (simp add: wg_inv_def)
  have "length (wp_publicKey p) = 32 \<and> \<not> wp_remove p
      \<and> (\<exists>h. 0 < h \<and> h < 0xFFFF \<and> wp_allowedIps p = [\<lparr>ai_address = IPv4Addr (of_nat (0x0A4D0000 + h)), ai_cidrMask = 32\<rparr>])"
    if m: "p \<in> set (wg_peers_list s)" for p
  proof -
    obtain key ip ep ka where p: "isValidBase64Key qt key" "tunnel_ip_valid qt ip" "p = peer_of qt key ip ep ka"
      by (rule stored_peer [OF b m])
    obtain h where "0 < h" "h < 0xFFFF" "host_parse qt ip = IPv4Addr (of_nat (0x0A4D0000 + h))"
      using p(2) tunnel_ip_range [OF assms(3)] by blast
    then show ?thesis using valid_key_length [OF assms(2) p(1)] unfolding p(3) peer_of_def by (auto simp del: of_nat_add)
  qed
  with i show ?thesis by (simp add: wg_inv_def wg_base_def)
qed

text \<open>Calls that change the peers; in the state Error none of them reaches the kernel.\<close>

fun peer_call :: "wg_input \<Rightarrow> bool" where
  "peer_call (AddPeer key ip ep ka) = True"
| "peer_call (RemovePeer key) = True"
| "peer_call _ = False"

lemma call_in_error:
  "peer_call i \<Longrightarrow> wg_status s = TunnelError \<Longrightarrow>
    wg_status (wg_step qt K i s) = TunnelError \<and> wg_kernel (wg_step qt K i s) = wg_kernel s"
  by (cases i) (simp_all add: wg_step_def addPeer_def removePeer_def Let_def wg_emit_def)

lemma fold_in_error:
  "list_all peer_call calls \<Longrightarrow> wg_status s = TunnelError \<Longrightarrow>
    wg_status (fold (wg_step qt K) calls s) = TunnelError \<and> wg_kernel (fold (wg_step qt K) calls s) = wg_kernel s"
  by (induction calls arbitrary: s) (simp_all add: call_in_error)

text \<open>
  C39: On a running tunnel one addPeer call with an invalid key sets the status to Error.
  Through any sequence of addPeer and removePeer calls after it (as long as the tunnel is
  neither started nor stopped) the status stays Error and the kernel is not called, and in
  each state on the way addPeer of a valid peer returns true and stores it.
\<close>

theorem peer_after_error_not_configured:
  assumes "wg_status s = TunnelUp" and "\<not> isValidBase64Key qt bad" and "list_all peer_call calls"
    and "s1 = fold (wg_step qt K) calls (fst (addPeer qt K bad ip' endpoint' keepalive' s))"
  shows "wg_status s1 = TunnelError \<and> wg_kernel s1 = wg_kernel s
    \<and> (\<forall>key ip endpoint keepalive. isValidBase64Key qt key \<longrightarrow> tunnel_ip_valid qt ip \<longrightarrow>
        (\<exists>s2. addPeer qt K key ip endpoint keepalive s1 = (s2, True) \<and> isPeerConfigured key s2
          \<and> wg_status s2 = TunnelError \<and> wg_kernel s2 = wg_kernel s))"
proof -
  have "wg_status (fst (addPeer qt K bad ip' endpoint' keepalive' s)) = TunnelError
      \<and> wg_kernel (fst (addPeer qt K bad ip' endpoint' keepalive' s)) = wg_kernel s"
    using assms(2) by (simp add: addPeer_def)
  with fold_in_error [OF assms(3)] assms(4) have "wg_status s1 = TunnelError \<and> wg_kernel s1 = wg_kernel s" by metis
  then show ?thesis by (auto simp: addPeer_def Let_def isPeerConfigured_def wg_emit_def qm_contains_iff)
qed

text \<open>A start that succeeds, call by call.\<close>

lemma finishStart_ok:
  assumes "finishStart qt K raw s = (s', True)"
  obtains k3 k4 k5 where "if raw = [] then k3 = wg_kernel s
      else setWireGuardDevice qt K (wg_interfaceName s) raw (wg_listenPort s) (qm_values (wg_peers s)) (wg_kernel s) = (k3, True)"
    and "setInterfaceAddress qt K (wg_interfaceName s) (wg_virtualIp s) 16 k3 = (k4, True)"
    and "setInterfaceUp qt K (wg_interfaceName s) True k4 = (k5, True)"
    and "s' = wg_setStatus TunnelUp (s\<lparr>wg_kernel := k5\<rparr>)"
proof -
  obtain k3 o1 where w1: "configureDevice qt K raw s = (s\<lparr>wg_kernel := k3\<rparr>, o1)"
    using configureDevice_frame [of qt K raw s] by (metis prod.collapse)
  obtain k4 o2 where w2: "setInterfaceAddress qt K (wg_interfaceName s) (wg_virtualIp s) 16 k3 = (k4, o2)" by fastforce
  obtain k5 o3 where w3: "setInterfaceUp qt K (wg_interfaceName s) True k4 = (k5, o3)" by fastforce
  have r: "o1" "o2" "o3" "s' = wg_setStatus TunnelUp (s\<lparr>wg_kernel := k5\<rparr>)"
    using assms by (simp_all add: finishStart_def w1 wg_call_def w2 w3 split: if_splits)
  have "if raw = [] then k3 = wg_kernel s
      else setWireGuardDevice qt K (wg_interfaceName s) raw (wg_listenPort s) (qm_values (wg_peers s)) (wg_kernel s) = (k3, True)"
    using w1 r(1) by (cases "raw = []") (auto simp: configureDevice_def wg_call_def case_prod_beta dest!: arg_cong [where f = wg_kernel] intro: prod_eqI)
  then show thesis using that w2 w3 r by simp
qed


lemma startTunnel_ok:
  assumes "startTunnel qt K n ip key port s = (s', True)" and "c = start_config n ip port s"
  obtains k1 k2 where "kernel_supports qt K (wg_kernel c) = (k1, True)"
    and "createInterface qt K (wg_interfaceName c) k1 = (k2, True)"
    and "finishStart qt K (if key \<noteq> [] then from_base64 qt key else [])
      (c\<lparr>wg_createdByUs := \<not> interfaceExists qt K (wg_interfaceName c) k1, wg_kernel := k2\<rparr>) = (s', True)"
    and "tunnel_ip_valid qt (wg_virtualIp c)" and "key \<noteq> [] \<Longrightarrow> isValidBase64Key qt key"
proof -
  obtain k1 su where w1: "kernel_supports qt K (wg_kernel c) = (k1, su)" by fastforce
  obtain k2 cr where w2: "createInterface qt K (wg_interfaceName c) k1 = (k2, cr)" by fastforce
  have c1: "wg_call (kernel_supports qt K) c = (c\<lparr>wg_kernel := k1\<rparr>, su)"
    and c2: "wg_call (createInterface qt K (wg_interfaceName c)) (c\<lparr>wg_kernel := k1\<rparr>) = (c\<lparr>wg_kernel := k2\<rparr>, cr)"
    by (simp_all add: wg_call_def w1 w2)
  have "startTunnel qt K n ip key port s =
    (if \<not> tunnel_ip_valid qt (wg_virtualIp c) then (wg_setError (InvalidVirtualIp (wg_virtualIp c)) c, False)
     else if key \<noteq> [] \<and> \<not> isValidBase64Key qt key then (wg_setError InvalidPrivateKey c, False)
     else if \<not> su then (wg_setError NoKernelSupport (c\<lparr>wg_kernel := k1\<rparr>), False)
     else if \<not> cr then (wg_setError (CreateFailed (wg_interfaceName c)) (c\<lparr>wg_kernel := k2\<rparr>), False)
     else finishStart qt K (if key \<noteq> [] then from_base64 qt key else [])
       (c\<lparr>wg_kernel := k2, wg_createdByUs := \<not> interfaceExists qt K (wg_interfaceName c) k1\<rparr>))"
    by (simp add: startTunnel_def start_config_def [symmetric] Let_def assms(2) [symmetric] c1 c2)
  with assms(1) have "su" "cr" "finishStart qt K (if key \<noteq> [] then from_base64 qt key else [])
       (c\<lparr>wg_createdByUs := \<not> interfaceExists qt K (wg_interfaceName c) k1, wg_kernel := k2\<rparr>) = (s', True)"
     "tunnel_ip_valid qt (wg_virtualIp c)" "key \<noteq> [] \<longrightarrow> isValidBase64Key qt key"
    unfolding wg_swap by (auto split: if_splits)
  then show thesis using that w1 w2 by simp
qed

text \<open>
  The requests of a start that succeeds, in their order: is WireGuard supported, create the
  interface (when it is ours), configure the device (when there is a key), set the address \<open>a\<close> on
  the interface \<open>i\<close>, bring the interface \<open>j\<close> up.
\<close>

definition start_requests :: "qt_lib \<Rightarrow> qstring \<Rightarrow> peer_config list \<Rightarrow> 'k wg \<Rightarrow> int \<Rightarrow> u32 \<Rightarrow> u32 \<Rightarrow> u32 \<Rightarrow> (nat \<times> bytes) list" where
  "start_requests qt key peers s f a i j =
    [family_query qt]
    @ (if wg_createdByUs s then [(NETLINK_ROUTE, set_nlmsg_len (create_message qt (wg_interfaceName s)))] else [])
    @ (if key = [] then [] else [family_query qt, (NETLINK_GENERIC, set_nlmsg_len (set_device_message qt (word_of_int f)
          (wg_interfaceName s) (from_base64 qt key) (wg_listenPort s) peers))])
    @ [(NETLINK_ROUTE, set_nlmsg_len (address_message a 16 i)), (NETLINK_ROUTE, set_nlmsg_len (up_message j True))]"

lemma start_logged:
  assumes "startTunnel qt (recording K) n ip key port s = (s', True)"
    and "key \<noteq> [] \<Longrightarrow> from_base64 qt (q_trimmed key) = from_base64 qt key"
  shows "\<exists>f a i j. 0 < f \<and> i \<noteq> 0 \<and> j \<noteq> 0 \<and> kn_pton K (to_utf8 qt (wg_virtualIp s')) = Some a
    \<and> snd (wg_kernel s') = snd (wg_kernel s) @ start_requests qt key (wg_peers_list s) s' f a i j"
proof -
  define c where "c = start_config n ip port s"
  let ?N = "wg_interfaceName c" and ?raw = "if key \<noteq> [] then from_base64 qt key else []"
  obtain k1 k2 where w: "kernel_supports qt (recording K) (wg_kernel c) = (k1, True)"
      "createInterface qt (recording K) ?N k1 = (k2, True)"
      "finishStart qt (recording K) ?raw (c\<lparr>wg_createdByUs := \<not> interfaceExists qt K ?N (fst k1), wg_kernel := k2\<rparr>) = (s', True)"
      "key \<noteq> [] \<Longrightarrow> isValidBase64Key qt key"
    by (rule startTunnel_ok [OF assms(1) c_def]) simp
  define c' where "c' = c\<lparr>wg_createdByUs := \<not> interfaceExists qt K ?N (fst k1), wg_kernel := k2\<rparr>"
  have c': "wg_interfaceName c' = ?N" "wg_virtualIp c' = wg_virtualIp c" "wg_listenPort c' = wg_listenPort c"
    "wg_peers c' = wg_peers c" "wg_kernel c' = k2" "wg_createdByUs c' = (\<not> interfaceExists qt K ?N (fst k1))"
    by (simp_all add: c'_def)
  obtain k3 k4 k5 where v: "if ?raw = [] then k3 = k2
      else setWireGuardDevice qt (recording K) ?N ?raw (wg_listenPort c) (qm_values (wg_peers c)) k2 = (k3, True)"
    "setInterfaceAddress qt (recording K) ?N (wg_virtualIp c) 16 k3 = (k4, True)"
    "setInterfaceUp qt (recording K) ?N True k4 = (k5, True)"
    "s' = wg_setStatus TunnelUp (c'\<lparr>wg_kernel := k5\<rparr>)"
    by (rule finishStart_ok [OF w(3) [folded c'_def], unfolded c'])
  have raw: "?raw = [] \<longleftrightarrow> key = []"
  proof (cases "key = []")
    case False
    then show ?thesis using w(4) assms(2) by (auto simp: isValidBase64Key_def split: if_splits)
  qed simp
  have s': "wg_interfaceName s' = ?N" "wg_virtualIp s' = wg_virtualIp c" "wg_listenPort s' = wg_listenPort c"
    "wg_createdByUs s' = (\<not> interfaceExists qt K ?N (fst k1))" "wg_kernel s' = k5" "wg_peers_list s = qm_values (wg_peers c)"
    "wg_kernel c = wg_kernel s"
    by (simp_all add: v(4) c' wg_peers_list_def) (simp_all add: c_def start_config_def)
  have l1: "snd k1 = snd (wg_kernel s) @ [family_query qt]"
    using supports_logged [of qt K "wg_kernel c"] w(1) s'(7) by simp
  have l2: "snd k2 = snd k1 @ (if wg_createdByUs s' then [(NETLINK_ROUTE, set_nlmsg_len (create_message qt ?N))] else [])"
    using create_logged [of qt K ?N k1] w(2) s'(4) by simp
  obtain f where f: "0 < f" and l3: "snd k3 = snd k2 @ (if key = [] then [] else [family_query qt,
      (NETLINK_GENERIC, set_nlmsg_len (set_device_message qt (word_of_int f) ?N ?raw (wg_listenPort c) (qm_values (wg_peers c))))])"
  proof (cases "key = []")
    case True
    then show thesis using that [of 1] v(1) by simp
  next
    case False
    then show thesis using that v(1) raw device_logged [of qt K ?N ?raw "wg_listenPort c" "qm_values (wg_peers c)" k2] by auto
  qed
  obtain a i where a: "i \<noteq> 0" "kn_pton K (to_utf8 qt (wg_virtualIp c)) = Some a"
    and l4: "snd k4 = snd k3 @ [(NETLINK_ROUTE, set_nlmsg_len (address_message a 16 i))]"
    using address_logged [of qt K ?N "wg_virtualIp c" 16 k3] v(2) by auto
  obtain j where j: "j \<noteq> 0" and l5: "snd k5 = snd k4 @ [(NETLINK_ROUTE, set_nlmsg_len (up_message j True))]"
    using up_logged [of qt K ?N True k4] v(3) by auto
  show ?thesis
    using f a j raw by (intro exI [of _ f] exI [of _ a] exI [of _ i] exI [of _ j]) (simp add: start_requests_def s' l1 l2 l3 l4 l5)
qed


text \<open>
  C20: startTunnel ends Up or in Error as its result says; when it succeeds the kernel got
  exactly the support query, the creation of the interface if it did not exist, a second
  family query and the device configuration with all stored peers if there is a key, the
  address (what inet_pton makes of a text that passed the check for 10.77.0.0/16) and the
  link-up request, in this order.
\<close>

theorem start_tunnel_requests:
  assumes "startTunnel qt (recording K) n ip key port s = (s', ok)"
    and "key = [] \<or> from_base64 qt (q_trimmed key) = from_base64 qt key"
  shows "wg_status s' = (if ok then TunnelUp else TunnelError)
    \<and> (ok \<longrightarrow> tunnel_ip_valid qt (wg_virtualIp s')
      \<and> (\<exists>f a i j. 0 < f \<and> i \<noteq> 0 \<and> j \<noteq> 0 \<and> kn_pton K (to_utf8 qt (wg_virtualIp s')) = Some a
        \<and> snd (wg_kernel s') = snd (wg_kernel s) @ start_requests qt key (wg_peers_list s) s' f a i j))"
proof (cases ok)
  case True
  have "wg_status s' = TunnelUp \<and> tunnel_ip_valid qt (wg_virtualIp s')"
    by (rule startTunnel_cases [of qt "recording K" n ip key port s]) (use assms(1) True in auto)
  moreover have "key \<noteq> [] \<Longrightarrow> from_base64 qt (q_trimmed key) = from_base64 qt key" using assms(2) by blast
  moreover have "startTunnel qt (recording K) n ip key port s = (s', True)" using assms(1) True by simp
  ultimately show ?thesis using True start_logged [of qt K n ip key port s s'] by (simp only: if_True simp_thms)
next
  case False
  show ?thesis
    by (rule startTunnel_cases [of qt "recording K" n ip key port s]) (use assms(1) False in auto)
qed

text \<open>
  C40: A successful startTunnel owns the interface exactly when it did not exist before; so
  after a second start, also of an interface the service created itself, stopTunnel only
  sets the link down and never deletes it.
\<close>

theorem restart_forgets_interface:
  assumes "startTunnel qt (recording K) n ip key port s = (s', True)"
    and "existed = interfaceExists qt K (wg_interfaceName s') (fst (fst (kernel_supports qt (recording K) (wg_kernel s))))"
  shows "wg_createdByUs s' = (\<not> existed)
    \<and> (existed \<longrightarrow> snd (wg_kernel (stopTunnel qt (recording K) s')) = snd (wg_kernel s')
      \<or> (\<exists>i. snd (wg_kernel (stopTunnel qt (recording K) s'))
          = snd (wg_kernel s') @ [(NETLINK_ROUTE, set_nlmsg_len (up_message i False))]))"
proof -
  define c where "c = start_config n ip port s"
  obtain k1 k2 where w: "kernel_supports qt (recording K) (wg_kernel c) = (k1, True)"
    and f: "finishStart qt (recording K) (if key \<noteq> [] then from_base64 qt key else [])
      (c\<lparr>wg_createdByUs := \<not> interfaceExists qt (recording K) (wg_interfaceName c) k1, wg_kernel := k2\<rparr>) = (s', True)"
    by (rule startTunnel_ok [OF assms(1) c_def])
  have k: "wg_kernel c = wg_kernel s" by (simp add: c_def start_config_def)
  have s': "wg_createdByUs s' = (\<not> interfaceExists qt K (wg_interfaceName c) (fst k1))" "wg_interfaceName s' = wg_interfaceName c"
    "wg_status s' = TunnelUp"
    by (rule finishStart_cases [of qt "recording K" "if key \<noteq> [] then from_base64 qt key else []"
          "c\<lparr>wg_createdByUs := \<not> interfaceExists qt (recording K) (wg_interfaceName c) k1, wg_kernel := k2\<rparr>"]; use f in auto)+
  have own: "wg_createdByUs s' = (\<not> existed)" using assms(2) w k s'(1,2) by simp
  have "wg_kernel (stopTunnel qt (recording K) s')
      = (if interfaceExists qt K (wg_interfaceName s') (fst (wg_kernel s'))
         then fst (setInterfaceUp qt (recording K) (wg_interfaceName s') False (wg_kernel s')) else wg_kernel s')" if existed
    using s'(3) own that by (simp add: stopTunnel_def Let_def)
  then show ?thesis
    using own up_logged_most [of qt K "wg_interfaceName s'" False "wg_kernel s'"] by auto
qed


section \<open>Witnesses\<close>

text \<open>A kernel in which every request succeeds, and Qt with a Base64 decoder that skips white space.\<close>

definition kernel_up :: "unit kernel" where
  "kernel_up = \<lparr>kn_ifindex = (\<lambda>k n. 3), kn_socket = (\<lambda>k p. True),
     kn_talk = (\<lambda>k p m. (k, Reply (kernel_reply 16 (replicate 14 0) [Leaf 1 (le16 30)] []) 28)),
     kn_pton = (\<lambda>n. Some 0x0A4D0002)\<rparr>"

definition qt1 :: qt_lib where
  "qt1 = qt0\<lparr>from_base64 := (\<lambda>s. map ucast (q_trimmed s))\<rparr>"

definition key_ex :: qstring where
  "key_ex = qs ''abcdefghijklmnopqrstuvwxyz012345''"

lemma q_trimmed_idem: "q_trimmed (q_trimmed s) = q_trimmed s"
  by (cases "q_trimmed s = []") (simp_all add: q_trimmed_id q_trimmed_hd q_trimmed_last, simp add: q_trimmed_def)

lemma base64_trim_qt1: "base64_trim qt1"
  by (simp add: base64_trim_def qt1_def q_trimmed_idem)

lemma key_ex_trimmed: "q_trimmed key_ex = key_ex"
  by (simp add: q_trimmed_def key_ex_def qs_def q_isSpace_def)

lemma ips_ex: "tunnel_ip_valid qt0 (qs ''10.77.0.2'')" "tunnel_ip_valid qt0 (qs ''10.77.0.5'')"
  "tunnel_ip_valid qt1 (qs ''10.77.0.5'')" "host_parse qt1 (qs ''10.77.0.0'') = IPv4Addr 0x0A4D0000"
  by (simp_all add: tunnel_ip_valid_def isSubnetValid_def qt1_def qt0_def dotted_quad_def qs_def Let_def subnet_mask)

lemma key_ex_valid: "isValidBase64Key qt0 key_ex" "isValidBase64Key qt1 key_ex"
  unfolding isValidBase64Key_def key_ex_trimmed qt1_def qt0_def by (simp_all add: key_ex_trimmed) (simp_all add: key_ex_def)

lemma resolve_up: "snd (resolveWireGuardFamily qt (recording kernel_up) kl) = 30"
proof -
  let ?ts = "[Leaf 1 (le16 30)]"
  let ?b = "kernel_reply 16 (replicate 14 0) ?ts []"
  have r: "length (replicate 14 (0 :: u8)) = 14" by simp
  obtain p where p: "length p = 20" "?b = p @ nlas_ser ?ts @ []" using kernel_reply_at(2) [OF r] by blast
  have "reply_attrs ?b = length (nlas_ser ?ts)"
    by (rule reply_attrs_reply) (simp add: nla_pad_def nla_align_def)
  moreover have "family_loop (p @ nlas_ser ?ts @ []) (length p) (length (nlas_ser ?ts)) = 30"
    by (subst family_loop_ser) (use lrd16_le16 [of "[]" 0 30 "[]"] in simp_all)
  ultimately have "family_loop ?b 20 (reply_attrs ?b) = 30" unfolding p(1) [symmetric] p(2) by metis
  then show ?thesis
    using kernel_reply_at(1) [OF r, of 16 ?ts "[]"]
    by (simp add: resolveWireGuardFamily_def recording_def kernel_up_def del: replicate_Suc)
qed

lemma send_up: "snd (sendNetlinkRequest (recording kernel_up) proto m kl) = 0"
  using kernel_reply_at(1) [of "replicate 14 0" 16 "[Leaf 1 (le16 30)]" "[]"]
  by (simp add: sendNetlinkRequest_def recording_def kernel_up_def del: replicate_Suc)

lemma up_fields: "kn_ifindex kernel_up k n = 3" "kn_socket kernel_up k p" "kn_pton kernel_up n = Some 0x0A4D0002"
  by (simp_all add: kernel_up_def)

lemma calls_up:
  "snd (kernel_supports qt (recording kernel_up) kl)"
  "interfaceExists qt (recording kernel_up) n kl"
  "snd (createInterface qt (recording kernel_up) n kl)"
  "snd (setInterfaceAddress qt (recording kernel_up) n ip p kl)"
  "snd (setInterfaceUp qt (recording kernel_up) n up kl)"
  "snd (setWireGuardDevice qt (recording kernel_up) n key port ps kl)"
  using resolve_up [of qt kl]
  by (simp_all add: kernel_supports_def case_prod_beta interfaceExists_def up_fields createInterface_def
      setInterfaceAddress_def setInterfaceUp_def setWireGuardDevice_def Let_def send_up)


lemma start_ex: "snd (startTunnel qt0 (recording kernel_up) [] [] key_ex 0 s)"
  by (simp add: startTunnel_def case_prod_beta Let_def calls_up finishStart_def configureDevice_def ips_ex key_ex_valid)

theorem start_tunnel_requests_witness:
  "wg_status (fst (startTunnel qt0 (recording kernel_up) [] [] key_ex 0 (wg_init ((), [])))) = TunnelUp"
  using start_tunnel_requests [of qt0 kernel_up "[]" "[]" key_ex 0 "wg_init ((), [])"
      "fst (startTunnel qt0 (recording kernel_up) [] [] key_ex 0 (wg_init ((), [])))" True]
    start_ex [of "wg_init ((), [])"] key_ex_trimmed by (simp add: prod_eq_iff)

theorem restart_forgets_interface_witness:
  "\<not> wg_createdByUs (fst (startTunnel qt0 (recording kernel_up) [] [] key_ex 0 (wg_init ((), []))))"
  using restart_forgets_interface [of qt0 kernel_up "[]" "[]" key_ex 0 "wg_init ((), [])"
      "fst (startTunnel qt0 (recording kernel_up) [] [] key_ex 0 (wg_init ((), [])))", OF _ refl]
    start_ex [of "wg_init ((), [])"] calls_up(2) by (simp add: prod_eq_iff)

theorem tunnel_peers_invariant_witness:
  "length (wp_publicKey (hd (wg_peers_list (wg_step qt1 kernel_up (AddPeer key_ex (qs ''10.77.0.5'') [] 25) (wg_init ()))))) = 32"
proof -
  let ?s = "wg_step qt1 kernel_up (AddPeer key_ex (qs ''10.77.0.5'') [] 25) (wg_init ())"
  have "wg_peers_list ?s = [peer_of qt1 key_ex (qs ''10.77.0.5'') [] 25]"
    by (simp add: wg_step_def addPeer_def Let_def key_ex_valid ips_ex wg_init_def wg_emit_def wg_peers_list_def qm_values_def
        qm_insert.simps)
  then show ?thesis
    using tunnel_peers_invariant [OF wg_reach.step [OF wg_reach.start [of qt1 kernel_up "()"]] base64_trim_qt1 ips_ex(4),
        of "AddPeer key_ex (qs ''10.77.0.5'') [] 25"] by simp
qed

theorem peer_after_error_not_configured_witness:
  "wg_kernel (fold (wg_step qt0 kernel_up) [AddPeer key_ex (qs ''10.77.0.5'') [] 25, RemovePeer key_ex]
      (fst (addPeer qt0 kernel_up [] [] [] 25 ((wg_init ())\<lparr>wg_status := TunnelUp\<rparr>)))) = ()
    \<and> wg_status (fold (wg_step qt0 kernel_up) [AddPeer key_ex (qs ''10.77.0.5'') [] 25, RemovePeer key_ex]
      (fst (addPeer qt0 kernel_up [] [] [] 25 ((wg_init ())\<lparr>wg_status := TunnelUp\<rparr>)))) = TunnelError"
  using peer_after_error_not_configured [of "(wg_init ())\<lparr>wg_status := TunnelUp\<rparr>" qt0 "[]"
      "[AddPeer key_ex (qs ''10.77.0.5'') [] 25, RemovePeer key_ex]" _ kernel_up "[]" "[]" 25, OF _ _ _ refl]
  by (simp add: isValidBase64Key_def [of _ "[]"] q_trimmed_def)

end
