(* ===== verification/Crc32.thy ===== *)
theory Crc32
  imports Prelude
begin

text \<open>
  The bitwise CRC-32 of \<open>P2PFrame::calculateCrc32\<close> (src/protocol/framing.cpp) and
  what it detects: the shift register is linear and every step is invertible, so
  two messages of one length that differ inside a window of four bytes never
  have the same checksum.
\<close>

section \<open>The shift register\<close>

text \<open>One round of the inner loop: \<open>mask = -(crc & 1); crc = (crc >> 1) ^ (0xEDB88320 & mask)\<close>.\<close>

definition crc_bit :: "u32 \<Rightarrow> u32" where
  "crc_bit crc = (let mask = - (crc AND 1) in drop_bit 1 crc XOR (0xEDB88320 AND mask))"

definition crc_byte :: "u32 \<Rightarrow> u8 \<Rightarrow> u32" where
  "crc_byte crc byte = (crc_bit ^^ 8) (crc XOR ucast byte)"

definition calculateCrc32 :: "bytes \<Rightarrow> u32" where
  "calculateCrc32 data = NOT (foldl crc_byte 0xFFFFFFFF data)"

section \<open>Linearity and invertibility\<close>

lemma crc_bit_alt: "crc_bit c = drop_bit 1 c XOR (if odd c then 0xEDB88320 else 0)"
proof -
  have "c AND 1 = (if odd c then 1 else 0)"
    by (simp add: and_one_eq odd_iff_mod_2_eq_one even_iff_mod_2_eq_zero)
  then show ?thesis by (simp add: crc_bit_def)
qed

lemma odd_xor: "odd (a XOR b :: u32) \<longleftrightarrow> odd a \<noteq> odd b"
  by (simp add: even_xor_iff)

lemma crc_bit_xor: "crc_bit (a XOR b) = crc_bit a XOR crc_bit b"
  by (simp add: crc_bit_alt odd_xor drop_bit_xor xor.assoc xor.left_commute xor.commute)

lemma crc_bits_xor: "(crc_bit ^^ n) (a XOR b) = (crc_bit ^^ n) a XOR (crc_bit ^^ n) b"
  by (induction n) (simp_all add: crc_bit_xor)

text \<open>
  The polynomial has its top bit set, so the top bit of a result tells the bit that
  was shifted out: no two states have the same successor.
\<close>

lemma no_bit_32: "32 \<le> n \<Longrightarrow> \<not> bit (c :: u32) n"
  using bit_imp_le_length [of c n] by auto

lemma top_bit_crc_bit: "bit (crc_bit c) 31 = odd c"
  by (simp add: crc_bit_alt bit_simps no_bit_32)

lemma bit_Suc_drop: "bit c (Suc m) = bit (drop_bit 1 c) m" for c :: u32
  by (simp only: bit_drop_bit_eq comp_def plus_1_eq_Suc)

lemma drop_bit_1_eq_0: "even c \<Longrightarrow> drop_bit 1 c = 0 \<Longrightarrow> c = (0 :: u32)"
proof (rule bit_word_eqI)
  fix n assume "even c" "drop_bit 1 c = 0"
  then show "bit c n = bit (0 :: u32) n"
    by (cases n) (simp_all add: bit_0 bit_Suc_drop del: drop_bit_Suc)
qed

lemma crc_bit_eq_0: "crc_bit c = 0 \<longleftrightarrow> c = 0"
proof
  assume z: "crc_bit c = 0"
  then have "even c" using top_bit_crc_bit [of c] by simp
  with z show "c = 0" by (simp add: crc_bit_alt drop_bit_1_eq_0)
qed (simp add: crc_bit_alt)

lemma crc_bits_eq_0: "(crc_bit ^^ n) c = 0 \<longleftrightarrow> c = 0"
  by (induction n) (simp_all add: crc_bit_eq_0)

lemma word_xor_eq_0: "a XOR b = 0 \<longleftrightarrow> a = (b :: 'a::len word)"
  by (metis xor.left_neutral xor.right_neutral xor_self_eq xor.assoc)

lemma crc_bits_inj: "(crc_bit ^^ n) a = (crc_bit ^^ n) b \<longleftrightarrow> a = b"
proof -
  have "(crc_bit ^^ n) a = (crc_bit ^^ n) b \<longleftrightarrow> (crc_bit ^^ n) (a XOR b) = 0"
    by (simp add: crc_bits_xor word_xor_eq_0)
  also have "\<dots> \<longleftrightarrow> a = b" by (simp add: crc_bits_eq_0 word_xor_eq_0)
  finally show ?thesis .
qed

lemma xor_right_cancel: "a XOR c = b XOR c \<longleftrightarrow> a = (b :: 'a::len word)"
  by (metis xor.assoc xor.right_neutral xor_self_eq)

lemma crc_byte_inj: "crc_byte a x = crc_byte b x \<longleftrightarrow> a = b"
  by (simp add: crc_byte_def crc_bits_inj xor_right_cancel)

lemma crc_fold_inj: "foldl crc_byte a xs = foldl crc_byte b xs \<longleftrightarrow> a = b"
  by (induction xs arbitrary: a b) (simp_all add: crc_byte_inj)

text \<open>While only zeros are shifted out, a round is a plain shift.\<close>

lemma crc_bit_push: "\<not> bit x 31 \<Longrightarrow> crc_bit (push_bit 1 x) = x"
proof -
  assume h: "\<not> bit x 31"
  have d: "drop_bit 1 (push_bit 1 x) = x"
  proof (rule bit_word_eqI)
    fix n assume n: "n < LENGTH(32)"
    have "bit (drop_bit 1 (push_bit 1 x)) n = bit (push_bit 1 x) (Suc n)"
      by (rule bit_Suc_drop [symmetric])
    also have "\<dots> = (Suc n < 32 \<and> bit x n)"
      by (simp only: bit_push_bit_iff) simp
    finally show "bit (drop_bit 1 (push_bit 1 x)) n = bit x n"
      using h n by (cases "n = 31") auto
  qed
  have "even (push_bit 1 x)" by (simp add: push_bit_eq_mult)
  with d show ?thesis by (simp only: crc_bit_alt not_True_eq_False if_False xor.right_neutral)
qed

lemma crc_bits_push:
  "n \<le> 32 \<Longrightarrow> (\<And>m. 32 - n \<le> m \<Longrightarrow> \<not> bit x m) \<Longrightarrow> (crc_bit ^^ n) (push_bit n x) = x"
proof (induction n)
  case (Suc n)
  have "\<not> bit (push_bit n x) 31"
    using Suc.prems(2) [of "31 - n"] by (simp add: bit_simps)
  then have "crc_bit (push_bit 1 (push_bit n x)) = push_bit n x" by (rule crc_bit_push)
  then have "(crc_bit ^^ Suc n) (push_bit (Suc n) x) = (crc_bit ^^ n) (push_bit n x)"
    by (simp add: funpow_swap1 push_bit_push_bit flip: funpow_Suc_right)
  also have "\<dots> = x" using Suc by simp
  finally show ?case .
qed simp

section \<open>Windows of up to four bytes\<close>

text \<open>
  Feeding at most four bytes is one linear map applied to the register combined with
  the bytes as a little-endian word.
\<close>

fun le_word :: "nat \<Rightarrow> bytes \<Rightarrow> u32" where
  "le_word i [] = 0"
| "le_word i (b # bs) = push_bit (8 * i) (ucast b) XOR le_word (Suc i) bs"

lemma crc_byte_shift:
  assumes "i < 4"
  shows "crc_byte ((crc_bit ^^ (8 * i)) y) b = (crc_bit ^^ (8 * Suc i)) (y XOR push_bit (8 * i) (ucast b))"
proof -
  have "(crc_bit ^^ (8 * i)) (push_bit (8 * i) (ucast b)) = ucast b"
    using assms by (intro crc_bits_push) (auto simp: bit_simps bit_u8_bound)
  then have "(crc_bit ^^ (8 * i)) y XOR ucast b = (crc_bit ^^ (8 * i)) (y XOR push_bit (8 * i) (ucast b))"
    by (simp add: crc_bits_xor)
  then show ?thesis by (simp add: crc_byte_def funpow_add)
qed

lemma crc_fold_window:
  "i + length bs \<le> 4 \<Longrightarrow> foldl crc_byte ((crc_bit ^^ (8 * i)) y) bs
     = (crc_bit ^^ (8 * (i + length bs))) (y XOR le_word i bs)"
proof (induction bs arbitrary: i y)
  case (Cons b bs)
  then show ?case
    by (simp add: crc_byte_shift Cons.IH [of "Suc i", simplified] xor.assoc del: funpow.simps)
qed simp

lemma le_word_low: "n < 8 * i \<Longrightarrow> \<not> bit (le_word i bs) n"
  by (induction bs arbitrary: i) (auto simp: bit_simps)

lemma le_word_inj:
  "length bs = length cs \<Longrightarrow> i + length bs \<le> 4 \<Longrightarrow> le_word i bs = le_word i cs \<Longrightarrow> bs = cs"
proof (induction bs cs arbitrary: i rule: list_induct2)
  case (Cons b bs c cs)
  have "b = c"
  proof (rule bit_word_eqI)
    fix n assume n: "n < LENGTH(8)"
    have "bit (le_word i (b # bs)) (8 * i + n) = bit (le_word i (c # cs)) (8 * i + n)"
      using Cons.prems(2) by simp
    then show "bit b n = bit c n"
      using n Cons.prems(1) le_word_low [of "8 * i + n" "Suc i"] by (auto simp: bit_simps)
  qed
  moreover from this have "le_word (Suc i) bs = le_word (Suc i) cs"
    using Cons.prems(2) by (simp add: xor.commute [of "push_bit n w" for n w] xor_right_cancel)
  ultimately show ?case using Cons.IH [of "Suc i"] Cons.prems(1) by simp
qed simp

lemma crc_window_inj:
  assumes "length v = length w" and "length v \<le> 4"
  shows "foldl crc_byte s v = foldl crc_byte s w \<longleftrightarrow> v = w"
  using crc_fold_window [of 0 v s] crc_fold_window [of 0 w s] assms le_word_inj [of v w 0]
  by (auto simp: crc_bits_inj xor_right_cancel xor.commute [of s])

lemma calculateCrc32_window:
  "length v = length w \<Longrightarrow> length v \<le> 4 \<Longrightarrow>
     calculateCrc32 (p @ v @ s) = calculateCrc32 (p @ w @ s) \<longleftrightarrow> v = w"
  by (simp add: calculateCrc32_def crc_fold_inj crc_window_inj)

text \<open>
  The checksums of two inputs that agree outside one window of at most four bytes are equal
  only if the inputs are: calculateCrc32 detects every error burst of up to 32 bits.
\<close>

theorem crc_detects_burst:
  assumes "length v = length w" and "length v \<le> 4"
  shows "calculateCrc32 (p @ v @ s) = calculateCrc32 (p @ w @ s) \<longleftrightarrow> v = w"
  using assms by (rule calculateCrc32_window)

theorem crc_detects_burst_witness:
  "calculateCrc32 ([0x4D] @ [1, 2, 3, 4] @ [5]) \<noteq> calculateCrc32 ([0x4D] @ [1, 2, 3, 5] @ [5])"
  using crc_detects_burst [of "[1, 2, 3, 4]" "[1, 2, 3, 5]" "[0x4D]" "[5]"] by simp

text \<open>The check value of CRC-32/ISO-HDLC: the checksum of the ASCII digits 1 to 9.\<close>

lemma funpow_8: "(f ^^ 8) x = f (f (f (f (f (f (f (f x)))))))"
  by (simp add: numeral_eq_Suc)

lemma crc_check_value:
  "calculateCrc32 [0x31, 0x32, 0x33, 0x34, 0x35, 0x36, 0x37, 0x38, 0x39] = 0xCBF43926"
  by (simp add: calculateCrc32_def crc_byte_def funpow_8 crc_bit_def)

end
