(* ===== verification/Framing.thy ===== *)
theory Framing
  imports Crc32
begin

text \<open>
  The binary frames of src/protocol/framing.cpp: \<open>P2PFrame::encode\<close> and
  \<open>P2PFrame::decode\<close>, their round trip, canonicity, and the corruption they detect.
  \<open>FrameType\<close> is an \<open>enum class\<close> over \<open>uint16_t\<close> that \<open>decode\<close> casts to from any wire
  value, so its values are exactly the 16-bit words.
\<close>

section \<open>Frames\<close>

type_synonym frame_type = u16

definition FRAME_MAGIC :: u16 where "FRAME_MAGIC = 0x4D43"

definition Heartbeat :: frame_type where "Heartbeat = 0x0001"
definition FtChatMessage :: frame_type where "FtChatMessage = 0x0002"
definition FtMessageAck :: frame_type where "FtMessageAck = 0x0003"
definition FtTypingIndicator :: frame_type where "FtTypingIndicator = 0x0004"
definition FtFileOffer :: frame_type where "FtFileOffer = 0x0010"
definition FtFileAccept :: frame_type where "FtFileAccept = 0x0011"
definition FtFileReject :: frame_type where "FtFileReject = 0x0012"
definition FtFileChunk :: frame_type where "FtFileChunk = 0x0013"
definition FtFileComplete :: frame_type where "FtFileComplete = 0x0014"
definition FtFileCancel :: frame_type where "FtFileCancel = 0x0015"

lemmas frame_type_defs =
  Heartbeat_def FtChatMessage_def FtMessageAck_def FtTypingIndicator_def FtFileOffer_def
  FtFileAccept_def FtFileReject_def FtFileChunk_def FtFileComplete_def FtFileCancel_def

record p2p_frame =
  frame_ty :: frame_type
  payload :: bytes

text \<open>\<open>static_cast<uint32_t>(payload.size())\<close> is \<open>of_nat\<close>, which keeps the low 32 bits.\<close>

definition frame_body :: "p2p_frame \<Rightarrow> bytes" where
  "frame_body f = be16 FRAME_MAGIC @ be16 (frame_ty f) @ be32 (of_nat (length (payload f)))
     @ (if payload f \<noteq> [] then payload f else [])"

definition encode_frame :: "p2p_frame \<Rightarrow> bytes" where
  "encode_frame f = (let packet = frame_body f in packet @ be32 (calculateCrc32 packet))"

text \<open>
  \<open>decode\<close> compares the size of the array with \<open>static_cast<int>(12 + payloadLen)\<close>,
  a 32-bit sum read as a signed number.
\<close>

definition decode_frame :: "bytes \<Rightarrow> p2p_frame option" where
  "decode_frame data =
    (if length data < 12 then None
     else if rd16 data 0 \<noteq> FRAME_MAGIC then None
     else let typeVal = rd16 data 2; payloadLen = rd32 data 4 in
       if int (length data) \<noteq> sint (12 + payloadLen) then None
       else let expectedCrc = rd32 data (8 + unat payloadLen);
                calculatedCrc = calculateCrc32 (take (unat (8 + payloadLen)) data) in
         if expectedCrc \<noteq> calculatedCrc then None
         else Some \<lparr>frame_ty = typeVal,
                    payload = (if payloadLen > 0 then mid data 8 (unat payloadLen) else [])\<rparr>)"

section \<open>Layout\<close>

lemma frame_body_alt:
  "frame_body f = be16 FRAME_MAGIC @ be16 (frame_ty f) @ be32 (of_nat (length (payload f))) @ payload f"
  by (simp add: frame_body_def)

lemma length_frame_body [simp]: "length (frame_body f) = 8 + length (payload f)"
  by (simp add: frame_body_alt)

lemma length_encode_frame [simp]: "length (encode_frame f) = 12 + length (payload f)"
  by (simp add: encode_frame_def Let_def)

text \<open>The size test leaves no room for wrap-around: it pins the length field to the array.\<close>

lemma frame_size_test:
  assumes "12 \<le> L"
  shows "int L = sint (12 + p :: u32) \<longleftrightarrow> L = 12 + unat p \<and> L < 2 ^ 31"
proof -
  define n where "n = unat p"
  have n: "n < 2 ^ 32" using unsigned_less [of p] by (simp add: n_def)
  have "sint (12 + p) = (if (12 + n) mod 2 ^ 32 < 2 ^ 31 then int ((12 + n) mod 2 ^ 32)
      else int ((12 + n) mod 2 ^ 32) - 2 ^ 32)"
    unfolding sint_u32 by (simp only: unat_word_ariths n_def) simp
  then show ?thesis
    using assms n unfolding n_def [symmetric] by (auto simp: mod_if)
qed

text \<open>The sizes \<open>decode\<close> can accept: the whole frame is shorter than \<open>2^31\<close> bytes.\<close>

definition frame_fits :: "p2p_frame \<Rightarrow> bool" where
  "frame_fits f \<longleftrightarrow> length (payload f) + 12 < 2 ^ 31"

lemma frame_fields:
  "rd16 (frame_body f @ s) 0 = FRAME_MAGIC"
  "rd16 (frame_body f @ s) 2 = frame_ty f"
  "rd32 (frame_body f @ s) 4 = of_nat (length (payload f))"
  using rd16_be16 [of "[]" 0 FRAME_MAGIC "be16 (frame_ty f) @ be32 (of_nat (length (payload f))) @ payload f @ s"]
    rd16_be16 [of "be16 FRAME_MAGIC" 2 "frame_ty f" "be32 (of_nat (length (payload f))) @ payload f @ s"]
    rd32_be32 [of "be16 FRAME_MAGIC @ be16 (frame_ty f)" 4 "of_nat (length (payload f))" "payload f @ s"]
  by (simp_all add: frame_body_alt)

lemma mid_frame_body: "mid (frame_body f @ s) 8 (length (payload f)) = payload f"
  using mid_append [of "be16 FRAME_MAGIC @ be16 (frame_ty f) @ be32 (of_nat (length (payload f)))" 8
      "payload f" "length (payload f)" s]
  by (simp add: frame_body_alt)

lemma decode_encode_frame:
  assumes "frame_fits f"
  shows "decode_frame (encode_frame f) = Some f"
proof -
  let ?n = "length (payload f)" and ?b = "frame_body f"
  have n: "?n < 2 ^ 31 - 12" using assms by (simp add: frame_fits_def)
  then have un: "unat (of_nat ?n :: u32) = ?n" by (intro unat_of_nat_u32) simp
  have sz: "int (12 + ?n) = sint (12 + of_nat ?n :: u32)"
    using frame_size_test [of "12 + ?n" "of_nat ?n"] n un by simp
  have u8n: "unat (8 + of_nat ?n :: u32) = 8 + ?n"
    using unat_of_nat_u32 [of "8 + ?n"] n by simp
  have crc: "rd32 (encode_frame f) (8 + ?n) = calculateCrc32 ?b"
    by (simp add: encode_frame_def Let_def rd32_be32_end)
  have tk: "take (8 + ?n) (encode_frame f) = ?b"
    by (simp add: encode_frame_def Let_def)
  have pay: "(if (of_nat ?n :: u32) > 0 then mid (encode_frame f) 8 ?n else []) = payload f"
    using un by (auto simp: encode_frame_def Let_def mid_frame_body word_neq_0_conv [symmetric])
  have flds: "rd16 (encode_frame f) 0 = FRAME_MAGIC" "rd16 (encode_frame f) 2 = frame_ty f"
      "rd32 (encode_frame f) 4 = of_nat ?n"
    by (simp_all add: encode_frame_def Let_def frame_fields)
  show ?thesis
    unfolding decode_frame_def Let_def flds un u8n crc tk pay using sz by simp
qed

lemma decode_frame_sound:
  assumes "decode_frame data = Some f"
  shows "frame_fits f \<and> encode_frame f = data"
proof -
  let ?p = "rd32 data 4"
  from assms have ge: "12 \<le> length data" and magic: "rd16 data 0 = FRAME_MAGIC"
    and size: "int (length data) = sint (12 + ?p)"
    and crc: "rd32 data (8 + unat ?p) = calculateCrc32 (take (unat (8 + ?p)) data)"
    and f: "f = \<lparr>frame_ty = rd16 data 2, payload = (if ?p > 0 then mid data 8 (unat ?p) else [])\<rparr>"
    by (auto simp: decode_frame_def Let_def split: if_splits)
  from size have L: "length data = 12 + unat ?p" and lt: "length data < 2 ^ 31"
    using frame_size_test [OF ge] by auto
  have pl: "payload f = mid data 8 (unat ?p)"
    using f by (auto simp: mid_def word_gt_0)
  have lp: "length (payload f) = unat ?p" using pl L by simp
  have u8: "unat (8 + ?p) = 8 + unat ?p"
    using unat_of_nat_u32 [of "8 + unat ?p"] lt L by simp
  have body: "frame_body f = take (8 + unat ?p) data"
  proof -
    have "frame_body f = be16 (rd16 data 0) @ be16 (rd16 data 2) @ be32 ?p @ mid data 8 (unat ?p)"
      unfolding frame_body_alt lp unfolding pl using magic f by simp
    also have "\<dots> = take 8 data @ take (unat ?p) (drop 8 data)"
      using ge by (simp add: be16_rd16 be32_rd32 mid_def) (rule nth_equalityI; auto simp: less_Suc_eq numeral_eq_Suc)
    finally show ?thesis by (simp add: take_add)
  qed
  have "be32 (rd32 data (8 + unat ?p)) = drop (8 + unat ?p) data"
    using L drop_four [of "8 + unat ?p" data] by (simp add: be32_rd32)
  then have "encode_frame f = data"
    using crc by (simp add: encode_frame_def Let_def body u8)
  then show ?thesis using lp L lt by (simp add: frame_fits_def)
qed

interpretation frames: canonical_codec encode_frame decode_frame frame_fits
  by unfold_locales (auto simp: decode_encode_frame dest: decode_frame_sound)

section \<open>Properties\<close>

text \<open>
  C10: decode accepts exactly the encodings of frames whose payload length fits the 32-bit
  header: a packet decodes to a frame iff the frame fits and the packet is its encoding.
\<close>

theorem frame_decode_iff:
  "decode_frame data = Some f \<longleftrightarrow> length (payload f) + 12 < 2 ^ 31 \<and> data = encode_frame f"
  using frames.dec_iff by (simp add: frame_fits_def)

lemma encode_frame_split:
  "encode_frame f = xs @ ys \<Longrightarrow> length xs = 8 + length (payload f) \<Longrightarrow>
     xs = frame_body f \<and> ys = be32 (calculateCrc32 (frame_body f))"
  by (auto simp: encode_frame_def Let_def append_eq_append_conv)

text \<open>
  C13: Replacing at most four consecutive bytes of an encoded frame by different ones, all
  in the header and payload or all in the checksum, always gives a packet that decode
  rejects.
\<close>

theorem frame_corruption_detected:
  assumes "encode_frame f = p @ v @ s"
    and "length w = length v" and "length v \<le> 4" and "w \<noteq> v"
    and "length p + length v \<le> 8 + length (payload f) \<or> 8 + length (payload f) \<le> length p"
  shows "decode_frame (p @ w @ s) = None"
proof (rule frames.dec_None, rule notI)
  fix g assume g: "p @ w @ s = encode_frame g"
  let ?n = "8 + length (payload f)"
  have len: "length (payload g) = length (payload f)"
    using arg_cong [OF g, of length] arg_cong [OF assms(1), of length] assms(2) by simp
  show False
  proof (cases "length p + length v \<le> ?n")
    case True
    define s1 s2 where "s1 = take (?n - length p - length v) s" and "s2 = drop (?n - length p - length v) s"
    have s: "s = s1 @ s2" by (simp add: s1_def s2_def)
    have l1: "length (p @ v @ s1) = ?n"
      using True arg_cong [OF assms(1), of length] by (simp add: s1_def)
    have "p @ v @ s1 = frame_body f \<and> s2 = be32 (calculateCrc32 (frame_body f))"
      by (rule encode_frame_split) (use assms(1) s l1 in simp_all)
    moreover have "p @ w @ s1 = frame_body g \<and> s2 = be32 (calculateCrc32 (frame_body g))"
      by (rule encode_frame_split) (use g s l1 len assms(2) in simp_all)
    ultimately have "calculateCrc32 (p @ v @ s1) = calculateCrc32 (p @ w @ s1)"
      by (metis be32_inj)
    then have "v = w"
      by (rule iffD1 [OF calculateCrc32_window, rotated 2]) (use assms(2,3) in simp_all)
    with assms(4) show False by simp
  next
    case False
    with assms(5) have le: "?n \<le> length p" by simp
    define p1 p2 where "p1 = take ?n p" and "p2 = drop ?n p"
    have p: "p = p1 @ p2" and l1: "length p1 = ?n" using le by (simp_all add: p1_def p2_def)
    have "p1 = frame_body f \<and> p2 @ v @ s = be32 (calculateCrc32 (frame_body f))"
      by (rule encode_frame_split) (use assms(1) p l1 in simp_all)
    moreover have "p1 = frame_body g \<and> p2 @ w @ s = be32 (calculateCrc32 (frame_body g))"
      by (rule encode_frame_split) (use g p l1 len in simp_all)
    ultimately have "p2 @ v @ s = p2 @ w @ s" by metis
    with assms(4) show False by simp
  qed
qed

text \<open>One heartbeat frame, \<open>4D 43 00 01 00 00 00 00\<close> and its checksum, with its type byte flipped.\<close>

definition heartbeat_frame :: p2p_frame where
  "heartbeat_frame = \<lparr>frame_ty = Heartbeat, payload = []\<rparr>"

theorem frame_corruption_detected_witness:
  "decode_frame ([0x4D, 0x43, 0x00] @ [0x02] @ ([0x00, 0x00, 0x00, 0x00]
     @ be32 (calculateCrc32 (frame_body heartbeat_frame)))) = None"
  using frame_corruption_detected
    [of heartbeat_frame "[0x4D, 0x43, 0x00]" "[0x01]"
        "[0x00, 0x00, 0x00, 0x00] @ be32 (calculateCrc32 (frame_body heartbeat_frame))" "[0x02]"]
  by (simp add: heartbeat_frame_def encode_frame_def Let_def frame_body_alt FRAME_MAGIC_def
      Heartbeat_def be16_def be32_def)

end
