(* ===== verification/StreamBuffer.thy ===== *)
theory StreamBuffer
  imports Framing
begin

text \<open>
  Reassembly of frames from a TCP byte stream: \<open>P2PSocket::processStreamBuffer\<close> of
  src/network/p2p_socket.cpp. The locale \<open>stream_splitter\<close> is the contract between a
  receive loop and the connections that feed it chunks: a complete packet at the
  front is consumed, an incomplete one waits. Its lemmas give, once, that the way
  TCP cuts the stream does not matter.
\<close>

section \<open>Receiving a stream in chunks\<close>

text \<open>A receiver appends each chunk to what the last call left in the buffer.\<close>

fun receive :: "(bytes \<Rightarrow> 'f list \<times> bytes \<times> 'e option) \<Rightarrow> bytes \<Rightarrow> bytes list
    \<Rightarrow> 'f list \<times> bytes \<times> 'e list" where
  "receive feed buf [] = ([], buf, [])"
| "receive feed buf (c # cs) =
     (case feed (buf @ c) of (fs, buf', e) \<Rightarrow>
      case receive feed buf' cs of (gs, buf'', es) \<Rightarrow>
        (fs @ gs, buf'', (case e of None \<Rightarrow> es | Some x \<Rightarrow> x # es)))"

locale stream_splitter =
  fixes enc :: "'f \<Rightarrow> bytes" and feed :: "bytes \<Rightarrow> 'f list \<times> bytes \<times> 'e option"
    and valid :: "'f \<Rightarrow> bool" and lim :: nat and maxlen :: nat
  assumes feed_one: "valid f \<Longrightarrow> length (enc f @ rest) \<le> lim \<Longrightarrow>
      feed (enc f @ rest) = (case feed rest of (fs, b, e) \<Rightarrow> (f # fs, b, e))"
    and feed_wait: "valid f \<Longrightarrow> enc f = b @ c \<Longrightarrow> c \<noteq> [] \<Longrightarrow> feed b = ([], b, None)"
    and feed_nil: "feed [] = ([], [], None)"
    and enc_maxlen: "valid f \<Longrightarrow> length (enc f) \<le> maxlen"
    and enc_nonempty: "valid f \<Longrightarrow> enc f \<noteq> []"
begin

text \<open>A point of the stream: some whole packets and the beginning of the next.\<close>

lemma split_stream:
  "a @ b = concat (map enc fs) \<Longrightarrow>
    \<exists>fs1 fs2 q. fs = fs1 @ fs2 \<and> a = concat (map enc fs1) @ q \<and> q @ b = concat (map enc fs2)
      \<and> (q = [] \<or> (\<exists>f gs c. fs2 = f # gs \<and> enc f = q @ c \<and> c \<noteq> []))"
proof (induction fs arbitrary: a)
  case Nil
  then show ?case by (intro exI [of _ "[]"]) simp
next
  case (Cons f fs)
  show ?case
  proof (cases "length (enc f) \<le> length a")
    case True
    have "take (length (enc f)) (a @ b) = enc f" using Cons.prems by simp
    with True have "take (length (enc f)) a = enc f" by simp
    then obtain a' where a: "a = enc f @ a'" by (metis append_take_drop_id)
    with Cons.prems have "a' @ b = concat (map enc fs)" by simp
    from Cons.IH [OF this] obtain fs1 fs2 q where
      "fs = fs1 @ fs2" "a' = concat (map enc fs1) @ q" "q @ b = concat (map enc fs2)"
      "q = [] \<or> (\<exists>f gs c. fs2 = f # gs \<and> enc f = q @ c \<and> c \<noteq> [])" by blast
    with a show ?thesis by (intro exI [of _ "f # fs1"] exI [of _ fs2] exI [of _ q]) simp
  next
    case False
    have "take (length a) (enc f @ concat (map enc fs)) = a"
      using Cons.prems by (metis append_eq_conv_conj concat.simps(2) list.simps(9))
    with False have "take (length a) (enc f) = a" by simp
    then obtain c where c: "enc f = a @ c" by (metis append_take_drop_id)
    with False have "c \<noteq> []" by auto
    note c = c this
    then show ?thesis using Cons.prems
      by (intro exI [of _ "[]"] exI [of _ "f # fs"] exI [of _ a]) simp
  qed
qed

lemma feed_stream:
  assumes "list_all valid (fs @ hs)" and "length (concat (map enc fs) @ q) \<le> lim"
    and "q = [] \<or> (\<exists>f gs c. hs = f # gs \<and> enc f = q @ c \<and> c \<noteq> [])"
  shows "feed (concat (map enc fs) @ q) = (fs, q, None)"
  using assms
proof (induction fs)
  case Nil
  then show ?case using feed_nil feed_wait by auto
next
  case (Cons f fs)
  have "feed (enc f @ (concat (map enc fs) @ q)) =
      (case feed (concat (map enc fs) @ q) of (gs, b, e) \<Rightarrow> (f # gs, b, e))"
    by (rule feed_one) (use Cons.prems in simp_all)
  then show ?case using Cons by simp
qed

text \<open>However the stream is cut, the packets come out whole, in order and without an error.\<close>

lemma receive_stream:
  assumes "list_all valid fs" and "b @ concat cs = concat (map enc fs)"
    and "b = [] \<or> (\<exists>f gs c. fs = f # gs \<and> enc f = b @ c \<and> c \<noteq> [])"
    and "list_all (\<lambda>c. length c + maxlen \<le> lim) cs"
  shows "receive feed b cs = (fs, [], [])"
  using assms
proof (induction cs arbitrary: b fs)
  case Nil
  show ?case
  proof (cases "b = []")
    case True
    then have "concat (map enc fs) = []" using Nil by simp
    moreover have "enc f \<noteq> []" if "valid f" for f
      using enc_nonempty [OF that] .
    ultimately have "fs = []" using Nil.prems(1) by (cases fs) auto
    with True show ?thesis by simp
  next
    case False
    then obtain f gs c where f: "fs = f # gs" "enc f = b @ c" "c \<noteq> []" using Nil.prems(3) by blast
    have "b = (b @ c) @ concat (map enc gs)" using Nil.prems(2) f(1,2) by simp
    then have "length b = length ((b @ c) @ concat (map enc gs))" by (rule arg_cong)
    then have "c = []" by simp
    with f(3) show ?thesis by simp
  qed
next
  case (Cons d cs)
  from Cons.prems(2) have "(b @ d) @ concat cs = concat (map enc fs)" by simp
  from split_stream [OF this] obtain fs1 fs2 q where s: "fs = fs1 @ fs2"
      "b @ d = concat (map enc fs1) @ q" "q @ concat cs = concat (map enc fs2)"
      "q = [] \<or> (\<exists>f gs c. fs2 = f # gs \<and> enc f = q @ c \<and> c \<noteq> [])" by blast
  have "length b \<le> maxlen"
  proof (cases "b = []")
    case False
    then obtain f gs c where "fs = f # gs" "enc f = b @ c" using Cons.prems(3) by blast
    then have "length (b @ c) \<le> maxlen" using Cons.prems(1) enc_maxlen [of f] by simp
    then show ?thesis by simp
  qed simp
  then have "length (b @ d) \<le> lim" using Cons.prems(4) by simp
  then have "feed (b @ d) = (fs1, q, None)"
    using feed_stream [of fs1 fs2 q] s Cons.prems(1) by simp
  moreover have "receive feed q cs = (fs2, [], [])"
    by (rule Cons.IH) (use s Cons.prems in simp_all)
  ultimately show ?case using s(1) by simp
qed

end

section \<open>The P2P receive loop\<close>

datatype stream_error = BufferFlushed | InvalidMagic u16 | OversizedPayload u32 u32 | BadPacket

definition MAX_FRAME_PAYLOAD_SIZE :: u32 where "MAX_FRAME_PAYLOAD_SIZE = 4 * 1024 * 1024"
definition MAX_RECEIVE_BUFFER_SIZE :: nat where "MAX_RECEIVE_BUFFER_SIZE = 8 * 1024 * 1024"

text \<open>\<open>QByteArray::indexOf(pattern, from)\<close>.\<close>

definition b_indexOf :: "bytes \<Rightarrow> nat \<Rightarrow> bytes \<Rightarrow> nat option" where
  "b_indexOf pat start buf = find (\<lambda>i. take (length pat) (drop i buf) = pat) [start..<length buf]"

lemma b_indexOf_Some: "b_indexOf pat start buf = Some i \<Longrightarrow> start \<le> i \<and> i < length buf"
  by (auto simp: b_indexOf_def find_Some_iff)

text \<open>
  The loop over the buffer; \<open>err\<close> is the last error string written, \<open>fs\<close> the frames so
  far. The length field is at most \<open>maxPayloadSize\<close> where \<open>totalFrameSize\<close> is computed,
  so for every limit below \<open>2^31 - 12\<close> (the program passes \<open>2^22\<close>) the \<open>int\<close> sum of the
  source is the natural number \<open>12 + payloadLen\<close>.
\<close>

function stream_loop :: "u32 \<Rightarrow> bytes \<Rightarrow> stream_error option \<Rightarrow> p2p_frame list
    \<Rightarrow> p2p_frame list \<times> bytes \<times> stream_error option" where
  "stream_loop maxPayloadSize buffer err fs =
    (if length buffer < 8 then (fs, buffer, err)
     else let magic = rd16 buffer 0 in
       if magic \<noteq> FRAME_MAGIC then
         (case b_indexOf [0x4D, 0x43] 1 buffer of
            Some nextMagicIdx \<Rightarrow>
              stream_loop maxPayloadSize (drop nextMagicIdx buffer) (Some (InvalidMagic magic)) fs
          | None \<Rightarrow> (fs, [], Some (InvalidMagic magic)))
       else let payloadLen = rd32 buffer 4 in
         if payloadLen > maxPayloadSize then
           (fs, [], Some (OversizedPayload payloadLen maxPayloadSize))
         else let totalFrameSize = 12 + unat payloadLen in
           if length buffer < totalFrameSize then (fs, buffer, err)
           else let singlePacket = take totalFrameSize buffer; buffer' = drop totalFrameSize buffer in
             (case decode_frame singlePacket of
                Some frame \<Rightarrow> stream_loop maxPayloadSize buffer' err (fs @ [frame])
              | None \<Rightarrow> stream_loop maxPayloadSize buffer' (Some BadPacket) fs))"
  by pat_completeness auto
termination
  by (relation "measure (\<lambda>(_, buffer, _, _). length buffer)") (auto dest: b_indexOf_Some)

declare stream_loop.simps [simp del]

definition processStreamBuffer :: "u32 \<Rightarrow> bytes \<Rightarrow> p2p_frame list \<times> bytes \<times> stream_error option" where
  "processStreamBuffer maxPayloadSize buffer =
    (if length buffer > MAX_RECEIVE_BUFFER_SIZE then ([], [], Some BufferFlushed)
     else stream_loop maxPayloadSize buffer None [])"

section \<open>The loop, branch by branch\<close>

lemma loop_short: "length buf < 8 \<Longrightarrow> stream_loop m buf err fs = (fs, buf, err)"
  by (simp add: stream_loop.simps [of m buf])

lemma loop_resync:
  "8 \<le> length buf \<Longrightarrow> rd16 buf 0 \<noteq> FRAME_MAGIC \<Longrightarrow> b_indexOf [0x4D, 0x43] 1 buf = Some i \<Longrightarrow>
     stream_loop m buf err fs = stream_loop m (drop i buf) (Some (InvalidMagic (rd16 buf 0))) fs"
  by (simp add: stream_loop.simps [of m buf] Let_def)

lemma loop_garbage:
  "8 \<le> length buf \<Longrightarrow> rd16 buf 0 \<noteq> FRAME_MAGIC \<Longrightarrow> b_indexOf [0x4D, 0x43] 1 buf = None \<Longrightarrow>
     stream_loop m buf err fs = (fs, [], Some (InvalidMagic (rd16 buf 0)))"
  by (simp add: stream_loop.simps [of m buf] Let_def)

lemma loop_oversized:
  "8 \<le> length buf \<Longrightarrow> rd16 buf 0 = FRAME_MAGIC \<Longrightarrow> m < rd32 buf 4 \<Longrightarrow>
     stream_loop m buf err fs = (fs, [], Some (OversizedPayload (rd32 buf 4) m))"
  by (simp add: stream_loop.simps [of m buf] Let_def)

lemma loop_incomplete:
  "8 \<le> length buf \<Longrightarrow> rd16 buf 0 = FRAME_MAGIC \<Longrightarrow> rd32 buf 4 \<le> m \<Longrightarrow>
     length buf < 12 + unat (rd32 buf 4) \<Longrightarrow> stream_loop m buf err fs = (fs, buf, err)"
  by (simp add: stream_loop.simps [of m buf] Let_def leD [of "rd32 buf 4" m])

lemma loop_frame:
  "rd16 buf 0 = FRAME_MAGIC \<Longrightarrow> rd32 buf 4 \<le> m \<Longrightarrow> 12 + unat (rd32 buf 4) \<le> length buf \<Longrightarrow>
     stream_loop m buf err fs = (case decode_frame (take (12 + unat (rd32 buf 4)) buf) of
       Some f \<Rightarrow> stream_loop m (drop (12 + unat (rd32 buf 4)) buf) err (fs @ [f])
     | None \<Rightarrow> stream_loop m (drop (12 + unat (rd32 buf 4)) buf) (Some BadPacket) fs)"
  by (simp add: stream_loop.simps [of m buf] Let_def leD [of "12 + unat (rd32 buf 4)"]
      leD [of "rd32 buf 4" m])

lemma loop_cases:
  obtains "length buf < 8"
  | i where "8 \<le> length buf" "rd16 buf 0 \<noteq> FRAME_MAGIC" "b_indexOf [0x4D, 0x43] 1 buf = Some i"
  | "8 \<le> length buf" "rd16 buf 0 \<noteq> FRAME_MAGIC" "b_indexOf [0x4D, 0x43] 1 buf = None"
  | "8 \<le> length buf" "rd16 buf 0 = FRAME_MAGIC" "m < rd32 buf 4"
  | "8 \<le> length buf" "rd16 buf 0 = FRAME_MAGIC" "rd32 buf 4 \<le> m" "length buf < 12 + unat (rd32 buf 4)"
  | "rd16 buf 0 = FRAME_MAGIC" "rd32 buf 4 \<le> m" "12 + unat (rd32 buf 4) \<le> length buf"
  by (metis not_less option.exhaust)

text \<open>What the accumulators hold is passed through.\<close>

definition carry :: "stream_error option \<Rightarrow> p2p_frame list \<Rightarrow> p2p_frame list \<times> bytes \<times> stream_error option
    \<Rightarrow> p2p_frame list \<times> bytes \<times> stream_error option" where
  "carry err fs r = (case r of (gs, b, e) \<Rightarrow> (fs @ gs, b, (case e of None \<Rightarrow> err | Some x \<Rightarrow> Some x)))"

lemma carry_carry: "carry err fs (carry err' gs r) = carry (case err' of None \<Rightarrow> err | Some x \<Rightarrow> Some x) (fs @ gs) r"
  by (simp add: carry_def split: prod.splits option.splits)

lemma carry_None: "carry None [] r = r"
  by (simp add: carry_def split: prod.splits option.splits)

lemma stream_loop_carry: "stream_loop m buf err fs = carry err fs (stream_loop m buf None [])"
proof (induction "length buf" arbitrary: buf err fs rule: less_induct)
  case less
  show ?case
  proof (cases rule: loop_cases [where buf = buf and m = m])
    case 1
    then show ?thesis by (simp add: loop_short carry_def)
  next
    case (2 i)
    then have lt: "length (drop i buf) < length buf" using b_indexOf_Some [OF 2(3)] by auto
    show ?thesis
      using less [OF lt, of "Some (InvalidMagic (rd16 buf 0))" fs]
        less [OF lt, of "Some (InvalidMagic (rd16 buf 0))" "[]"] 2
      by (simp add: loop_resync [OF 2] carry_carry)
  next
    case 3
    then show ?thesis by (simp add: loop_garbage carry_def)
  next
    case 4
    then show ?thesis by (simp add: loop_oversized carry_def)
  next
    case 5
    then show ?thesis by (simp add: loop_incomplete carry_def)
  next
    case 6
    let ?n = "12 + unat (rd32 buf 4)"
    have lt: "length (drop ?n buf) < length buf" using 6 by simp
    show ?thesis
    proof (cases "decode_frame (take ?n buf)")
      case None
      then show ?thesis
        using less [OF lt, of "Some BadPacket" fs] less [OF lt, of "Some BadPacket" "[]"]
        by (simp add: loop_frame [OF 6] carry_carry)
    next
      case (Some f)
      then show ?thesis
        using less [OF lt, of err "fs @ [f]"] less [OF lt, of None "[f]"]
        by (simp add: loop_frame [OF 6] carry_carry)
    qed
  qed
qed

section \<open>The loop meets the contract\<close>

definition small_frame :: "p2p_frame \<Rightarrow> bool" where
  "small_frame f \<longleftrightarrow> length (payload f) \<le> 4 * 1024 * 1024"

lemma small_frame_fits: "small_frame f \<Longrightarrow> frame_fits f"
  by (simp add: small_frame_def frame_fits_def)

lemma encode_frame_header:
  assumes "encode_frame f = b @ c" and "8 \<le> length b"
  shows "rd16 b 0 = FRAME_MAGIC" and "rd32 b 4 = of_nat (length (payload f))"
proof -
  have e: "encode_frame f = frame_body f @ be32 (calculateCrc32 (frame_body f))"
    by (simp add: encode_frame_def Let_def)
  show "rd16 b 0 = FRAME_MAGIC"
    using rd16_append [of 0 b c] frame_fields(1) [of f] e assms by simp
  show "rd32 b 4 = of_nat (length (payload f))"
    using rd32_append [of 4 b c] frame_fields(3) [of f] e assms by simp
qed

lemma small_frame_len:
  assumes "small_frame f"
  shows "unat (of_nat (length (payload f)) :: u32) = length (payload f)"
    and "(of_nat (length (payload f)) :: u32) \<le> MAX_FRAME_PAYLOAD_SIZE"
proof -
  show u: "unat (of_nat (length (payload f)) :: u32) = length (payload f)"
    using assms by (intro unat_of_nat_u32) (simp add: small_frame_def)
  then show "(of_nat (length (payload f)) :: u32) \<le> MAX_FRAME_PAYLOAD_SIZE"
    using assms by (simp add: word_le_nat_alt MAX_FRAME_PAYLOAD_SIZE_def small_frame_def)
qed

lemma loop_encoded:
  assumes "small_frame f"
  shows "stream_loop MAX_FRAME_PAYLOAD_SIZE (encode_frame f @ rest) None []
    = carry None [f] (stream_loop MAX_FRAME_PAYLOAD_SIZE rest None [])"
proof -
  let ?b = "encode_frame f @ rest"
  have h: "rd16 ?b 0 = FRAME_MAGIC" "rd32 ?b 4 = of_nat (length (payload f))"
    using encode_frame_header [of f "encode_frame f" "[]"] by (simp_all add: rd16_append rd32_append)
  have "stream_loop MAX_FRAME_PAYLOAD_SIZE ?b None [] = stream_loop MAX_FRAME_PAYLOAD_SIZE rest None [f]"
    using loop_frame [of ?b MAX_FRAME_PAYLOAD_SIZE None "[]"] h small_frame_len [OF assms]
      frames.dec_enc [OF small_frame_fits [OF assms]] by simp
  then show ?thesis by (simp add: stream_loop_carry [of _ rest None "[f]"])
qed

interpretation p2p_stream: stream_splitter encode_frame "processStreamBuffer MAX_FRAME_PAYLOAD_SIZE"
  small_frame MAX_RECEIVE_BUFFER_SIZE "4 * 1024 * 1024 + 12"
proof unfold_locales
  fix f rest assume "small_frame f" "length (encode_frame f @ rest) \<le> MAX_RECEIVE_BUFFER_SIZE"
  then show "processStreamBuffer MAX_FRAME_PAYLOAD_SIZE (encode_frame f @ rest)
      = (case processStreamBuffer MAX_FRAME_PAYLOAD_SIZE rest of (fs, b, e) \<Rightarrow> (f # fs, b, e))"
    by (simp add: processStreamBuffer_def loop_encoded carry_def split: prod.splits option.splits)
next
  fix f b c assume f: "small_frame f" and e: "encode_frame f = b @ c" and c: "c \<noteq> ([] :: bytes)"
  have len: "length b < 12 + length (payload f)"
    using arg_cong [OF e, of length] c by simp
  then have "length b \<le> MAX_RECEIVE_BUFFER_SIZE"
    using f by (simp add: small_frame_def MAX_RECEIVE_BUFFER_SIZE_def)
  moreover have "stream_loop MAX_FRAME_PAYLOAD_SIZE b None [] = ([], b, None)"
  proof (cases "length b < 8")
    case False
    then show ?thesis
      using encode_frame_header [OF e] small_frame_len [OF f] len by (intro loop_incomplete) simp_all
  qed (simp add: loop_short)
  ultimately show "processStreamBuffer MAX_FRAME_PAYLOAD_SIZE b = ([], b, None)"
    by (simp add: processStreamBuffer_def)
qed (simp_all add: processStreamBuffer_def loop_short small_frame_def length_0_conv [symmetric]
      del: length_0_conv)

section \<open>Properties\<close>

text \<open>
  C1: However TCP cuts a stream of encoded frames (payloads up to 4 MiB, chunks up to 4 MiB
  - 12), feeding the chunks through processStreamBuffer with the retained buffer yields
  exactly the frames sent, in order, with no error and nothing left.
\<close>

theorem stream_reassembly:
  assumes "list_all (\<lambda>f. length (payload f) \<le> 4 * 1024 * 1024) fs"
    and "concat cs = concat (map encode_frame fs)"
    and "list_all (\<lambda>c. length c \<le> 4 * 1024 * 1024 - 12) cs"
  shows "receive (processStreamBuffer MAX_FRAME_PAYLOAD_SIZE) [] cs = (fs, [], [])"
proof (rule p2p_stream.receive_stream)
  show "list_all small_frame fs"
    using assms(1) by (simp add: list_all_iff small_frame_def)
  show "list_all (\<lambda>c. length c + (4 * 1024 * 1024 + 12) \<le> MAX_RECEIVE_BUFFER_SIZE) cs"
    using assms(3) by (auto simp: list_all_iff MAX_RECEIVE_BUFFER_SIZE_def)
qed (use assms(2) in simp_all)

theorem stream_reassembly_witness:
  "receive (processStreamBuffer MAX_FRAME_PAYLOAD_SIZE) []
     [take 5 (encode_frame heartbeat_frame), drop 5 (encode_frame heartbeat_frame) @ take 1 (encode_frame heartbeat_frame),
      drop 1 (encode_frame heartbeat_frame)]
   = ([heartbeat_frame, heartbeat_frame], [], [])"
  by (rule stream_reassembly) (simp_all add: heartbeat_frame_def del: append_assoc flip: append_assoc,
      simp only: append_assoc append_take_drop_id)

lemma loop_bounds:
  "stream_loop m buf None [] = (fs, b, e) \<Longrightarrow>
     length b \<le> length buf \<and> length b < 12 + unat m \<and> list_all (\<lambda>f. length (payload f) \<le> unat m) fs"
proof (induction "length buf" arbitrary: buf fs e rule: less_induct)
  case less
  show ?case
  proof (cases rule: loop_cases [where buf = buf and m = m])
    case 1
    then show ?thesis using less.prems by (auto simp: loop_short)
  next
    case (2 i)
    obtain e' where r: "stream_loop m (drop i buf) None [] = (fs, b, e')"
      using less.prems by (auto simp: loop_resync [OF 2] stream_loop_carry [of m _ "Some _"] carry_def
          split: prod.splits)
    have "length (drop i buf) < length buf" using b_indexOf_Some [OF 2(3)] by auto
    from less.hyps [OF this r] show ?thesis by auto
  next
    case 3
    then show ?thesis using less.prems by (auto simp: loop_garbage)
  next
    case 4
    then show ?thesis using less.prems by (auto simp: loop_oversized)
  next
    case 5
    then show ?thesis using less.prems by (auto simp: loop_incomplete word_le_nat_alt)
  next
    case 6
    let ?n = "12 + unat (rd32 buf 4)"
    obtain gs e' where r: "stream_loop m (drop ?n buf) None [] = (gs, b, e')"
      and fs: "fs = (case decode_frame (take ?n buf) of Some f \<Rightarrow> [f] | None \<Rightarrow> []) @ gs"
      using less.prems
      by (auto simp: loop_frame [OF 6] stream_loop_carry [of m _ None "[f]" for f]
          stream_loop_carry [of m _ "Some BadPacket"] carry_def split: prod.splits option.splits)
    have "length (drop ?n buf) < length buf" using 6 by simp
    from less.hyps [OF this r] have IH: "length b \<le> length (drop ?n buf)" "length b < 12 + unat m"
      "list_all (\<lambda>f. length (payload f) \<le> unat m) gs" by auto
    have "length (payload f) \<le> unat m" if "decode_frame (take ?n buf) = Some f" for f
    proof -
      have "length (encode_frame f) = ?n" using frames.enc_dec [OF that] 6(3) by simp
      then show ?thesis using 6(2) by (simp add: word_le_nat_alt)
    qed
    with IH fs show ?thesis by (auto split: option.splits)
  qed
qed

text \<open>
  Whatever bytes arrive, processStreamBuffer keeps fewer bytes than one frame of the maximal
  payload, never more than it was given, and delivers no frame above the maximal payload.
\<close>

theorem receive_buffer_bounded:
  assumes "processStreamBuffer maxPayloadSize buffer = (fs, rest, e)"
  shows "length rest \<le> length buffer \<and> length rest < 12 + unat maxPayloadSize
    \<and> list_all (\<lambda>f. length (payload f) \<le> unat maxPayloadSize) fs"
  using assms loop_bounds by (auto simp: processStreamBuffer_def split: if_splits)

theorem receive_buffer_bounded_witness:
  "length (take 11 (encode_frame heartbeat_frame)) < 12 + unat MAX_FRAME_PAYLOAD_SIZE"
proof -
  have "processStreamBuffer MAX_FRAME_PAYLOAD_SIZE (take 11 (encode_frame heartbeat_frame))
      = ([], take 11 (encode_frame heartbeat_frame), None)"
    by (rule p2p_stream.feed_wait [of heartbeat_frame _ "drop 11 (encode_frame heartbeat_frame)"])
      (simp_all add: small_frame_def heartbeat_frame_def)
  from receive_buffer_bounded [OF this] show ?thesis by simp
qed

text \<open>
  Garbage before a frame: the receiver resynchronises on the next magic, but it drops a
  lone first magic byte at the end of a chunk, so here the cut of the stream decides
  whether the frame survives.
\<close>

lemma heartbeat_bytes:
  "encode_frame heartbeat_frame = [0x4D, 0x43, 0, 1, 0, 0, 0, 0] @ be32 (calculateCrc32 [0x4D, 0x43, 0, 1, 0, 0, 0, 0])"
proof -
  have "be16 FRAME_MAGIC = [0x4D, 0x43]" "be16 Heartbeat = [0, 1]" "be32 0 = [0, 0, 0, 0]"
    by (simp_all add: be16_def be32_def FRAME_MAGIC_def Heartbeat_def)
  then show ?thesis
    by (simp add: encode_frame_def Let_def frame_body_alt heartbeat_frame_def)
qed

lemma heartbeat_crc: "calculateCrc32 [0x4D, 0x43, 0, 1, 0, 0, 0, 0] = 0x9F394E01"
  by (simp add: calculateCrc32_def crc_byte_def funpow_8 crc_bit_def)

lemma heartbeat_wire: "encode_frame heartbeat_frame = [0x4D, 0x43, 0, 1, 0, 0, 0, 0, 0x9F, 0x39, 0x4E, 0x01]"
  by (simp add: heartbeat_bytes heartbeat_crc) (simp add: be32_def)

text \<open>Garbage without the first magic byte is skipped up to the magic behind it.\<close>

lemma find_map: "find P (map f xs) = map_option f (find (P \<circ> f) xs)"
  by (induction xs) auto

lemma find_append: "find P xs = None \<Longrightarrow> find P (xs @ ys) = find P ys"
  by (induction xs) (auto split: if_splits)

lemma skip_garbage:
  assumes z: "0x4D \<notin> set z" "1 \<le> length z"
  shows "b_indexOf [0x4D, 0x43] 1 (z @ r) = map_option (\<lambda>i. i + length z) (b_indexOf [0x4D, 0x43] 0 r)"
proof -
  let ?P = "\<lambda>i. take 2 (drop i (z @ r)) = [0x4D, 0x43]"
  have "\<not> ?P i" if "i < length z" for i
  proof
    assume "?P i"
    then have "hd (take 2 (drop i (z @ r))) = 0x4D" by simp
    then have "z ! i = 0x4D" using that by (simp add: hd_drop_conv_nth nth_append)
    with z(1) that show False by (metis nth_mem)
  qed
  then have none: "find ?P [1..<length z] = None" by (simp add: find_None_iff)
  have "[1..<length (z @ r)] = [1..<length z] @ [length z..<length z + length r]"
    using upt_add_eq_append [OF z(2), of "length r"] by simp
  also have "[length z..<length z + length r] = map (\<lambda>i. i + length z) [0..<length r]"
    by (simp add: map_add_upt add.commute)
  finally have "find ?P [1..<length (z @ r)] = find ?P (map (\<lambda>i. i + length z) [0..<length r])"
    using find_append [OF none] by simp
  also have "\<dots> = map_option (\<lambda>i. i + length z) (find (?P \<circ> (\<lambda>i. i + length z)) [0..<length r])"
    by (rule find_map)
  also have "?P \<circ> (\<lambda>i. i + length z) = (\<lambda>i. take 2 (drop i r) = [0x4D, 0x43])" by (simp add: comp_def)
  finally show ?thesis by (simp add: b_indexOf_def numeral_2_eq_2)
qed

lemma magic_first: "2 \<le> length b \<Longrightarrow> rd16 b 0 = FRAME_MAGIC \<Longrightarrow> hd b = 0x4D"
proof -
  assume l: "2 \<le> length b" and m: "rd16 b 0 = FRAME_MAGIC"
  have "be16 (rd16 b 0) = [b ! 0, b ! 1]" by (simp add: rd16_def split16)
  then have "b ! 0 = 0x4D" by (simp add: m be16_def FRAME_MAGIC_def)
  then show ?thesis using l by (cases b) simp_all
qed

text \<open>The frame begins with the magic.\<close>

lemma encode_magic: "encode_frame f = 0x4D # 0x43 # drop 2 (encode_frame f)"
  by (simp add: encode_frame_def Let_def frame_body_alt be16_def FRAME_MAGIC_def)

lemma garbage_then:
  assumes "0x4D \<notin> set z" and "2 \<le> length z" and "8 \<le> length (z @ r)"
  shows "stream_loop m (z @ r) None [] = (case b_indexOf [0x4D, 0x43] 0 r of
      None \<Rightarrow> ([], [], Some (InvalidMagic (rd16 z 0)))
    | Some i \<Rightarrow> carry (Some (InvalidMagic (rd16 z 0))) [] (stream_loop m (drop i r) None []))"
proof -
  have r: "rd16 (z @ r) 0 = rd16 z 0" using assms(2) by (simp add: rd16_append)
  have "hd (z @ r) \<noteq> 0x4D" using assms(1,2) by (cases z) auto
  then have m: "rd16 (z @ r) 0 \<noteq> FRAME_MAGIC" using magic_first [of "z @ r"] assms(2) by auto
  have idx: "b_indexOf [0x4D, 0x43] 1 (z @ r) = map_option (\<lambda>i. i + length z) (b_indexOf [0x4D, 0x43] 0 r)"
    by (rule skip_garbage) (use assms in simp_all)
  show ?thesis
  proof (cases "b_indexOf [0x4D, 0x43] 0 r")
    case None
    then show ?thesis using loop_garbage [OF assms(3) m] idx r by simp
  next
    case (Some i)
    then show ?thesis using loop_resync [OF assms(3) m, of "i + length z"] idx r
        stream_loop_carry [of m "drop i r" "Some (InvalidMagic (rd16 z 0))" "[]"] by simp
  qed
qed

lemma small_buffers: "length buf \<le> 8 * 1024 * 1024 \<Longrightarrow> processStreamBuffer m buf = stream_loop m buf None []"
  by (simp add: processStreamBuffer_def MAX_RECEIVE_BUFFER_SIZE_def)



end
