(* ===== verification/MqttCodec.thy ===== *)
theory MqttCodec
  imports Messages StreamBuffer
begin

text \<open>
  The MQTT 3.1.1 codec of src/network/mqtt_signaling.cpp: the variable-length integer, the
  length-prefixed string, the validity tests of device ids and topics, and the step of the
  receive loop that takes one packet from the buffer. The step satisfies \<open>stream_splitter\<close>,
  so the way the TLS stream is cut does not matter to it either.
\<close>

section \<open>Variable-length integers\<close>

text \<open>The body of the \<open>do ... while\<close> loop; \<open>n\<close> bytes have been written.\<close>

function varlen_loop :: "u32 \<Rightarrow> nat \<Rightarrow> bytes" where
  "varlen_loop len n =
    (let byte = ucast (len mod 128) :: u8; len' = len div 128;
         byte' = (if len' > 0 then byte OR 0x80 else byte) in
     byte' # (if len' > 0 \<and> n + 1 < 4 then varlen_loop len' (n + 1) else []))"
  by pat_completeness auto
termination
  by (relation "measure (\<lambda>(len, n). 4 - n)") auto

declare varlen_loop.simps [simp del]

definition encodeVariableLength :: "u32 \<Rightarrow> bytes" where
  "encodeVariableLength len = varlen_loop len 0"

text \<open>The decoder: \<open>Some (length, bytesConsumed)\<close> where the source returns true.\<close>

function varlen_decode :: "bytes \<Rightarrow> nat \<Rightarrow> u32 \<Rightarrow> u32 \<Rightarrow> nat \<Rightarrow> (u32 \<times> nat) option" where
  "varlen_decode buf offset multiplier val consumed =
    (if offset + consumed < length buf then
       let byte = buf ! (offset + consumed); val' = val + ucast (byte AND 127) * multiplier in
       if multiplier > 128 * 128 * 128 then None
       else if byte AND 128 = 0 then Some (val', consumed + 1)
       else if consumed + 1 \<ge> 4 then None
       else varlen_decode buf offset (multiplier * 128) val' (consumed + 1)
     else None)"
  by pat_completeness auto
termination
  by (relation "measure (\<lambda>(buf, offset, _, _, consumed). length buf - (offset + consumed))") auto

declare varlen_decode.simps [simp del]

definition decodeVariableLength :: "bytes \<Rightarrow> nat \<Rightarrow> (u32 \<times> nat) option" where
  "decodeVariableLength buf offset = varlen_decode buf offset 1 0 0"

lemma length_varlen: "n < 4 \<Longrightarrow> length (varlen_loop len n) \<le> 4 - n \<and> varlen_loop len n \<noteq> []"
proof (induction "4 - n" arbitrary: len n)
  case (Suc k)
  have "length (varlen_loop (len div 128) (Suc n)) \<le> 4 - Suc n" if "n + 1 < 4"
    using Suc.hyps(1) [of "Suc n" "len div 128"] Suc.hyps(2) that by simp
  with Suc.prems show ?case by (subst (1 2) varlen_loop.simps) (auto simp: Let_def)
qed simp

lemma length_encodeVariableLength: "length (encodeVariableLength len) \<le> 4" "encodeVariableLength len \<noteq> []"
  using length_varlen [of 0 len] by (simp_all add: encodeVariableLength_def)

lemma seven_bits: "(len :: u32) mod 128 = take_bit 7 len"
  by (simp add: take_bit_eq_mod)

lemma byte_value:
  "ucast ((ucast (len mod 128 :: u32) :: u8) AND 127) = len mod 128"
  "ucast (((ucast (len mod 128 :: u32) :: u8) OR 0x80) AND 127) = len mod 128"
  "(ucast (len mod 128 :: u32) :: u8) AND 128 = 0"
  "((ucast (len mod 128 :: u32) :: u8) OR 0x80) AND 128 \<noteq> 0"
proof -
  have m: "bit (127 :: u8) n \<longleftrightarrow> n < 7" "bit (128 :: u8) n \<longleftrightarrow> n = 7"
    "bit (127 :: int) n \<longleftrightarrow> n < 7" "bit (128 :: int) n \<longleftrightarrow> n = 7" for n
    using bit_mask_iff [of 7 n, where 'a = u8] bit_exp_iff [of 7 n, where 'a = u8]
      bit_mask_iff [of 7 n, where 'a = int] bit_exp_iff [of 7 n, where 'a = int]
    by (auto simp: mask_eq_exp_minus_1)
  show "ucast ((ucast (len mod 128 :: u32) :: u8) AND 127) = len mod 128"
    unfolding seven_bits by (rule bit_word_eqI) (auto simp: bit_simps m)
  show "ucast (((ucast (len mod 128 :: u32) :: u8) OR 0x80) AND 127) = len mod 128"
    unfolding seven_bits by (rule bit_word_eqI) (auto simp: bit_simps m)
  show "(ucast (len mod 128 :: u32) :: u8) AND 128 = 0"
    unfolding seven_bits by (rule bit_word_eqI) (auto simp: bit_simps m)
  have "bit (((ucast (len mod 128 :: u32) :: u8) OR 0x80) AND 128) 7"
    by (simp add: bit_simps m)
  then show "((ucast (len mod 128 :: u32) :: u8) OR 0x80) AND 128 \<noteq> 0" by (metis bit_0_eq bot_apply bot_bool_def)
qed

lemma pow_bound:
  assumes "n < 4"
  shows "\<not> (128 ^ n :: u32) > 128 * 128 * 128"
proof -
  have "n = 0 \<or> n = 1 \<or> n = 2 \<or> n = 3" using assms by arith
  then show ?thesis by (elim disjE) simp_all
qed

lemma div_small: "n < 4 \<Longrightarrow> unat len < 128 ^ (4 - n) \<Longrightarrow> unat (len div 128) < 128 ^ (4 - Suc n)" for len :: u32
proof -
  assume n: "n < 4" and "unat len < 128 ^ (4 - n)"
  moreover from n have "4 - n = Suc (4 - Suc n)" by arith
  ultimately have "unat len < 128 ^ (4 - Suc n) * 128" by simp
  then show ?thesis by (simp only: unat_div div_less_iff_less_mult [of 128] unat_numeral) (simp add: div_less_iff_less_mult)
qed

lemma nth_mid_cons: "length p = i \<Longrightarrow> (p @ x # s) ! i = x"
  by (simp add: nth_append)

lemma varlen_more: "n < 4 \<Longrightarrow> unat len < 128 ^ (4 - n) \<Longrightarrow> len div 128 > 0 \<Longrightarrow> n < 3" for len :: u32
  by (cases "n = 3") (auto simp: word_less_nat_alt unat_div)

lemma varlen_decode_loop:
  "n < 4 \<Longrightarrow> unat len < 128 ^ (4 - n) \<Longrightarrow> length p = off + n \<Longrightarrow>
     varlen_decode (p @ varlen_loop len n @ r) off (128 ^ n) v n
       = Some (v + len * 128 ^ n, n + length (varlen_loop len n))"
proof (induction "4 - n" arbitrary: len n p v)
  case (Suc k)
  let ?b = "ucast (len mod 128) :: u8"
  show ?case
  proof (cases "len div 128 > 0")
    case True
    with varlen_more Suc.prems have n: "n < 3" by blast
    note small = div_small [OF Suc.prems(1,2)]
    have split: "v + (len mod 128) * 128 ^ n + (len div 128) * (128 ^ n * 128) = v + len * 128 ^ n"
    proof -
      have "len = (len div 128) * 128 + len mod 128" by (simp only: div_mult_mod_eq)
      then have "len * 128 ^ n = ((len div 128) * 128 + len mod 128) * 128 ^ n" by simp
      then show ?thesis by (simp only: ring_distribs mult.assoc mult.commute mult.left_commute add_ac)
    qed
    let ?p = "p @ [?b OR 0x80]"
    have loop: "varlen_loop len n = (?b OR 0x80) # varlen_loop (len div 128) (Suc n)"
      using True n by (subst varlen_loop.simps) (simp add: Let_def)
    have "varlen_decode (?p @ varlen_loop (len div 128) (Suc n) @ r) off (128 ^ Suc n) (v + (len mod 128) * 128 ^ n) (Suc n)
        = Some (v + (len mod 128) * 128 ^ n + (len div 128) * 128 ^ Suc n, Suc n + length (varlen_loop (len div 128) (Suc n)))"
      by (rule Suc.hyps(1)) (use Suc n small in simp_all)
    then show ?thesis
      using n Suc.prems split pow_bound [of n]
      by (subst varlen_decode.simps) (simp add: loop Let_def nth_mid_cons byte_value mult.commute)
  next
    case False
    then have z: "len div 128 = 0" by (simp add: word_gt_0)
    then have "len mod 128 = len" by (metis add.left_neutral div_mult_mod_eq mult_zero_left)
    moreover have loop: "varlen_loop len n = [?b]" using z by (subst varlen_loop.simps) (simp add: Let_def)
    ultimately show ?thesis
      using Suc.prems pow_bound [of n] byte_value [of len]
      by (subst varlen_decode.simps) (simp add: loop Let_def nth_mid_cons)
  qed
qed simp

lemma varlen_decode_cut:
  "n < 4 \<Longrightarrow> unat len < 128 ^ (4 - n) \<Longrightarrow> length p = off + n \<Longrightarrow> varlen_loop len n = q @ c \<Longrightarrow> c \<noteq> [] \<Longrightarrow>
     varlen_decode (p @ q) off m v n = None"
proof (induction "4 - n" arbitrary: len n p v m q)
  case (Suc k)
  show ?case
  proof (cases q)
    case Nil
    then show ?thesis using Suc.prems by (subst varlen_decode.simps) simp
  next
    case (Cons x q')
    let ?b = "ucast (len mod 128) :: u8"
    have more: "len div 128 > 0"
    proof (rule ccontr)
      assume "\<not> len div 128 > 0"
      then have "varlen_loop len n = [?b]" by (subst varlen_loop.simps) (simp add: Let_def)
      with Suc.prems(4,5) Cons show False by auto
    qed
    with varlen_more Suc.prems have n: "n < 3" by blast
    have loop: "varlen_loop len n = (?b OR 0x80) # varlen_loop (len div 128) (Suc n)"
      using more n by (subst varlen_loop.simps) (simp add: Let_def)
    note small = div_small [OF Suc.prems(1,2)]
    have "varlen_decode ((p @ [x]) @ q') off m' v' (Suc n) = None" for m' v'
      by (rule Suc.hyps(1) [of "Suc n" "len div 128"]) (use Suc n small loop Cons in simp_all)
    moreover have "x = ?b OR 0x80" using loop Suc.prems(4) Cons by simp
    ultimately show ?thesis
      using Cons n Suc.prems byte_value [of len]
      by (subst varlen_decode.simps) (simp add: Let_def nth_mid_cons)
  qed
qed simp

text \<open>
  C37: Every remaining length below 2^28 is written in at most four bytes and read back from
  any offset together with its size, while every proper prefix of its encoding is reported
  as incomplete.
\<close>

theorem variable_length_roundtrip:
  assumes "unat len < 2 ^ 28"
  shows "decodeVariableLength (p @ encodeVariableLength len @ r) (length p)
      = Some (len, length (encodeVariableLength len))
    \<and> (\<forall>q c. encodeVariableLength len = q @ c \<and> c \<noteq> [] \<longrightarrow> decodeVariableLength (p @ q) (length p) = None)
    \<and> length (encodeVariableLength len) \<le> 4"
  using varlen_decode_loop [of 0 len p "length p" r 0] varlen_decode_cut [of 0 len p "length p"] assms length_encodeVariableLength
  by (simp add: decodeVariableLength_def encodeVariableLength_def)

theorem variable_length_roundtrip_witness:
  "decodeVariableLength (encodeVariableLength 321) 0 = Some (321, length (encodeVariableLength 321))"
  using variable_length_roundtrip [of 321 "[]" "[]"] by simp


section \<open>Strings, device ids and topics\<close>

definition encodeUtf8String :: "qt_lib \<Rightarrow> qstring \<Rightarrow> bytes" where
  "encodeUtf8String qt str = (let utf8 = to_utf8 qt str in be16 (of_nat (length utf8)) @ utf8)"

definition decodeUtf8String :: "qt_lib \<Rightarrow> bytes \<Rightarrow> nat \<Rightarrow> (qstring \<times> nat) option" where
  "decodeUtf8String qt buf offset =
    (if offset + 2 > length buf then None
     else let len = unat (rd16 buf offset); offset' = offset + 2 in
       if offset' + len > length buf then None
       else Some (from_utf8 qt (mid buf offset' len), offset' + len))"

text \<open>
  The pattern \<open>^[a-zA-Z0-9_\-\.]+$\<close>: without the option \<open>DollarEndOnly\<close> the dollar sign
  also matches before a newline at the end.
\<close>

definition id_unit :: "u16 \<Rightarrow> bool" where
  "id_unit u = ((0x61 \<le> u \<and> u \<le> 0x7A) \<or> (0x41 \<le> u \<and> u \<le> 0x5A) \<or> (0x30 \<le> u \<and> u \<le> 0x39)
     \<or> u = 0x5F \<or> u = 0x2D \<or> u = 0x2E)"

definition id_regex :: "qstring \<Rightarrow> bool" where
  "id_regex s = (let t = (if s \<noteq> [] \<and> last s = 0x0A then butlast s else s) in t \<noteq> [] \<and> list_all id_unit t)"

definition isValidDeviceId :: "qstring \<Rightarrow> bool" where
  "isValidDeviceId deviceId =
    (if length deviceId < 4 \<or> length deviceId > 128 then False
     else if \<not> q_startsWith deviceId (qs ''mc_'') then False
     else id_regex deviceId)"

text \<open>\<open>QChar::toLatin1\<close>: a signed \<open>char\<close>, zero for what is not Latin-1.\<close>

definition toLatin1 :: "u16 \<Rightarrow> int" where
  "toLatin1 u = (if u > 0xFF then 0 else sint (ucast u :: u8))"

definition isValidTopic :: "qstring \<Rightarrow> bool" where
  "isValidTopic topic =
    (if topic = [] \<or> length topic > 256 then False
     else \<not> list_ex (\<lambda>ch. ch = 0 \<or> toLatin1 ch < 32 \<or> toLatin1 ch > 126) topic)"

lemma utf8_string_read:
  assumes "length (to_utf8 qt s) < 2 ^ 16" and "from_utf8 qt (to_utf8 qt s) = s"
  shows "decodeUtf8String qt (p @ encodeUtf8String qt s @ r) (length p) = Some (s, length p + 2 + length (to_utf8 qt s))"
proof -
  have len: "unat (of_nat (length (to_utf8 qt s)) :: u16) = length (to_utf8 qt s)"
    using assms(1) by (simp add: unat_of_nat take_bit_nat_eq_self)
  have "rd16 (p @ be16 (of_nat (length (to_utf8 qt s))) @ to_utf8 qt s @ r) (length p) = of_nat (length (to_utf8 qt s))"
    by (simp add: be_simps)
  moreover have "mid (p @ be16 (of_nat (length (to_utf8 qt s))) @ to_utf8 qt s @ r) (length p + 2) (length (to_utf8 qt s))
      = to_utf8 qt s"
    using mid_append [of "p @ be16 (of_nat (length (to_utf8 qt s)))" "length p + 2" "to_utf8 qt s" "length (to_utf8 qt s)" r]
    by simp
  ultimately show ?thesis
    by (simp add: decodeUtf8String_def encodeUtf8String_def Let_def len assms(2))
qed

lemma latin1_range: "(u \<noteq> 0 \<and> \<not> toLatin1 u < 32 \<and> \<not> toLatin1 u > 126) \<longleftrightarrow> 32 \<le> u \<and> u \<le> 126"
proof (cases "u > 0xFF")
  case True
  then show ?thesis by (simp add: toLatin1_def word_less_nat_alt word_le_nat_alt)
next
  case False
  define n where "n = unat u"
  have un: "uint u = int n" by (simp add: n_def)
  have b: "n < 256" using False by (simp add: n_def word_less_nat_alt)
  have "sint (ucast u :: u8) = (int n + 2 ^ 7) mod 2 ^ 8 - 2 ^ 7"
    using int_word_sint [where 'a = 8, of "uint u"] by (simp add: un [symmetric])
  also have "(int n + 2 ^ 7) mod 2 ^ 8 = (if n < 128 then int n + 2 ^ 7 else int n - 2 ^ 7)"
    using b by (auto intro: int_mod_pos_eq [where q = 1] int_mod_pos_eq [where q = 0])
  finally show ?thesis using False b by (auto simp: toLatin1_def word_le_nat_alt unat_eq_0 simp flip: n_def)
qed

lemma valid_topic_iff:
  "isValidTopic topic \<longleftrightarrow> 0 < length topic \<and> length topic \<le> 256 \<and> (\<forall>u \<in> set topic. 32 \<le> u \<and> u \<le> 126)"
  using latin1_range by (auto simp: isValidTopic_def list_ex_iff)

lemma id_unit_topic: "id_unit u \<Longrightarrow> 32 \<le> u \<and> u \<le> 126"
  by (auto simp: id_unit_def word_le_nat_alt)


section \<open>Packets\<close>

text \<open>How every packet is put together: the fixed header, the remaining length, the rest.\<close>

definition mqtt_packet :: "u8 \<Rightarrow> bytes \<Rightarrow> bytes" where
  "mqtt_packet header body = header # encodeVariableLength (of_nat (length body)) @ body"

text \<open>
  One turn of the receive loop: \<open>return\<close> without a packet, the corrupted stream, or a
  packet cut from the front of the buffer. The remaining length is below \<open>2^28\<close>, so the
  sum \<open>totalFrameSize\<close> is a natural number.
\<close>

datatype mqtt_step = NeedMore | CorruptFraming | GotPacket u8 bytes bytes

definition take_packet :: "bytes \<Rightarrow> mqtt_step" where
  "take_packet buf =
    (if length buf < 2 then NeedMore
     else let header = buf ! 0 in
       case decodeVariableLength buf 1 of
         None \<Rightarrow> if length buf > 5 then CorruptFraming else NeedMore
       | Some (remainingLength, bytesConsumed) \<Rightarrow>
           let totalFrameSize = 1 + bytesConsumed + unat remainingLength in
           if length buf < totalFrameSize then NeedMore
           else GotPacket header (mid buf (1 + bytesConsumed) (unat remainingLength)) (drop totalFrameSize buf))"

lemma take_packet_shorter: "take_packet buf = GotPacket h b rest \<Longrightarrow> length rest < length buf"
  by (auto simp: take_packet_def Let_def split: if_splits option.splits)

text \<open>All packets of a buffer; the loop of the client hands each to its handler.\<close>

function mqtt_feed :: "bytes \<Rightarrow> (u8 \<times> bytes) list \<times> bytes \<times> unit option" where
  "mqtt_feed buf =
    (case take_packet buf of
       NeedMore \<Rightarrow> ([], buf, None)
     | CorruptFraming \<Rightarrow> ([], buf, Some ())
     | GotPacket h b rest \<Rightarrow> (case mqtt_feed rest of (ps, r, e) \<Rightarrow> ((h, b) # ps, r, e)))"
  by pat_completeness auto
termination
  by (relation "measure length") (auto dest: take_packet_shorter)

declare mqtt_feed.simps [simp del]

definition mqtt_small :: "u8 \<times> bytes \<Rightarrow> bool" where
  "mqtt_small p = (length (snd p) < 2 ^ 28)"

lemma decode_length:
  assumes "n < 2 ^ 28"
  shows "decodeVariableLength (h # encodeVariableLength (of_nat n) @ r) 1 = Some (of_nat n, length (encodeVariableLength (of_nat n)))"
    and "encodeVariableLength (of_nat n) = q @ c \<Longrightarrow> c \<noteq> [] \<Longrightarrow> decodeVariableLength (h # q) 1 = None"
    and "unat (of_nat n :: u32) = n"
proof -
  show u: "unat (of_nat n :: u32) = n" using assms by (intro unat_of_nat_u32) simp
  have small: "unat (of_nat n :: u32) < 128 ^ (4 - 0)" using u assms by simp
  show "decodeVariableLength (h # encodeVariableLength (of_nat n) @ r) 1
      = Some (of_nat n, length (encodeVariableLength (of_nat n)))"
    using varlen_decode_loop [OF _ small, of "[h]" 1 r 0] by (simp add: decodeVariableLength_def encodeVariableLength_def)
  show "encodeVariableLength (of_nat n) = q @ c \<Longrightarrow> c \<noteq> [] \<Longrightarrow> decodeVariableLength (h # q) 1 = None"
    using varlen_decode_cut [OF _ small, of "[h]" 1 q c 1 0] by (simp add: decodeVariableLength_def encodeVariableLength_def)
qed

lemma take_packet_whole:
  assumes "length b < 2 ^ 28"
  shows "take_packet (mqtt_packet h b @ r) = GotPacket h b r"
proof -
  let ?v = "encodeVariableLength (of_nat (length b))"
  have "mid (h # ?v @ b @ r) (Suc (length ?v)) (length b) = b"
    using mid_append [of "h # ?v" "Suc (length ?v)" b "length b" r] by simp
  then show ?thesis
    using decode_length(1) [OF assms, of h "b @ r"] length_encodeVariableLength(2) [of "of_nat (length b)"]
    by (auto simp: take_packet_def mqtt_packet_def Let_def decode_length(3) [OF assms] Suc_le_eq)
qed

lemma take_packet_part:
  assumes "length b < 2 ^ 28" and "mqtt_packet h b = q @ c" and "c \<noteq> []"
  shows "take_packet q = NeedMore"
proof (cases "length q < 2")
  case False
  let ?v = "encodeVariableLength (of_nat (length b))"
  obtain q' where q: "q = h # q'" using False assms(2) by (cases q) (auto simp: mqtt_packet_def)
  then have e: "?v @ b = q' @ c" using assms(2) by (simp add: mqtt_packet_def)
  show ?thesis
  proof (cases "length q' < length ?v")
    case True
    then have "?v = q' @ drop (length q') ?v" using e
      by (metis append_eq_append_conv_if append_take_drop_id less_imp_le_nat)
    then have "decodeVariableLength q 1 = None"
      using decode_length(2) [OF assms(1), of q' "drop (length q') ?v" h] True q by simp
    moreover have "length q \<le> 5" using True q length_encodeVariableLength(1) [of "of_nat (length b)"] by simp
    ultimately show ?thesis by (simp add: take_packet_def Let_def)
  next
    case False
    have "\<exists>d. q' = ?v @ d \<and> b = d @ c"
      using e False unfolding append_eq_append_conv2 by (elim disjE exE) auto
    then obtain d where d: "q' = ?v @ d" "b = d @ c" by blast
    then have "length d < length b" using assms(3) by simp
    then show ?thesis
      using decode_length(1) [OF assms(1), of h d] d(1) q
      by (simp add: take_packet_def Let_def decode_length(3) [OF assms(1)])
  qed
qed (simp add: take_packet_def)

interpretation mqtt_stream: stream_splitter "\<lambda>p. mqtt_packet (fst p) (snd p)" mqtt_feed mqtt_small lim "2 ^ 28 + 5" for lim
proof unfold_locales
  fix p rest assume "mqtt_small p"
  then show "mqtt_feed (mqtt_packet (fst p) (snd p) @ rest) = (case mqtt_feed rest of (fs, b, e) \<Rightarrow> (p # fs, b, e))"
    by (subst mqtt_feed.simps) (simp add: mqtt_small_def take_packet_whole)
next
  fix p b c assume "mqtt_small p" "mqtt_packet (fst p) (snd p) = b @ c" "c \<noteq> ([] :: bytes)"
  then have "take_packet b = NeedMore" using take_packet_part by (auto simp: mqtt_small_def)
  then show "mqtt_feed b = ([], b, None)" by (subst mqtt_feed.simps) simp
next
  show "mqtt_feed [] = ([], [], None)" by (subst mqtt_feed.simps) (simp add: take_packet_def)
next
  fix p assume "mqtt_small p"
  then show "length (mqtt_packet (fst p) (snd p)) \<le> 2 ^ 28 + 5"
    using length_encodeVariableLength(1) [of "of_nat (length (snd p))"] by (simp add: mqtt_small_def mqtt_packet_def)
qed (simp add: mqtt_packet_def)


end
