(* ===== verification/Config.thy ===== *)
theory Config
  imports MqttCodec
begin

text \<open>
  src/core/config.cpp: the settings of the application. \<open>QSettings\<close> is a map from keys to texts
  that outlives the process; the object is the record \<open>app_config\<close>.
\<close>

type_synonym settings = "string \<Rightarrow> qstring option"

record app_config =
  cf_deviceId :: qstring
  cf_displayName :: qstring
  cf_platform :: qstring
  cf_mqttBrokerHost :: qstring
  cf_mqttBrokerPort :: int
  cf_virtualIp :: qstring

definition config_init :: app_config where
  "config_init = \<lparr>cf_deviceId = [], cf_displayName = [], cf_platform = qs ''linux'',
     cf_mqttBrokerHost = qs ''broker.hivemq.com'', cf_mqttBrokerPort = 8883, cf_virtualIp = qs ''10.77.0.2''\<rparr>"

definition setting :: "settings \<Rightarrow> string \<Rightarrow> qstring \<Rightarrow> qstring" where
  "setting st key d = (case st key of None \<Rightarrow> d | Some v \<Rightarrow> v)"

definition config_load :: "qstring \<Rightarrow> settings \<Rightarrow> app_config \<Rightarrow> app_config \<times> settings" where
  "config_load uuid st c =
    (let stored = setting st ''deviceId'' [];
         deviceId = (if stored = [] then qs ''mc_'' @ uuid else stored);
         st' = (if stored = [] then st(''deviceId'' \<mapsto> deviceId) else st) in
     (c\<lparr>cf_deviceId := deviceId, cf_displayName := setting st' ''displayName'' (qs ''Linux Device''),
        cf_virtualIp := setting st' ''virtualIp'' (qs ''10.77.0.2'')\<rparr>, st'))"

definition config_save :: "app_config \<Rightarrow> settings \<Rightarrow> settings" where
  "config_save c st = st(''deviceId'' \<mapsto> cf_deviceId c, ''displayName'' \<mapsto> cf_displayName c, ''virtualIp'' \<mapsto> cf_virtualIp c)"

definition setDeviceId :: "qstring \<Rightarrow> app_config \<times> settings \<Rightarrow> app_config \<times> settings" where
  "setDeviceId v = (\<lambda>(c, st). (c\<lparr>cf_deviceId := v\<rparr>, config_save (c\<lparr>cf_deviceId := v\<rparr>) st))"

definition setDisplayName :: "qstring \<Rightarrow> app_config \<times> settings \<Rightarrow> app_config \<times> settings" where
  "setDisplayName v = (\<lambda>(c, st). (c\<lparr>cf_displayName := v\<rparr>, config_save (c\<lparr>cf_displayName := v\<rparr>) st))"

definition setVirtualIp :: "qstring \<Rightarrow> app_config \<times> settings \<Rightarrow> app_config \<times> settings" where
  "setVirtualIp v = (\<lambda>(c, st). (c\<lparr>cf_virtualIp := v\<rparr>, config_save (c\<lparr>cf_virtualIp := v\<rparr>) st))"

text \<open>What was saved is read back by the next process, and by any number of loads.\<close>

lemma config_reload:
  assumes "cf_deviceId c \<noteq> []"
  shows "config_load uuid (config_save c st) config_init
    = (config_init\<lparr>cf_deviceId := cf_deviceId c, cf_displayName := cf_displayName c, cf_virtualIp := cf_virtualIp c\<rparr>, config_save c st)"
  using assms by (simp add: config_load_def config_save_def setting_def Let_def)

lemma device_id_stable:
  assumes "config_load uuid st c = (c', st')"
  shows "cf_deviceId (fst (config_load uuid' st' c'')) = cf_deviceId c'" and "snd (config_load uuid' st' c'') = st'"
  using assms by (auto simp: config_load_def setting_def Let_def qs_def split: option.splits if_splits)

text \<open>The id a first start makes up is valid for the signaling layer, whatever UUID it draws.\<close>

lemma fresh_device_id_valid:
  assumes "setting st ''deviceId'' [] = []" and "length uuid = 36" and "list_all id_unit uuid"
  shows "isValidDeviceId (cf_deviceId (fst (config_load uuid st c)))"
proof -
  have last: "last (qs ''mc_'' @ uuid) \<noteq> 0x0A"
  proof -
    have "uuid \<noteq> []" using assms(2) by auto
    then have "id_unit (last uuid)" using assms(3) by (simp add: list_all_iff)
    then have "last uuid \<noteq> 0x0A" by (auto simp: id_unit_def)
    then show ?thesis using \<open>uuid \<noteq> []\<close> by simp
  qed
  have "list_all id_unit (qs ''mc_'' @ uuid)" using assms(3) by (simp add: qs_def id_unit_def)
  then show ?thesis
    using assms(1,2) last by (simp add: config_load_def Let_def isValidDeviceId_def id_regex_def q_startsWith_def)
qed

end
