(* ===== verification/P2PSocket.thy ===== *)
theory P2PSocket
  imports StreamBuffer QMap
begin

text \<open>
  \<open>P2PSocket\<close> of src/network/p2p_socket.cpp: the outgoing client connection with its
  write queue and back-pressure, the listening server with its table of accepted
  connections, and the slots Qt calls. A slot is a function from the socket to the
  socket and the list of signals it emits and calls it makes on the operating system's
  sockets. The TCP layer is the environment: \<open>wr n c\<close> is what the \<open>n\<close>-th
  \<open>QTcpSocket::write\<close> answers to the chunk \<open>c\<close> (at most its length, -1 for an error),
  and whether \<open>disconnectFromHost\<close> closes at once is the argument \<open>sync\<close>.
\<close>

section \<open>State\<close>

datatype p2p_state = P2PDisconnected | P2PConnecting | P2PConnected | P2PClosing

text \<open>\<open>QAbstractSocket::SocketState\<close>.\<close>

datatype sock_state = UnconnectedState | HostLookupState | ConnectingState | ConnectedState | ClosingState

text \<open>A \<open>QTcpSocket*\<close>, the key of the table of accepted connections; pointers are ordered.\<close>

datatype sock_id = Sock (sock_addr: nat)

instantiation sock_id :: linorder
begin

definition less_eq_sock_id :: "sock_id \<Rightarrow> sock_id \<Rightarrow> bool" where
  "a \<le> b \<longleftrightarrow> sock_addr a \<le> sock_addr b"

definition less_sock_id :: "sock_id \<Rightarrow> sock_id \<Rightarrow> bool" where
  "a < b \<longleftrightarrow> sock_addr a < sock_addr b"

instance
  by standard (auto simp: less_eq_sock_id_def less_sock_id_def sock_id.expand)

end

record tcp_client =
  tc_state :: sock_state
  tc_ip :: qstring
  tc_buffer :: bytes

text \<open>
  \<open>sk_tcp\<close>, \<open>sk_peerIp\<close>, \<open>sk_writes\<close> and \<open>sk_sent\<close> belong to the \<open>QTcpSocket\<close>: its state,
  its peer, the number of writes made and all bytes it accepted.
\<close>

record p2p =
  sk_state :: p2p_state
  sk_readBuffer :: bytes
  sk_queue :: "bytes list"
  sk_queuedBytes :: int
  sk_clients :: "(sock_id, tcp_client) qmap"
  sk_listening :: bool
  sk_serverPort :: u16
  sk_tcp :: sock_state
  sk_peerIp :: qstring
  sk_writes :: nat
  sk_sent :: bytes

datatype p2p_error = StreamError stream_error | Backpressure | ListenFailed | SocketFailure

datatype p2p_event =
    StateChanged p2p_state
  | ConnectedSignal
  | DisconnectedSignal
  | FrameReceived p2p_frame
  | FrameReceivedFrom p2p_frame qstring
  | PeerConnected qstring
  | PeerDisconnected qstring
  | ErrorOccurred p2p_error
  | TcpConnectToHost qstring u16
  | ClientWrite sock_id bytes
  | ClientAbort sock_id

definition MAX_OUTGOING_QUEUE_SIZE :: int where "MAX_OUTGOING_QUEUE_SIZE = 16 * 1024 * 1024"
definition MAX_CONCURRENT_CONNECTIONS :: nat where "MAX_CONCURRENT_CONNECTIONS = 32"

definition p2p_init :: p2p where
  "p2p_init = \<lparr>sk_state = P2PDisconnected, sk_readBuffer = [], sk_queue = [], sk_queuedBytes = 0,
     sk_clients = [], sk_listening = False, sk_serverPort = 0, sk_tcp = UnconnectedState,
     sk_peerIp = [], sk_writes = 0, sk_sent = []\<rparr>"

section \<open>Operations\<close>

definition p2p_setState :: "p2p_state \<Rightarrow> p2p \<Rightarrow> p2p \<times> p2p_event list" where
  "p2p_setState st p = (if sk_state p \<noteq> st then (p\<lparr>sk_state := st\<rparr>, [StateChanged st]) else (p, []))"

definition isConnected :: "p2p \<Rightarrow> bool" where
  "isConnected p = (sk_state p = P2PConnected \<or> sk_clients p \<noteq> [])"

definition peerAddress :: "p2p \<Rightarrow> qstring" where
  "peerAddress p =
    (if sk_state p = P2PConnected then sk_peerIp p
     else case sk_clients p of c # _ \<Rightarrow> tc_ip (snd c) | [] \<Rightarrow> [])"

definition onSocketDisconnected :: "p2p \<Rightarrow> p2p \<times> p2p_event list" where
  "onSocketDisconnected p =
    (case p2p_setState P2PDisconnected p of (p1, ev) \<Rightarrow>
      (p1\<lparr>sk_readBuffer := [], sk_queue := [], sk_queuedBytes := 0\<rparr>, ev @ [DisconnectedSignal]))"

definition disconnectFromPeer :: "bool \<Rightarrow> p2p \<Rightarrow> p2p \<times> p2p_event list" where
  "disconnectFromPeer sync p =
    (if sk_state p \<noteq> P2PDisconnected \<and> sk_state p \<noteq> P2PClosing then
       (case p2p_setState P2PClosing p of (p1, ev) \<Rightarrow>
         if sk_tcp p1 \<noteq> UnconnectedState then
           (if sync then (case onSocketDisconnected (p1\<lparr>sk_tcp := UnconnectedState\<rparr>) of (p2, ev2) \<Rightarrow> (p2, ev @ ev2))
            else (p1\<lparr>sk_tcp := ClosingState\<rparr>, ev))
         else (p1, ev))
     else (p, []))"

text \<open>
  \<open>connectToHost\<close> on a socket that is not yet closed is refused by Qt with an error signal.
\<close>

definition connectToPeer :: "bool \<Rightarrow> qstring \<Rightarrow> int \<Rightarrow> p2p \<Rightarrow> p2p \<times> p2p_event list" where
  "connectToPeer sync virtualIp port p =
    (case (if sk_state p = P2PConnected \<or> sk_state p = P2PConnecting then disconnectFromPeer sync p else (p, []))
     of (p1, ev1) \<Rightarrow>
      case p2p_setState P2PConnecting (p1\<lparr>sk_readBuffer := [], sk_queue := [], sk_queuedBytes := 0\<rparr>)
      of (p2, ev2) \<Rightarrow>
        if sk_tcp p2 = UnconnectedState then
          (p2\<lparr>sk_tcp := ConnectingState, sk_peerIp := virtualIp\<rparr>,
           ev1 @ ev2 @ [TcpConnectToHost virtualIp (word_of_int port)])
        else (p2, ev1 @ ev2 @ [TcpConnectToHost virtualIp (word_of_int port), ErrorOccurred SocketFailure]))"

function flushWriteQueue :: "(nat \<Rightarrow> bytes \<Rightarrow> int) \<Rightarrow> p2p \<Rightarrow> p2p" where
  "flushWriteQueue wr p =
    (case sk_queue p of
       [] \<Rightarrow> p
     | chunk # rest \<Rightarrow>
        if sk_tcp p \<noteq> ConnectedState then p
        else let written = wr (sk_writes p) chunk; p1 = p\<lparr>sk_writes := Suc (sk_writes p)\<rparr> in
          if written < 0 then p1
          else if written = int (length chunk) then
            flushWriteQueue wr (p1\<lparr>sk_queue := rest, sk_queuedBytes := sk_queuedBytes p - written,
              sk_sent := sk_sent p @ chunk\<rparr>)
          else if written > 0 then
            p1\<lparr>sk_queue := drop (nat written) chunk # rest, sk_queuedBytes := sk_queuedBytes p - written,
              sk_sent := sk_sent p @ take (nat written) chunk\<rparr>
          else p1)"
  by pat_completeness auto
termination
  by (relation "measure (\<lambda>(_, p). length (sk_queue p))") auto

declare flushWriteQueue.simps [simp del]

definition client_writes :: "bytes \<Rightarrow> (sock_id, tcp_client) qmap \<Rightarrow> p2p_event list" where
  "client_writes packet cs =
     map (\<lambda>c. ClientWrite (fst c) packet) (filter (\<lambda>c. tc_state (snd c) = ConnectedState) cs)"

definition sendFrame :: "(nat \<Rightarrow> bytes \<Rightarrow> int) \<Rightarrow> p2p_frame \<Rightarrow> p2p \<Rightarrow> p2p \<times> bool \<times> p2p_event list" where
  "sendFrame wr frame p =
    (let packet = encode_frame frame;
         up = (sk_state p = P2PConnected \<and> sk_tcp p = ConnectedState) in
     if up \<and> \<not> sk_queuedBytes p + int (length packet) \<le> MAX_OUTGOING_QUEUE_SIZE
     then (p, False, [ErrorOccurred Backpressure])
     else let p1 = (if up then flushWriteQueue wr
                 (p\<lparr>sk_queue := sk_queue p @ [packet], sk_queuedBytes := sk_queuedBytes p + int (length packet)\<rparr>)
               else p);
              writes = client_writes packet (sk_clients p1);
              sentAny = (up \<or> writes \<noteq> []) in
       (p1, sentAny, writes))"

definition onSocketConnected :: "(nat \<Rightarrow> bytes \<Rightarrow> int) \<Rightarrow> p2p \<Rightarrow> p2p \<times> p2p_event list" where
  "onSocketConnected wr p =
    (case p2p_setState P2PConnected p of (p1, ev) \<Rightarrow> (flushWriteQueue wr p1, ev @ [ConnectedSignal]))"

definition processIncomingBytes :: "qstring \<Rightarrow> bytes \<Rightarrow> bytes \<times> p2p_event list" where
  "processIncomingBytes senderIp readBuffer =
    (case processStreamBuffer MAX_FRAME_PAYLOAD_SIZE readBuffer of (frames, rest, err) \<Rightarrow>
      (rest, (case err of None \<Rightarrow> [] | Some e \<Rightarrow> [ErrorOccurred (StreamError e)])
         @ concat (map (\<lambda>f. [FrameReceived f, FrameReceivedFrom f senderIp]) frames)))"

definition onSocketReadyRead :: "bytes \<Rightarrow> p2p \<Rightarrow> p2p \<times> p2p_event list" where
  "onSocketReadyRead incoming p =
    (case processIncomingBytes (sk_peerIp p) (sk_readBuffer p @ incoming) of (rest, ev) \<Rightarrow>
      (p\<lparr>sk_readBuffer := rest\<rparr>, ev))"

definition onSocketBytesWritten :: "(nat \<Rightarrow> bytes \<Rightarrow> int) \<Rightarrow> p2p \<Rightarrow> p2p \<times> p2p_event list" where
  "onSocketBytesWritten wr p = (flushWriteQueue wr p, [])"

definition onSocketError :: "p2p \<Rightarrow> p2p \<times> p2p_event list" where
  "onSocketError p = (p, [ErrorOccurred SocketFailure])"

section \<open>The server\<close>

definition startServer :: "bool \<Rightarrow> u16 \<Rightarrow> p2p \<Rightarrow> p2p \<times> bool \<times> p2p_event list" where
  "startServer listen_ok port p =
    (if \<not> listen_ok then (p\<lparr>sk_listening := False, sk_serverPort := 0\<rparr>, False, [ErrorOccurred ListenFailed])
     else (p\<lparr>sk_listening := True, sk_serverPort := port\<rparr>, True, []))"

definition stopServer :: "p2p \<Rightarrow> p2p \<times> p2p_event list" where
  "stopServer p =
    (p\<lparr>sk_listening := False, sk_serverPort := 0, sk_clients := []\<rparr>,
     map ClientAbort (qm_keys (sk_clients p)))"

fun onServerNewConnection :: "(sock_id \<times> qstring) list \<Rightarrow> p2p \<Rightarrow> p2p \<times> p2p_event list" where
  "onServerNewConnection [] p = (p, [])"
| "onServerNewConnection ((clientSock, peerIp) # pending) p =
    (if length (sk_clients p) \<ge> MAX_CONCURRENT_CONNECTIONS then
       (case onServerNewConnection pending p of (p', ev) \<Rightarrow> (p', ClientAbort clientSock # ev))
     else
       (case onServerNewConnection pending
          (p\<lparr>sk_clients := qm_insert clientSock \<lparr>tc_state = ConnectedState, tc_ip = peerIp, tc_buffer = []\<rparr>
             (sk_clients p)\<rparr>) of (p', ev) \<Rightarrow> (p', PeerConnected peerIp # ev)))"

definition clientReadyRead :: "sock_id \<Rightarrow> bytes \<Rightarrow> p2p \<Rightarrow> p2p \<times> p2p_event list" where
  "clientReadyRead clientSock incoming p =
    (case qm_value (sk_clients p) clientSock of
       None \<Rightarrow> (p, [])
     | Some c \<Rightarrow>
        (case processIncomingBytes (tc_ip c) (tc_buffer c @ incoming) of (rest, ev) \<Rightarrow>
          (p\<lparr>sk_clients := qm_insert clientSock (c\<lparr>tc_buffer := rest\<rparr>) (sk_clients p)\<rparr>, ev)))"

definition clientDisconnected :: "sock_id \<Rightarrow> qstring \<Rightarrow> p2p \<Rightarrow> p2p \<times> p2p_event list" where
  "clientDisconnected clientSock ip p =
    (p\<lparr>sk_clients := qm_remove clientSock (sk_clients p)\<rparr>, [PeerDisconnected ip])"

section \<open>The outgoing byte stream\<close>

text \<open>Everything handed to the connection so far: what TCP took and what still waits.\<close>

definition out_stream :: "p2p \<Rightarrow> bytes" where
  "out_stream p = sk_sent p @ concat (sk_queue p)"

text \<open>What \<open>QIODevice::write\<close> documents: it never takes more than it is given.\<close>

definition write_contract :: "(nat \<Rightarrow> bytes \<Rightarrow> int) \<Rightarrow> bool" where
  "write_contract wr \<longleftrightarrow> (\<forall>n c. wr n c \<le> int (length c))"

definition queue_counted :: "p2p \<Rightarrow> bool" where
  "queue_counted p \<longleftrightarrow> sk_queuedBytes p = int (length (concat (sk_queue p)))"

text \<open>An invariant of the steps of the loop is an invariant of the loop.\<close>

lemma flush_invariant:
  assumes "P p"
    and "\<And>q. P q \<Longrightarrow> P (q\<lparr>sk_writes := Suc (sk_writes q)\<rparr>)"
    and "\<And>q chunk rest. P q \<Longrightarrow> sk_queue q = chunk # rest \<Longrightarrow>
      P (q\<lparr>sk_writes := Suc (sk_writes q), sk_queue := rest,
           sk_queuedBytes := sk_queuedBytes q - int (length chunk), sk_sent := sk_sent q @ chunk\<rparr>)"
    and "\<And>q chunk rest. P q \<Longrightarrow> sk_queue q = chunk # rest \<Longrightarrow> 0 < wr (sk_writes q) chunk \<Longrightarrow>
      P (q\<lparr>sk_writes := Suc (sk_writes q), sk_queue := drop (nat (wr (sk_writes q) chunk)) chunk # rest,
           sk_queuedBytes := sk_queuedBytes q - wr (sk_writes q) chunk,
           sk_sent := sk_sent q @ take (nat (wr (sk_writes q) chunk)) chunk\<rparr>)"
  shows "P (flushWriteQueue wr p)"
  using assms
proof (induction wr p rule: flushWriteQueue.induct)
  case (1 wr p)
  show ?case
  proof (cases "sk_queue p")
    case Nil
    then show ?thesis using "1.prems"(1) by (simp add: flushWriteQueue.simps [of wr p])
  next
    case (Cons chunk rest)
    let ?w = "wr (sk_writes p) chunk"
    have whole: "P (flushWriteQueue wr (p\<lparr>sk_writes := Suc (sk_writes p), sk_queue := rest,
        sk_queuedBytes := sk_queuedBytes p - ?w, sk_sent := sk_sent p @ chunk\<rparr>))"
      if "sk_tcp p = ConnectedState" "?w = int (length chunk)"
    proof (rule "1.IH" [OF Cons _ refl refl])
      show "P (p\<lparr>sk_writes := Suc (sk_writes p), sk_queue := rest,
          sk_queuedBytes := sk_queuedBytes p - ?w, sk_sent := sk_sent p @ chunk\<rparr>)"
        using "1.prems"(3) [OF "1.prems"(1) Cons] that(2) by simp
    qed (use that "1.prems" in simp_all)
    then show ?thesis
      using "1.prems"(1) "1.prems"(2) [OF "1.prems"(1)] "1.prems"(4) [OF "1.prems"(1) Cons]
      by (simp add: flushWriteQueue.simps [of wr p] Let_def Cons)
  qed
qed

lemma flush_frame:
  "sk_state (flushWriteQueue wr p) = sk_state p \<and> sk_tcp (flushWriteQueue wr p) = sk_tcp p
   \<and> sk_clients (flushWriteQueue wr p) = sk_clients p \<and> sk_readBuffer (flushWriteQueue wr p) = sk_readBuffer p
   \<and> sk_listening (flushWriteQueue wr p) = sk_listening p \<and> sk_peerIp (flushWriteQueue wr p) = sk_peerIp p"
  by (rule flush_invariant) simp_all

lemma flush_stream: "out_stream (flushWriteQueue wr p) = out_stream p"
  by (rule flush_invariant) (simp_all add: out_stream_def)

lemma flush_counted:
  assumes "write_contract wr" and "queue_counted p"
  shows "queue_counted (flushWriteQueue wr p) \<and> sk_queuedBytes (flushWriteQueue wr p) \<le> sk_queuedBytes p"
proof (rule flush_invariant)
  fix q chunk rest
  assume "queue_counted q \<and> sk_queuedBytes q \<le> sk_queuedBytes p" "sk_queue q = chunk # rest"
    and "0 < wr (sk_writes q) chunk"
  moreover have "wr (sk_writes q) chunk \<le> int (length chunk)"
    using assms(1) by (simp add: write_contract_def)
  ultimately show "queue_counted (q\<lparr>sk_writes := Suc (sk_writes q),
        sk_queue := drop (nat (wr (sk_writes q) chunk)) chunk # rest,
        sk_queuedBytes := sk_queuedBytes q - wr (sk_writes q) chunk,
        sk_sent := sk_sent q @ take (nat (wr (sk_writes q) chunk)) chunk\<rparr>)
      \<and> sk_queuedBytes (q\<lparr>sk_writes := Suc (sk_writes q),
        sk_queue := drop (nat (wr (sk_writes q) chunk)) chunk # rest,
        sk_queuedBytes := sk_queuedBytes q - wr (sk_writes q) chunk,
        sk_sent := sk_sent q @ take (nat (wr (sk_writes q) chunk)) chunk\<rparr>) \<le> sk_queuedBytes p"
    by (simp add: queue_counted_def)
qed (use assms in \<open>simp_all add: queue_counted_def\<close>)


text \<open>A frame is sent whole behind the others, or refused with the connection untouched.\<close>

lemma sendFrame_up:
  assumes "sk_state p = P2PConnected" and "sk_tcp p = ConnectedState"
  shows "fst (sendFrame wr f p) = (if sk_queuedBytes p + int (length (encode_frame f)) \<le> MAX_OUTGOING_QUEUE_SIZE
      then flushWriteQueue wr (p\<lparr>sk_queue := sk_queue p @ [encode_frame f],
        sk_queuedBytes := sk_queuedBytes p + int (length (encode_frame f))\<rparr>) else p)"
    and "fst (snd (sendFrame wr f p)) = (sk_queuedBytes p + int (length (encode_frame f)) \<le> MAX_OUTGOING_QUEUE_SIZE)"
  using assms by (simp_all add: sendFrame_def Let_def del: length_encode_frame)

lemma sendFrame_down:
  "\<not> (sk_state p = P2PConnected \<and> sk_tcp p = ConnectedState) \<Longrightarrow> fst (sendFrame wr f p) = p"
  by (auto simp: sendFrame_def Let_def)

text \<open>A client that sends a list of messages; the second result is what was accepted.\<close>

fun send_all :: "('m \<Rightarrow> 's \<Rightarrow> 's \<times> bool) \<Rightarrow> 'm list \<Rightarrow> 's \<Rightarrow> 's \<times> 'm list" where
  "send_all send [] s = (s, [])"
| "send_all send (m # ms) s =
    (case send m s of (s1, b) \<Rightarrow> case send_all send ms s1 of (s2, acc) \<Rightarrow> (s2, if b then m # acc else acc))"

text \<open>
  The contract of a sender: a message accepted is appended to the stream in its encoded
  form, one refused leaves the stream alone, and the link stays up meanwhile.
\<close>

locale transport =
  fixes send :: "'m \<Rightarrow> 's \<Rightarrow> 's \<times> bool" and stream :: "'s \<Rightarrow> bytes" and up :: "'s \<Rightarrow> bool"
    and enc :: "'m \<Rightarrow> bytes"
  assumes send_accepted: "up s \<Longrightarrow> send m s = (s', True) \<Longrightarrow> stream s' = stream s @ enc m"
    and send_refused: "up s \<Longrightarrow> send m s = (s', False) \<Longrightarrow> stream s' = stream s"
    and send_up: "up s \<Longrightarrow> send m s = (s', b) \<Longrightarrow> up s'"
begin

lemma send_all_stream:
  "up s \<Longrightarrow> send_all send ms s = (s', acc) \<Longrightarrow> up s' \<and> stream s' = stream s @ concat (map enc acc)"
proof (induction ms arbitrary: s acc)
  case (Cons m ms)
  obtain s1 b where s1: "send m s = (s1, b)" by fastforce
  obtain acc1 where acc1: "send_all send ms s1 = (s', acc1)" and "acc = (if b then m # acc1 else acc1)"
    using Cons.prems(2) s1 by (auto split: prod.splits)
  then show ?case
    using Cons.IH [OF send_up [OF Cons.prems(1) s1] acc1] s1 send_accepted [OF Cons.prems(1), of m s1]
      send_refused [OF Cons.prems(1), of m s1]
    by (cases b) simp_all
qed simp

lemma send_all_subseq: "send_all send ms s = (s', acc) \<Longrightarrow> set acc \<subseteq> set ms"
  by (induction ms arbitrary: s acc) (fastforce split: prod.splits if_splits)+

end

definition p2p_up :: "p2p \<Rightarrow> bool" where
  "p2p_up p \<longleftrightarrow> sk_state p = P2PConnected \<and> sk_tcp p = ConnectedState"

definition p2p_send :: "(nat \<Rightarrow> bytes \<Rightarrow> int) \<Rightarrow> p2p_frame \<Rightarrow> p2p \<Rightarrow> p2p \<times> bool" where
  "p2p_send wr f p = (case sendFrame wr f p of (p', b, _) \<Rightarrow> (p', b))"

interpretation p2p_link: transport "p2p_send wr" out_stream p2p_up encode_frame for wr
proof unfold_locales
  fix p f p' assume up: "p2p_up p" and s: "p2p_send wr f p = (p', True)"
  then show "out_stream p' = out_stream p @ encode_frame f"
    using sendFrame_up [of p wr f] flush_stream
    by (auto simp: p2p_up_def p2p_send_def out_stream_def split: prod.splits if_splits)
next
  fix p f p' assume up: "p2p_up p" and s: "p2p_send wr f p = (p', False)"
  then show "out_stream p' = out_stream p"
    using sendFrame_up [of p wr f] by (auto simp: p2p_up_def p2p_send_def split: prod.splits if_splits)
next
  fix p f p' b assume up: "p2p_up p" and s: "p2p_send wr f p = (p', b)"
  then show "p2p_up p'"
    using sendFrame_up [of p wr f] flush_frame [of wr "p\<lparr>sk_queue := sk_queue p @ [encode_frame f],
        sk_queuedBytes := sk_queuedBytes p + int (length (encode_frame f))\<rparr>"]
    by (auto simp: p2p_up_def p2p_send_def split: prod.splits if_splits)
qed

section \<open>Runs\<close>

datatype p2p_input =
    ConnectTo bool qstring int
  | Disconnect bool
  | Send "nat \<Rightarrow> bytes \<Rightarrow> int" p2p_frame
  | TcpConnected "nat \<Rightarrow> bytes \<Rightarrow> int"
  | TcpDisconnected
  | TcpReadyRead bytes
  | TcpBytesWritten "nat \<Rightarrow> bytes \<Rightarrow> int"
  | TcpError
  | StartServer bool u16
  | StopServer
  | NewConnections "(sock_id \<times> qstring) list"
  | ClientReady sock_id bytes
  | ClientClosed sock_id qstring

text \<open>One call or one signal of Qt; a signal comes after the socket changed its own state.\<close>

fun p2p_step :: "p2p_input \<Rightarrow> p2p \<Rightarrow> p2p" where
  "p2p_step (ConnectTo sync ip port) p = fst (connectToPeer sync ip port p)"
| "p2p_step (Disconnect sync) p = fst (disconnectFromPeer sync p)"
| "p2p_step (Send wr f) p = fst (sendFrame wr f p)"
| "p2p_step (TcpConnected wr) p = fst (onSocketConnected wr (p\<lparr>sk_tcp := ConnectedState\<rparr>))"
| "p2p_step TcpDisconnected p = fst (onSocketDisconnected (p\<lparr>sk_tcp := UnconnectedState\<rparr>))"
| "p2p_step (TcpReadyRead bs) p = fst (onSocketReadyRead bs p)"
| "p2p_step (TcpBytesWritten wr) p = fst (onSocketBytesWritten wr p)"
| "p2p_step TcpError p = fst (onSocketError p)"
| "p2p_step (StartServer ok port) p = fst (startServer ok port p)"
| "p2p_step StopServer p = fst (stopServer p)"
| "p2p_step (NewConnections cs) p = fst (onServerNewConnection cs p)"
| "p2p_step (ClientReady c bs) p = fst (clientReadyRead c bs p)"
| "p2p_step (ClientClosed c ip) p = fst (clientDisconnected c ip p)"

fun write_ok :: "p2p_input \<Rightarrow> bool" where
  "write_ok (Send wr f) = write_contract wr"
| "write_ok (TcpConnected wr) = write_contract wr"
| "write_ok (TcpBytesWritten wr) = write_contract wr"
| "write_ok _ = True"

inductive p2p_reach :: "p2p \<Rightarrow> bool" where
  init: "p2p_reach p2p_init"
| step: "p2p_reach p \<Longrightarrow> write_ok i \<Longrightarrow> p2p_reach (p2p_step i p)"


definition p2p_inv :: "p2p \<Rightarrow> bool" where
  "p2p_inv p \<longleftrightarrow> queue_counted p \<and> sk_queuedBytes p \<le> MAX_OUTGOING_QUEUE_SIZE
     \<and> length (sk_readBuffer p) < 12 + 4 * 1024 * 1024
     \<and> length (sk_clients p) \<le> MAX_CONCURRENT_CONNECTIONS \<and> qm_ok (sk_clients p)
     \<and> list_all (\<lambda>c. length (tc_buffer (snd c)) < 12 + 4 * 1024 * 1024) (sk_clients p)"

lemma incoming_rest: "length (fst (processIncomingBytes ip buf)) < 12 + 4 * 1024 * 1024"
  using loop_bounds [of MAX_FRAME_PAYLOAD_SIZE buf]
  by (cases "processStreamBuffer MAX_FRAME_PAYLOAD_SIZE buf")
    (auto simp: processIncomingBytes_def processStreamBuffer_def MAX_FRAME_PAYLOAD_SIZE_def split: if_splits)

lemma p2p_setState_inv: "p2p_inv (fst (p2p_setState st p)) = p2p_inv p"
  by (simp add: p2p_setState_def p2p_inv_def queue_counted_def)

lemma p2p_inv_cleared: "p2p_inv p \<Longrightarrow> p2p_inv (p\<lparr>sk_readBuffer := [], sk_queue := [], sk_queuedBytes := 0\<rparr>)"
  by (simp add: p2p_inv_def queue_counted_def MAX_OUTGOING_QUEUE_SIZE_def)

lemma p2p_inv_tcp [simp]:
  "p2p_inv (p\<lparr>sk_tcp := t\<rparr>) = p2p_inv p" "p2p_inv (p\<lparr>sk_peerIp := a\<rparr>) = p2p_inv p"
  "p2p_inv (p\<lparr>sk_listening := b\<rparr>) = p2p_inv p" "p2p_inv (p\<lparr>sk_serverPort := n\<rparr>) = p2p_inv p"
  by (simp_all add: p2p_inv_def queue_counted_def)

lemma inv_init: "p2p_inv p2p_init"
  by (simp add: p2p_inv_def p2p_init_def queue_counted_def MAX_OUTGOING_QUEUE_SIZE_def)

lemma inv_onSocketDisconnected [wf_intros]: "p2p_inv p \<Longrightarrow> p2p_inv (fst (onSocketDisconnected p))"
  using p2p_setState_inv [of P2PDisconnected p] p2p_inv_cleared
  by (auto simp: onSocketDisconnected_def split: prod.splits)

lemma inv_disconnectFromPeer [wf_intros]: "p2p_inv p \<Longrightarrow> p2p_inv (fst (disconnectFromPeer sync p))"
  by (simp add: disconnectFromPeer_def case_prod_beta p2p_setState_inv inv_onSocketDisconnected)

lemma inv_connectToPeer [wf_intros]: "p2p_inv p \<Longrightarrow> p2p_inv (fst (connectToPeer sync ip port p))"
  by (simp add: connectToPeer_def case_prod_beta p2p_setState_inv inv_disconnectFromPeer p2p_inv_cleared)

lemma inv_flush [wf_intros]: "write_contract wr \<Longrightarrow> p2p_inv p \<Longrightarrow> p2p_inv (flushWriteQueue wr p)"
  using flush_counted [of wr p] flush_frame [of wr p] by (simp add: p2p_inv_def)

lemma inv_sendFrame [wf_intros]: "write_contract wr \<Longrightarrow> p2p_inv p \<Longrightarrow> p2p_inv (fst (sendFrame wr f p))"
  using inv_flush [of wr "p\<lparr>sk_queue := sk_queue p @ [encode_frame f],
      sk_queuedBytes := sk_queuedBytes p + int (length (encode_frame f))\<rparr>"]
  by (cases "p2p_up p") (auto simp: p2p_up_def sendFrame_up sendFrame_down p2p_inv_def queue_counted_def
      simp del: length_encode_frame)

lemma inv_onSocketConnected [wf_intros]: "write_contract wr \<Longrightarrow> p2p_inv p \<Longrightarrow> p2p_inv (fst (onSocketConnected wr p))"
  using p2p_setState_inv [of P2PConnected p] inv_flush
  by (auto simp: onSocketConnected_def split: prod.splits)

lemma inv_onSocketReadyRead [wf_intros]: "p2p_inv p \<Longrightarrow> p2p_inv (fst (onSocketReadyRead bs p))"
  using incoming_rest [of "sk_peerIp p" "sk_readBuffer p @ bs"]
  by (auto simp: onSocketReadyRead_def p2p_inv_def queue_counted_def split: prod.splits)

lemma inv_newConnections [wf_intros]: "p2p_inv p \<Longrightarrow> p2p_inv (fst (onServerNewConnection cs p))"
proof (induction cs p rule: onServerNewConnection.induct)
  case (2 sock ip pending p)
  have "p2p_inv (p\<lparr>sk_clients := qm_insert sock \<lparr>tc_state = ConnectedState, tc_ip = ip, tc_buffer = []\<rparr> (sk_clients p)\<rparr>)"
    if "length (sk_clients p) < MAX_CONCURRENT_CONNECTIONS"
    using that 2(3) length_qm_insert_le [of sock "\<lparr>tc_state = ConnectedState, tc_ip = ip, tc_buffer = []\<rparr>" "sk_clients p"]
    by (auto simp: p2p_inv_def queue_counted_def intro!: list_all_qm_insert)
  with 2 show ?case by (auto split: prod.splits)
qed simp

lemma inv_clientReadyRead [wf_intros]: "p2p_inv p \<Longrightarrow> p2p_inv (fst (clientReadyRead c bs p))"
proof (cases "qm_value (sk_clients p) c")
  case (Some cl)
  assume "p2p_inv p"
  with Some show ?thesis
    using incoming_rest [of "tc_ip cl" "tc_buffer cl @ bs"]
    by (auto simp: clientReadyRead_def p2p_inv_def queue_counted_def length_qm_insert_present
        intro!: list_all_qm_insert split: prod.splits)
qed (simp add: clientReadyRead_def)

lemma inv_clientDisconnected [wf_intros]: "p2p_inv p \<Longrightarrow> p2p_inv (fst (clientDisconnected c ip p))"
  by (auto simp: clientDisconnected_def p2p_inv_def queue_counted_def qm_remove_def list_all_iff
      intro: le_trans [OF length_filter_le] qm_ok_filter)

lemma inv_step: "p2p_inv p \<Longrightarrow> write_ok i \<Longrightarrow> p2p_inv (p2p_step i p)"
proof (cases i)
  case StopServer
  assume "p2p_inv p"
  with StopServer show ?thesis by (simp add: stopServer_def p2p_inv_def queue_counted_def)
next
  case (StartServer ok port)
  assume "p2p_inv p"
  with StartServer show ?thesis by (simp add: startServer_def)
qed (simp_all add: wf_intros onSocketBytesWritten_def onSocketError_def)

text \<open>
  C11: In every reachable state of the socket the queued-byte counter is the true size of
  the write queue and at most 16 MiB, the read buffers hold less than one maximal frame, and
  at most 32 clients are connected.
\<close>

theorem socket_memory_bounded:
  assumes "p2p_reach p"
  shows "sk_queuedBytes p = int (length (concat (sk_queue p))) \<and> sk_queuedBytes p \<le> 16 * 1024 * 1024
    \<and> length (sk_readBuffer p) < 12 + 4 * 1024 * 1024 \<and> length (sk_clients p) \<le> 32
    \<and> (\<forall>c. \<forall>cl. qm_value (sk_clients p) c = Some cl \<longrightarrow> length (tc_buffer cl) < 12 + 4 * 1024 * 1024)"
proof -
  have "p2p_inv p" using assms by induction (simp_all add: inv_init inv_step)
  then show ?thesis
    by (auto simp: p2p_inv_def queue_counted_def MAX_OUTGOING_QUEUE_SIZE_def MAX_CONCURRENT_CONNECTIONS_def
        dest: list_all_qm_value)
qed


text \<open>A concrete run: a server with one client that sent half a heartbeat.\<close>

lemma half_heartbeat_kept:
  "processStreamBuffer MAX_FRAME_PAYLOAD_SIZE [0x4D, 0x43, 0, 1, 0, 0] = ([], [0x4D, 0x43, 0, 1, 0, 0], None)"
  by (simp add: processStreamBuffer_def MAX_RECEIVE_BUFFER_SIZE_def loop_short)

theorem socket_memory_bounded_witness:
  "\<exists>p :: p2p. qm_value (sk_clients p) (Sock 1) = Some \<lparr>tc_state = ConnectedState, tc_ip = [], tc_buffer = [0x4D, 0x43, 0, 1, 0, 0]\<rparr>
     \<and> length (sk_clients p) \<le> 32"
proof -
  let ?p = "p2p_step (ClientReady (Sock 1) [0x4D, 0x43, 0, 1, 0, 0]) (p2p_step (NewConnections [(Sock 1, [])]) p2p_init)"
  have "p2p_reach ?p" by (intro p2p_reach.intros) simp_all
  from socket_memory_bounded [OF this] have "length (sk_clients ?p) \<le> 32" by (rule conjunct2 [THEN conjunct2, THEN conjunct2, THEN conjunct1])
  moreover have "qm_value (sk_clients ?p) (Sock 1)
      = Some \<lparr>tc_state = ConnectedState, tc_ip = [], tc_buffer = [0x4D, 0x43, 0, 1, 0, 0]\<rparr>"
    by (simp add: p2p_init_def clientReadyRead_def MAX_CONCURRENT_CONNECTIONS_def processIncomingBytes_def
        half_heartbeat_kept)
  ultimately show ?thesis by blast
qed

text \<open>
  C2: End to end: the frames sendFrame accepts on a connected socket, once the write queue
  is drained and whatever the partial writes and the cut of the TCP stream, are exactly the
  frames processStreamBuffer yields at the peer, in order.
\<close>

theorem accepted_frames_delivered:
  assumes "sk_state p = P2PConnected" and "sk_tcp p = ConnectedState" and "sk_queue p = []"
    and "list_all (\<lambda>f. length (payload f) \<le> 4 * 1024 * 1024) fs"
    and "send_all (p2p_send wr) fs p = (p', accepted)"
    and "sk_queue (flushWriteQueue wr' p') = []"
    and "sk_sent p @ concat cs = sk_sent (flushWriteQueue wr' p')"
    and "list_all (\<lambda>c. length c \<le> 4 * 1024 * 1024 - 12) cs"
  shows "receive (processStreamBuffer MAX_FRAME_PAYLOAD_SIZE) [] cs = (accepted, [], [])"
proof (rule p2p_stream.receive_stream)
  have "out_stream p' = out_stream p @ concat (map encode_frame accepted)"
    using p2p_link.send_all_stream [OF _ assms(5)] assms(1,2) by (simp add: p2p_up_def)
  moreover have "out_stream (flushWriteQueue wr' p') = out_stream p'" by (rule flush_stream)
  ultimately show "[] @ concat cs = concat (map encode_frame accepted)"
    using assms(3,6,7) by (simp add: out_stream_def)
  show "list_all small_frame accepted"
    using p2p_link.send_all_subseq [OF assms(5)] assms(4) by (auto simp: list_all_iff small_frame_def)
  show "list_all (\<lambda>c. length c + (4 * 1024 * 1024 + 12) \<le> MAX_RECEIVE_BUFFER_SIZE) cs"
    using assms(8) by (auto simp: list_all_iff MAX_RECEIVE_BUFFER_SIZE_def)
qed simp


text \<open>The first write takes five bytes, the rest goes out on \<open>bytesWritten\<close>.\<close>

lemma heartbeat_two_writes:
  "send_all (p2p_send (\<lambda>n c. 5)) [heartbeat_frame] (p2p_init\<lparr>sk_state := P2PConnected, sk_tcp := ConnectedState\<rparr>)
   = (p2p_init\<lparr>sk_state := P2PConnected, sk_tcp := ConnectedState, sk_queue := [drop 5 (encode_frame heartbeat_frame)],
        sk_queuedBytes := 7, sk_writes := 1, sk_sent := take 5 (encode_frame heartbeat_frame)\<rparr>, [heartbeat_frame])"
  by (simp add: p2p_send_def sendFrame_def p2p_init_def heartbeat_wire MAX_OUTGOING_QUEUE_SIZE_def
      client_writes_def flushWriteQueue.simps Let_def)

theorem accepted_frames_delivered_witness:
  "receive (processStreamBuffer MAX_FRAME_PAYLOAD_SIZE) []
     [take 5 (encode_frame heartbeat_frame), drop 5 (encode_frame heartbeat_frame)] = ([heartbeat_frame], [], [])"
proof (rule accepted_frames_delivered [OF _ _ _ _ heartbeat_two_writes, of "\<lambda>n c. int (length c)"])
  show "list_all (\<lambda>f. length (payload f) \<le> 4 * 1024 * 1024) [heartbeat_frame]"
    by (simp add: heartbeat_frame_def)
qed (simp_all add: p2p_init_def flushWriteQueue.simps Let_def heartbeat_wire)


end
