(* ===== verification/Link.thy ===== *)
theory Link
  imports P2PSocket Messages
begin

text \<open>
  The controllers' side of the socket: \<open>m_socket\<close>, which may be null, the surroundings of
  one slot call (the clock, the device id of \<open>AppConfig\<close>, what the operating system
  answers), and the two calls the controllers make, \<open>sendFrame\<close> and \<open>connectToPeer\<close>.
  The clock is read once per call: it has a resolution of a second.
\<close>

type_synonym link = "p2p option"

record call_env =
  ce_now :: int
  ce_deviceId :: qstring
  ce_wr :: "nat \<Rightarrow> bytes \<Rightarrow> int"
  ce_sync :: bool

definition link_isConnected :: "link \<Rightarrow> bool" where
  "link_isConnected l = (case l of None \<Rightarrow> False | Some p \<Rightarrow> isConnected p)"

definition link_send :: "call_env \<Rightarrow> p2p_frame \<Rightarrow> link \<Rightarrow> link \<times> bool \<times> p2p_event list" where
  "link_send e f l =
    (case l of None \<Rightarrow> (None, False, [])
     | Some p \<Rightarrow> (case sendFrame (ce_wr e) f p of (p', ok, ev) \<Rightarrow> (Some p', ok, ev)))"

text \<open>\<open>if (m_socket && !ip.isEmpty() && !m_socket->isConnected()) m_socket->connectToPeer(ip);\<close>\<close>

definition link_connect :: "call_env \<Rightarrow> qstring \<Rightarrow> link \<Rightarrow> link \<times> p2p_event list" where
  "link_connect e ip l =
    (case l of None \<Rightarrow> (None, [])
     | Some p \<Rightarrow>
        if ip \<noteq> [] \<and> \<not> isConnected p
        then (case connectToPeer (ce_sync e) ip 7788 p of (p', ev) \<Rightarrow> (Some p', ev))
        else (Some p, []))"

text \<open>A frame whose payload is a JSON object.\<close>

definition json_frame :: "qt_lib \<Rightarrow> frame_type \<Rightarrow> json_obj \<Rightarrow> p2p_frame" where
  "json_frame qt ty obj = \<lparr>frame_ty = ty, payload = json_write qt obj\<rparr>"

lemma json_frame_simps [simp]:
  "frame_ty (json_frame qt ty obj) = ty" "payload (json_frame qt ty obj) = json_write qt obj"
  by (simp_all add: json_frame_def)

text \<open>What a call to the socket leaves to the peer: nothing, or the whole frame.\<close>

definition link_stream :: "link \<Rightarrow> bytes" where
  "link_stream l = (case l of None \<Rightarrow> [] | Some p \<Rightarrow> out_stream p)"

definition link_up :: "link \<Rightarrow> bool" where
  "link_up l = (case l of None \<Rightarrow> False | Some p \<Rightarrow> p2p_up p)"

definition link_put :: "call_env \<Rightarrow> p2p_frame \<Rightarrow> link \<Rightarrow> link \<times> bool" where
  "link_put e f l = (case link_send e f l of (l', ok, _) \<Rightarrow> (l', ok))"

interpretation link: transport "link_put e" link_stream link_up encode_frame for e
proof unfold_locales
  fix l f l'
  assume up: "link_up l" and s: "link_put e f l = (l', True)"
  then obtain p p' where "l = Some p" "p2p_up p" "l' = Some p'" "p2p_send (ce_wr e) f p = (p', True)"
    by (auto simp: link_up_def link_put_def link_send_def p2p_send_def split: option.splits prod.splits)
  then show "link_stream l' = link_stream l @ encode_frame f"
    by (simp add: link_stream_def p2p_link.send_accepted)
next
  fix l f l'
  assume up: "link_up l" and s: "link_put e f l = (l', False)"
  then obtain p p' where "l = Some p" "p2p_up p" "l' = Some p'" "p2p_send (ce_wr e) f p = (p', False)"
    by (auto simp: link_up_def link_put_def link_send_def p2p_send_def split: option.splits prod.splits)
  then show "link_stream l' = link_stream l"
    by (simp add: link_stream_def p2p_link.send_refused)
next
  fix l f l' b
  assume up: "link_up l" and s: "link_put e f l = (l', b)"
  then obtain p p' where "l = Some p" "p2p_up p" "l' = Some p'" "p2p_send (ce_wr e) f p = (p', b)"
    by (auto simp: link_up_def link_put_def link_send_def p2p_send_def split: option.splits prod.splits)
  then show "link_up l'"
    by (simp add: link_up_def p2p_link.send_up)
qed

end
