(* ===== verification/Chat.thy ===== *)
theory Chat
  imports Link
begin

text \<open>
  \<open>ChatController\<close> of src/protocol/chat_controller.cpp: outgoing messages with their
  acknowledgement timers, duplicate detection, receipts and typing indicators. A
  \<open>QTimer\<close> is the interval it was started with; the timer maps of the code hold exactly
  the running timers. Each slot takes the controller with its socket and returns both
  with the signals it emitted and the calls it made, in order.
\<close>

section \<open>State\<close>

datatype message_state = Pending | Sent | Delivered | Read | Failed

record tracked_message =
  tm_message :: chat_message
  tm_state :: message_state
  tm_sendTimestamp :: int

record chat =
  ct_outgoing :: "(qstring, tracked_message) qmap"
  ct_ackTimers :: "(qstring, int) qmap"
  ct_receivedCache :: "(qstring, int) qmap"
  ct_peerTyping :: "(qstring, int) qmap"
  ct_typingStop :: "int option"
  ct_lastTypingRecipient :: qstring
  ct_localIsTyping :: bool
  ct_ackTimeoutMs :: int

datatype chat_event =
    MessageSent qstring
  | MessageReceived chat_message
  | MessageStatusChanged qstring message_state
  | MessageAckReceived message_ack
  | PeerTypingChanged qstring bool
  | ChatErrorOccurred
  | FrameSent p2p_frame bool
  | SocketEvent p2p_event

type_synonym chat_link = "chat \<times> link"

definition chat_init :: chat where
  "chat_init = \<lparr>ct_outgoing = [], ct_ackTimers = [], ct_receivedCache = [], ct_peerTyping = [],
     ct_typingStop = None, ct_lastTypingRecipient = [], ct_localIsTyping = False, ct_ackTimeoutMs = 10000\<rparr>"

definition DUPLICATE_CACHE_WINDOW_SECS :: int where "DUPLICATE_CACHE_WINDOW_SECS = 300"

definition getTrackedMessage :: "chat \<Rightarrow> qstring \<Rightarrow> tracked_message option" where
  "getTrackedMessage c messageId = qm_value (ct_outgoing c) messageId"

definition isPeerTyping :: "chat \<Rightarrow> qstring \<Rightarrow> bool" where
  "isPeerTyping c peerDeviceId = qm_contains (ct_peerTyping c) peerDeviceId"

definition setAckTimeoutMs :: "int \<Rightarrow> chat \<Rightarrow> chat" where
  "setAckTimeoutMs ms c = c\<lparr>ct_ackTimeoutMs := ms\<rparr>"

section \<open>Using the socket\<close>

definition chat_onSocketDisconnected :: "chat \<Rightarrow> chat \<times> chat_event list" where
  "chat_onSocketDisconnected c =
    (c\<lparr>ct_peerTyping := []\<rparr>, map (\<lambda>peerId. PeerTypingChanged peerId False) (qm_keys (ct_peerTyping c)))"

text \<open>
  \<open>connectToPeer\<close> may close a pending connection at once; \<open>disconnected\<close> is connected to
  the slot above.
\<close>

definition chat_connect :: "call_env \<Rightarrow> qstring \<Rightarrow> chat_link \<Rightarrow> chat_link \<times> chat_event list" where
  "chat_connect e ip = (\<lambda>(c, l).
    (case link_connect e ip l of (l', ev) \<Rightarrow>
      if DisconnectedSignal \<in> set ev
      then (case chat_onSocketDisconnected c of (c', ev') \<Rightarrow> ((c', l'), map SocketEvent ev @ ev'))
      else ((c, l'), map SocketEvent ev)))"

definition chat_send :: "call_env \<Rightarrow> p2p_frame \<Rightarrow> chat_link \<Rightarrow> chat_link \<times> bool \<times> chat_event list" where
  "chat_send e f = (\<lambda>(c, l).
    (case l of None \<Rightarrow> ((c, None), False, [])
     | Some p \<Rightarrow> (case link_send e f l of (l', ok, ev) \<Rightarrow> ((c, l'), ok, FrameSent f ok # map SocketEvent ev))))"

section \<open>Sending\<close>

definition sendMessage :: "qt_lib \<Rightarrow> call_env \<Rightarrow> qstring \<Rightarrow> qstring \<Rightarrow> qstring \<Rightarrow> qstring \<Rightarrow> chat_link
    \<Rightarrow> chat_link \<times> qstring \<times> chat_event list" where
  "sendMessage qt e uuid recipientDeviceId content peerVirtualIp s =
    (if length (to_utf8 qt content) > MAX_CHAT_MESSAGE_CONTENT_SIZE then (s, [], [ChatErrorOccurred])
     else if recipientDeviceId = [] then (s, [], [ChatErrorOccurred])
     else
      let msgId = generateMessageId uuid;
          msg = \<lparr>cm_messageId = msgId, cm_senderDeviceId = ce_deviceId e, cm_recipientDeviceId = recipientDeviceId,
                 cm_content = content, cm_timestamp = ce_now e, cm_replyToMessageId = None\<rparr>;
          frame = json_frame qt FtChatMessage (ChatMessage_toJson (ce_now e) msg) in
      case chat_connect e peerVirtualIp s of ((c1, l1), ev1) \<Rightarrow>
      let c2 = c1\<lparr>ct_outgoing := qm_insert msgId
                   \<lparr>tm_message = msg, tm_state = Sent, tm_sendTimestamp = cm_timestamp msg\<rparr> (ct_outgoing c1),
                 ct_ackTimers := qm_insert msgId (ct_ackTimeoutMs c1) (ct_ackTimers c1)\<rparr> in
      case chat_send e frame (c2, l1) of ((c3, l3), sent, ev3) \<Rightarrow>
      let c4 = (if \<not> sent \<and> \<not> link_isConnected l3
                then c3\<lparr>ct_outgoing := qm_insert msgId
                  \<lparr>tm_message = msg, tm_state = Pending, tm_sendTimestamp = cm_timestamp msg\<rparr> (ct_outgoing c3)\<rparr>
                else c3) in
      ((c4, l3), msgId, ev1 @ ev3 @ [MessageSent msgId]))"

text \<open>The acknowledgement timer of a message fires.\<close>

definition ackTimeout :: "qstring \<Rightarrow> chat \<Rightarrow> chat \<times> chat_event list" where
  "ackTimeout msgId c =
    (case (case qm_value (ct_outgoing c) msgId of
             Some t \<Rightarrow>
               if tm_state t = Sent \<or> tm_state t = Pending
               then (c\<lparr>ct_outgoing := qm_insert msgId (t\<lparr>tm_state := Failed\<rparr>) (ct_outgoing c)\<rparr>,
                     [MessageStatusChanged msgId Failed])
               else (c, [])
           | None \<Rightarrow> (c, []))
     of (c1, ev) \<Rightarrow> (c1\<lparr>ct_ackTimers := qm_remove msgId (ct_ackTimers c1)\<rparr>, ev))"

definition sendReadReceipt :: "qt_lib \<Rightarrow> call_env \<Rightarrow> qstring \<Rightarrow> qstring \<Rightarrow> chat_link
    \<Rightarrow> chat_link \<times> bool \<times> chat_event list" where
  "sendReadReceipt qt e messageId peerVirtualIp s =
    (if messageId = [] then (s, False, [])
     else
      let ack = \<lparr>ma_messageId = messageId, ma_status = qs ''read'', ma_timestamp = ce_now e\<rparr> in
      case chat_connect e peerVirtualIp s of (s1, ev1) \<Rightarrow>
      case chat_send e (json_frame qt FtMessageAck (MessageAck_toJson (ce_now e) ack)) s1 of (s2, ok, ev2) \<Rightarrow>
      (s2, ok, ev1 @ ev2))"

definition typing_frame :: "qt_lib \<Rightarrow> call_env \<Rightarrow> qstring \<Rightarrow> bool \<Rightarrow> p2p_frame" where
  "typing_frame qt e recipientDeviceId isTyping =
    json_frame qt FtTypingIndicator (TypingIndicator_toJson (ce_now e)
      \<lparr>ti_senderDeviceId = ce_deviceId e, ti_recipientDeviceId = recipientDeviceId, ti_isTyping = isTyping,
       ti_timestamp = ce_now e\<rparr>)"

definition sendTypingNotification :: "qt_lib \<Rightarrow> call_env \<Rightarrow> qstring \<Rightarrow> bool \<Rightarrow> qstring \<Rightarrow> chat_link
    \<Rightarrow> chat_link \<times> chat_event list" where
  "sendTypingNotification qt e recipientDeviceId isTyping peerVirtualIp s =
    (if recipientDeviceId = [] then (s, [])
     else case s of (c, l) \<Rightarrow>
      let c0 = c\<lparr>ct_lastTypingRecipient := recipientDeviceId\<rparr> in
      if isTyping then
        (case (if \<not> ct_localIsTyping c0 then
                 (case chat_connect e peerVirtualIp (c0\<lparr>ct_localIsTyping := True\<rparr>, l) of (s1, ev1) \<Rightarrow>
                  case chat_send e (typing_frame qt e recipientDeviceId True) s1 of (s2, ok, ev2) \<Rightarrow> (s2, ev1 @ ev2))
               else ((c0, l), []))
         of ((c3, l3), ev) \<Rightarrow> ((c3\<lparr>ct_typingStop := Some 3000\<rparr>, l3), ev))
      else if ct_localIsTyping c0 then
        (case chat_send e (typing_frame qt e recipientDeviceId False)
           (c0\<lparr>ct_localIsTyping := False, ct_typingStop := None\<rparr>, l) of (s2, ok, ev2) \<Rightarrow> (s2, ev2))
      else ((c0, l), []))"

text \<open>The single-shot timer that ends the local typing state.\<close>

definition localTypingTimeout :: "qt_lib \<Rightarrow> call_env \<Rightarrow> chat_link \<Rightarrow> chat_link \<times> chat_event list" where
  "localTypingTimeout qt e = (\<lambda>(c, l).
    (let c0 = c\<lparr>ct_typingStop := None\<rparr> in
     if ct_localIsTyping c0 then sendTypingNotification qt e (ct_lastTypingRecipient c0) False [] (c0, l)
     else ((c0, l), [])))"

section \<open>Receiving\<close>

definition cleanExpiredDuplicateCache :: "int \<Rightarrow> chat \<Rightarrow> chat" where
  "cleanExpiredDuplicateCache now c =
    c\<lparr>ct_receivedCache := qm_retain (\<lambda>_ t. \<not> now - t > DUPLICATE_CACHE_WINDOW_SECS) (ct_receivedCache c)\<rparr>"

definition delivery_ack :: "qt_lib \<Rightarrow> call_env \<Rightarrow> qstring \<Rightarrow> p2p_frame" where
  "delivery_ack qt e messageId = json_frame qt FtMessageAck (MessageAck_toJson (ce_now e)
     \<lparr>ma_messageId = messageId, ma_status = qs ''delivered'', ma_timestamp = ce_now e\<rparr>)"

definition clearPeerTyping :: "qstring \<Rightarrow> chat \<Rightarrow> chat \<times> chat_event list" where
  "clearPeerTyping peerId c =
    (if qm_contains (ct_peerTyping c) peerId
     then (c\<lparr>ct_peerTyping := qm_remove peerId (ct_peerTyping c)\<rparr>, [PeerTypingChanged peerId False])
     else (c, []))"

definition handleInboundChatMessage :: "qt_lib \<Rightarrow> call_env \<Rightarrow> bytes \<Rightarrow> chat_link \<Rightarrow> chat_link \<times> chat_event list" where
  "handleInboundChatMessage qt e body = (\<lambda>(c, l).
    (case json_read qt body of
       None \<Rightarrow> ((c, l), [])
     | Some obj \<Rightarrow>
       (case ChatMessage_fromJson qt obj of
          None \<Rightarrow> ((c, l), [])
        | Some msg \<Rightarrow>
          (let c1 = cleanExpiredDuplicateCache (ce_now e) c in
           if qm_contains (ct_receivedCache c1) (cm_messageId msg) then
             (case chat_send e (delivery_ack qt e (cm_messageId msg)) (c1, l) of (s2, ok, ev) \<Rightarrow> (s2, ev))
           else
             (case clearPeerTyping (cm_senderDeviceId msg)
                (c1\<lparr>ct_receivedCache := qm_insert (cm_messageId msg) (ce_now e) (ct_receivedCache c1)\<rparr>) of (c2, ev2) \<Rightarrow>
              case chat_send e (delivery_ack qt e (cm_messageId msg)) (c2, l) of (s3, ok, ev3) \<Rightarrow>
              (s3, ev2 @ [MessageReceived msg] @ ev3))))))"

definition handleInboundMessageAck :: "qt_lib \<Rightarrow> bytes \<Rightarrow> chat \<Rightarrow> chat \<times> chat_event list" where
  "handleInboundMessageAck qt body c =
    (case json_read qt body of
       None \<Rightarrow> (c, [])
     | Some obj \<Rightarrow>
       (case MessageAck_fromJson obj of
          None \<Rightarrow> (c, [])
        | Some ack \<Rightarrow>
          (case qm_value (ct_outgoing c) (ma_messageId ack) of
             None \<Rightarrow> (c, [MessageAckReceived ack])
           | Some t \<Rightarrow>
             let newState = (if ma_status ack = qs ''read'' then Read else Delivered) in
             (c\<lparr>ct_ackTimers := qm_remove (ma_messageId ack) (ct_ackTimers c),
                ct_outgoing := qm_insert (ma_messageId ack) (t\<lparr>tm_state := newState\<rparr>) (ct_outgoing c)\<rparr>,
              [MessageStatusChanged (ma_messageId ack) newState, MessageAckReceived ack]))))"

definition handleInboundTypingIndicator :: "qt_lib \<Rightarrow> bytes \<Rightarrow> chat \<Rightarrow> chat \<times> chat_event list" where
  "handleInboundTypingIndicator qt body c =
    (case json_read qt body of
       None \<Rightarrow> (c, [])
     | Some obj \<Rightarrow>
       (case TypingIndicator_fromJson obj of
          None \<Rightarrow> (c, [])
        | Some typing \<Rightarrow>
          let peerId = ti_senderDeviceId typing in
          if ti_isTyping typing then
            (c\<lparr>ct_peerTyping := qm_insert peerId 5000 (ct_peerTyping c)\<rparr>,
             if \<not> qm_contains (ct_peerTyping c) peerId then [PeerTypingChanged peerId True] else [])
          else clearPeerTyping peerId c))"

text \<open>A peer's typing timer expires after five seconds.\<close>

definition peerTypingTimeout :: "qstring \<Rightarrow> chat \<Rightarrow> chat \<times> chat_event list" where
  "peerTypingTimeout peerId c = clearPeerTyping peerId c"

definition chat_onFrameReceivedFrom :: "qt_lib \<Rightarrow> call_env \<Rightarrow> p2p_frame \<Rightarrow> chat_link \<Rightarrow> chat_link \<times> chat_event list" where
  "chat_onFrameReceivedFrom qt e frame = (\<lambda>(c, l).
    (if frame_ty frame = FtChatMessage then handleInboundChatMessage qt e (payload frame) (c, l)
     else if frame_ty frame = FtMessageAck then
       (case handleInboundMessageAck qt (payload frame) c of (c', ev) \<Rightarrow> ((c', l), ev))
     else if frame_ty frame = FtTypingIndicator then
       (case handleInboundTypingIndicator qt (payload frame) c of (c', ev) \<Rightarrow> ((c', l), ev))
     else ((c, l), [])))"

definition chat_onPeerDisconnected :: "chat \<Rightarrow> chat \<times> chat_event list" where
  "chat_onPeerDisconnected c = chat_onSocketDisconnected c"

section \<open>Runs\<close>

datatype chat_input =
    SendMessage qstring qstring qstring qstring
  | AckTimer qstring
  | SendReadReceipt qstring qstring
  | SendTyping qstring bool qstring
  | LocalTypingTimer
  | PeerTypingTimer qstring
  | FrameArrived p2p_frame
  | PeerLeft
  | SetAckTimeout int

fun chat_step :: "qt_lib \<Rightarrow> call_env \<Rightarrow> chat_input \<Rightarrow> chat_link \<Rightarrow> chat_link \<times> chat_event list" where
  "chat_step qt e (SendMessage uuid r content ip) s =
     (case sendMessage qt e uuid r content ip s of (s', _, ev) \<Rightarrow> (s', ev))"
| "chat_step qt e (AckTimer i) (c, l) = (case ackTimeout i c of (c', ev) \<Rightarrow> ((c', l), ev))"
| "chat_step qt e (SendReadReceipt i ip) s = (case sendReadReceipt qt e i ip s of (s', _, ev) \<Rightarrow> (s', ev))"
| "chat_step qt e (SendTyping r b ip) s = sendTypingNotification qt e r b ip s"
| "chat_step qt e LocalTypingTimer s = localTypingTimeout qt e s"
| "chat_step qt e (PeerTypingTimer i) (c, l) = (case peerTypingTimeout i c of (c', ev) \<Rightarrow> ((c', l), ev))"
| "chat_step qt e (FrameArrived f) s = chat_onFrameReceivedFrom qt e f s"
| "chat_step qt e PeerLeft (c, l) = (case chat_onPeerDisconnected c of (c', ev) \<Rightarrow> ((c', l), ev))"
| "chat_step qt e (SetAckTimeout ms) (c, l) = ((setAckTimeoutMs ms c, l), [])"

text \<open>Message ids come from a fresh UUID.\<close>

fun fresh_id :: "chat_input \<Rightarrow> chat \<Rightarrow> bool" where
  "fresh_id (SendMessage uuid r content ip) c = (qm_value (ct_outgoing c) (generateMessageId uuid) = None)"
| "fresh_id _ c = True"

text \<open>Between two steps the socket does as it likes, so a step gets the socket anew.\<close>

inductive chat_reach :: "qt_lib \<Rightarrow> chat \<Rightarrow> bool" for qt where
  init: "chat_reach qt chat_init"
| step: "chat_reach qt c \<Longrightarrow> fresh_id i c \<Longrightarrow> chat_step qt e i (c, l) = ((c', l'), ev) \<Longrightarrow> chat_reach qt c'"

fun chat_run :: "qt_lib \<Rightarrow> (call_env \<times> link \<times> chat_input) list \<Rightarrow> chat \<Rightarrow> chat \<times> chat_event list" where
  "chat_run qt [] c = (c, [])"
| "chat_run qt ((e, l, i) # steps) c =
    (case chat_step qt e i (c, l) of ((c1, l1), ev) \<Rightarrow>
     case chat_run qt steps c1 of (c2, ev2) \<Rightarrow> (c2, ev @ ev2))"

text \<open>
  What the helpers leave alone, and the signals they emit: a typing signal exactly when
  the peer's typing state changed.
\<close>

definition typing_delta :: "chat \<Rightarrow> chat \<Rightarrow> chat_event list \<Rightarrow> bool" where
  "typing_delta c c1 ev \<longleftrightarrow> (\<forall>p b. PeerTypingChanged p b \<in> set ev \<longleftrightarrow>
     isPeerTyping c1 p = b \<and> isPeerTyping c p = (\<not> b))"

lemma chat_connect_frame:
  assumes "chat_connect e ip (c, l) = ((c1, l1), ev)"
  shows "c1 = c\<lparr>ct_peerTyping := ct_peerTyping c1\<rparr>" and "typing_delta c c1 ev"
    and "MessageReceived m \<notin> set ev" and "FrameSent f b \<notin> set ev" and "l1 = None \<longleftrightarrow> l = None"
    and "qm_ok (ct_peerTyping c) \<Longrightarrow> qm_ok (ct_peerTyping c1)"
proof -
  obtain ev0 where lc: "link_connect e ip l = (l1, ev0)"
    and r: "(c1, ev) = (if DisconnectedSignal \<in> set ev0
      then (c\<lparr>ct_peerTyping := []\<rparr>, map SocketEvent ev0 @ map (\<lambda>p. PeerTypingChanged p False) (qm_keys (ct_peerTyping c)))
      else (c, map SocketEvent ev0))"
    using assms by (auto simp: chat_connect_def chat_onSocketDisconnected_def split: prod.splits if_splits)
  show "l1 = None \<longleftrightarrow> l = None"
    using lc by (auto simp: link_connect_def split: option.splits if_splits prod.splits)
  show "c1 = c\<lparr>ct_peerTyping := ct_peerTyping c1\<rparr>" "MessageReceived m \<notin> set ev" "FrameSent f b \<notin> set ev"
    "qm_ok (ct_peerTyping c) \<Longrightarrow> qm_ok (ct_peerTyping c1)"
    using r by (auto split: if_splits)
  show "typing_delta c c1 ev"
    using r by (cases "DisconnectedSignal \<in> set ev0")
      (auto simp: typing_delta_def isPeerTyping_def qm_contains_iff)
qed

lemma chat_send_frame:
  assumes "chat_send e f (c, l) = ((c1, l1), ok, ev)"
  shows "c1 = c" and "PeerTypingChanged p b \<notin> set ev" and "MessageReceived m \<notin> set ev"
    and "FrameSent g k \<in> set ev \<longleftrightarrow> g = f \<and> k = ok \<and> l \<noteq> None" and "l1 = None \<longleftrightarrow> l = None"
  using assms by (auto simp: chat_send_def link_send_def split: prod.splits option.splits)

lemma clearPeerTyping_frame:
  assumes "clearPeerTyping p c = (c1, ev)"
  shows "c1 = c\<lparr>ct_peerTyping := ct_peerTyping c1\<rparr>" and "typing_delta c c1 ev" and "\<not> isPeerTyping c1 p"
    and "MessageReceived m \<notin> set ev" and "FrameSent f k \<notin> set ev"
    and "qm_ok (ct_peerTyping c) \<Longrightarrow> qm_ok (ct_peerTyping c1)"
  using assms
  by (auto simp: clearPeerTyping_def typing_delta_def isPeerTyping_def qm_contains_def split: if_splits)

definition waiting :: "chat \<Rightarrow> qstring \<Rightarrow> bool" where
  "waiting c i \<longleftrightarrow> (\<exists>t. qm_value (ct_outgoing c) i = Some t \<and> (tm_state t = Sent \<or> tm_state t = Pending))"

definition chat_inv :: "chat \<Rightarrow> bool" where
  "chat_inv c \<longleftrightarrow> qm_ok (ct_receivedCache c)
     \<and> (\<forall>i. qm_contains (ct_ackTimers c) i \<longleftrightarrow> waiting c i)
     \<and> (ct_localIsTyping c \<longleftrightarrow> ct_typingStop c \<noteq> None) \<and> (ct_localIsTyping c \<longrightarrow> ct_lastTypingRecipient c \<noteq> [])"

text \<open>The invariant does not see who is typing, nor a message gets another unsettled state.\<close>

lemma chat_inv_typing [simp]: "chat_inv (c\<lparr>ct_peerTyping := m\<rparr>) = chat_inv c"
  by (simp add: chat_inv_def waiting_def)

lemma chat_inv_timeout [simp]: "chat_inv (c\<lparr>ct_ackTimeoutMs := m\<rparr>) = chat_inv c"
  by (simp add: chat_inv_def waiting_def)

lemma chat_inv_wait:
  assumes "chat_inv c" and "tm_state t = Sent \<or> tm_state t = Pending"
  shows "chat_inv (c\<lparr>ct_outgoing := qm_insert i t (ct_outgoing c), ct_ackTimers := qm_insert i ms (ct_ackTimers c)\<rparr>)"
  using assms by (auto simp: chat_inv_def waiting_def qm_contains_def)

lemma chat_inv_settle:
  assumes "chat_inv c" and "\<not> (tm_state t = Sent \<or> tm_state t = Pending)"
  shows "chat_inv (c\<lparr>ct_ackTimers := qm_remove i (ct_ackTimers c), ct_outgoing := qm_insert i t (ct_outgoing c)\<rparr>)"
  using assms by (auto simp: chat_inv_def waiting_def qm_contains_def)


section \<open>The invariant\<close>

lemma inv_chat_connect:
  "chat_connect e ip (c, l) = ((c1, l1), ev) \<Longrightarrow> chat_inv c1 = chat_inv c"
  by (metis chat_connect_frame(1) chat_inv_typing)

lemma inv_clearPeerTyping: "clearPeerTyping p c = (c1, ev) \<Longrightarrow> chat_inv c1 = chat_inv c"
  by (metis clearPeerTyping_frame(1) chat_inv_typing)

lemma chat_send_eq:
  "chat_send e f (c, l) = ((c, fst (link_send e f l)), fst (snd (link_send e f l)),
     (if l = None then [] else FrameSent f (fst (snd (link_send e f l))) # map SocketEvent (snd (snd (link_send e f l)))))"
  by (auto simp: chat_send_def link_send_def split: option.splits prod.splits)

text \<open>A message that passes the guards is tracked as sent, or as pending when there is no peer.\<close>

definition new_message :: "call_env \<Rightarrow> qstring \<Rightarrow> qstring \<Rightarrow> qstring \<Rightarrow> chat_message" where
  "new_message e msgId r content = \<lparr>cm_messageId = msgId, cm_senderDeviceId = ce_deviceId e, cm_recipientDeviceId = r,
     cm_content = content, cm_timestamp = ce_now e, cm_replyToMessageId = None\<rparr>"

lemma sendMessage_accepted:
  fixes uuid :: qstring
  assumes "length (to_utf8 qt content) \<le> MAX_CHAT_MESSAGE_CONTENT_SIZE" and "r \<noteq> []"
    and "chat_connect e ip s = ((c1, l1), ev1)"
  defines "i \<equiv> generateMessageId uuid"
  defines "m \<equiv> new_message e i r content"
  defines "f \<equiv> json_frame qt FtChatMessage (ChatMessage_toJson (ce_now e) m)"
  defines "l3 \<equiv> fst (link_send e f l1)" and "sent \<equiv> fst (snd (link_send e f l1))"
  shows "sendMessage qt e uuid r content ip s =
    ((c1\<lparr>ct_outgoing := qm_insert i \<lparr>tm_message = m, tm_state = (if sent \<or> link_isConnected l3 then Sent else Pending),
           tm_sendTimestamp = ce_now e\<rparr> (ct_outgoing c1),
         ct_ackTimers := qm_insert i (ct_ackTimeoutMs c1) (ct_ackTimers c1)\<rparr>, l3), i,
     ev1 @ (if l1 = None then [] else FrameSent f sent # map SocketEvent (snd (snd (link_send e f l1)))) @ [MessageSent i])"
  using assms(1-3)
  by (simp add: sendMessage_def Let_def chat_send_eq not_less l3_def sent_def f_def m_def i_def
      new_message_def)

lemma inv_sendMessage:
  assumes "chat_inv c" and "sendMessage qt e uuid r content ip (c, l) = ((c', l'), i, ev)"
  shows "chat_inv c'"
proof (cases "length (to_utf8 qt content) \<le> MAX_CHAT_MESSAGE_CONTENT_SIZE \<and> r \<noteq> []")
  case False
  then show ?thesis using assms by (auto simp: sendMessage_def split: if_splits)
next
  case True
  obtain c1 l1 ev1 where c1: "chat_connect e ip (c, l) = ((c1, l1), ev1)" by (metis prod.exhaust)
  have inv1: "chat_inv c1" using assms(1) inv_chat_connect [OF c1] by simp
  have "chat_inv (fst (fst (sendMessage qt e uuid r content ip (c, l))))"
    using True by (simp add: sendMessage_accepted [OF _ _ c1] chat_inv_wait inv1)
  then show ?thesis using assms(2) by simp
qed

lemma inv_ackTimeout: "chat_inv c \<Longrightarrow> ackTimeout i c = (c', ev) \<Longrightarrow> chat_inv c'"
proof (cases "waiting c i")
  case True
  assume inv: "chat_inv c" and c': "ackTimeout i c = (c', ev)"
  from True obtain t where t: "qm_value (ct_outgoing c) i = Some t" "tm_state t = Sent \<or> tm_state t = Pending"
    by (auto simp: waiting_def)
  have "c' = c\<lparr>ct_ackTimers := qm_remove i (ct_ackTimers c), ct_outgoing := qm_insert i (t\<lparr>tm_state := Failed\<rparr>) (ct_outgoing c)\<rparr>"
    using c' t by (auto simp: ackTimeout_def)
  then show ?thesis using chat_inv_settle [OF inv, of "t\<lparr>tm_state := Failed\<rparr>" i] by simp
next
  case False
  assume inv: "chat_inv c" and c': "ackTimeout i c = (c', ev)"
  have "c' = c\<lparr>ct_ackTimers := qm_remove i (ct_ackTimers c)\<rparr>"
    using c' False by (auto simp: ackTimeout_def waiting_def split: option.splits)
  then show ?thesis using inv False by (auto simp: chat_inv_def waiting_def qm_contains_def)
qed

lemma inv_sendReadReceipt:
  "chat_inv c \<Longrightarrow> sendReadReceipt qt e i ip (c, l) = ((c', l'), ok, ev) \<Longrightarrow> chat_inv c'"
  by (auto simp: sendReadReceipt_def Let_def dest!: chat_send_frame(1) inv_chat_connect
      split: prod.splits if_splits)

lemma chat_inv_local:
  "chat_inv c \<Longrightarrow> r \<noteq> [] \<Longrightarrow>
     chat_inv (c\<lparr>ct_lastTypingRecipient := r, ct_localIsTyping := b, ct_typingStop := (if b then Some ms else None)\<rparr>)"
  by (auto simp: chat_inv_def waiting_def)

lemma chat_connect_local:
  assumes "chat_connect e ip (c, l) = ((c1, l1), ev)"
  shows "ct_localIsTyping c1 = ct_localIsTyping c" "ct_lastTypingRecipient c1 = ct_lastTypingRecipient c"
    "ct_typingStop c1 = ct_typingStop c" "ct_receivedCache c1 = ct_receivedCache c"
    "ct_outgoing c1 = ct_outgoing c" "ct_ackTimers c1 = ct_ackTimers c"
  by (subst chat_connect_frame(1) [OF assms], simp)+

lemma inv_sendTyping:
  assumes "chat_inv c" and "sendTypingNotification qt e r b ip (c, l) = ((c', l'), ev)"
  shows "chat_inv c'"
proof (cases "r = []")
  case False
  show ?thesis
  proof (cases "b \<and> \<not> ct_localIsTyping c")
    case True
    obtain c1 l1 ev1 where c1: "chat_connect e ip (c\<lparr>ct_lastTypingRecipient := r, ct_localIsTyping := True\<rparr>, l)
        = ((c1, l1), ev1)" by (metis prod.exhaust)
    have "c' = c1\<lparr>ct_typingStop := Some 3000\<rparr>"
      using assms(2) True False c1
      by (auto simp: sendTypingNotification_def Let_def dest: chat_send_frame(1) split: prod.splits)
    also have "c1 = c\<lparr>ct_lastTypingRecipient := r, ct_localIsTyping := True, ct_peerTyping := ct_peerTyping c1\<rparr>"
      using chat_connect_frame(1) [OF c1] by simp
    finally have "c' = c\<lparr>ct_lastTypingRecipient := r, ct_localIsTyping := True,
        ct_typingStop := (if True then Some 3000 else None)\<rparr>\<lparr>ct_peerTyping := ct_peerTyping c1\<rparr>"
      by simp
    then show ?thesis by (simp only: chat_inv_typing chat_inv_local [OF assms(1) False])
  next
    case other: False
    show ?thesis
      using assms False other
      by (auto simp: sendTypingNotification_def Let_def chat_inv_def waiting_def dest!: chat_send_frame(1)
          split: prod.splits if_splits)
  qed
qed (use assms in \<open>simp add: sendTypingNotification_def\<close>)

lemma inv_localTypingTimeout:
  assumes "chat_inv c" and "localTypingTimeout qt e (c, l) = ((c', l'), ev)"
  shows "chat_inv c' \<and> \<not> ct_localIsTyping c'"
  using assms
  by (auto simp: localTypingTimeout_def sendTypingNotification_def Let_def chat_inv_def waiting_def
      dest!: chat_send_frame(1) split: prod.splits if_splits)

lemma inv_clean [simp]: "chat_inv c \<Longrightarrow> chat_inv (cleanExpiredDuplicateCache now c)"
  by (simp add: cleanExpiredDuplicateCache_def chat_inv_def waiting_def)

lemma inv_received: "chat_inv c \<Longrightarrow> chat_inv (c\<lparr>ct_receivedCache := qm_insert i t (ct_receivedCache c)\<rparr>)"
  by (simp add: chat_inv_def waiting_def)

lemma inv_handleInboundChatMessage:
  "chat_inv c \<Longrightarrow> handleInboundChatMessage qt e b (c, l) = ((c', l'), ev) \<Longrightarrow> chat_inv c'"
  by (auto simp: handleInboundChatMessage_def Let_def inv_received dest!: chat_send_frame(1) inv_clearPeerTyping
      split: option.splits prod.splits if_splits)

lemma inv_handleInboundMessageAck:
  "chat_inv c \<Longrightarrow> handleInboundMessageAck qt b c = (c', ev) \<Longrightarrow> chat_inv c'"
  by (auto simp: handleInboundMessageAck_def Let_def intro: chat_inv_settle split: option.splits if_splits)

lemma inv_handleInboundTyping:
  "chat_inv c \<Longrightarrow> handleInboundTypingIndicator qt b c = (c', ev) \<Longrightarrow> chat_inv c'"
  by (auto simp: handleInboundTypingIndicator_def Let_def dest!: inv_clearPeerTyping split: option.splits if_splits)

lemma inv_chat_step:
  assumes "chat_inv c" and "chat_step qt e i (c, l) = ((c', l'), ev)"
  shows "chat_inv c'"
  using assms
  by (cases i) (auto simp: peerTypingTimeout_def chat_onPeerDisconnected_def chat_onSocketDisconnected_def
      setAckTimeoutMs_def chat_onFrameReceivedFrom_def split: prod.splits if_splits
      dest: inv_sendMessage inv_ackTimeout inv_sendReadReceipt inv_sendTyping inv_localTypingTimeout
        inv_clearPeerTyping inv_handleInboundChatMessage inv_handleInboundMessageAck inv_handleInboundTyping)

lemma inv_chat_init: "chat_inv chat_init"
  by (simp add: chat_inv_def chat_init_def waiting_def qm_contains_def)

lemma chat_reach_inv: "chat_reach qt c \<Longrightarrow> chat_inv c"
  by (induction rule: chat_reach.induct) (rule inv_chat_init, rule inv_chat_step)

section \<open>Properties\<close>

text \<open>
  C12: In every reachable state a message has an acknowledgement timer exactly when it is
  Sent or Pending, and the typing timer runs exactly while the local user is typing to
  someone.
\<close>

theorem ack_timers_match_open_messages:
  assumes "chat_reach qt c"
  shows "(qm_contains (ct_ackTimers c) i \<longleftrightarrow>
      (\<exists>t. getTrackedMessage c i = Some t \<and> (tm_state t = Sent \<or> tm_state t = Pending)))
    \<and> (ct_localIsTyping c \<longleftrightarrow> ct_typingStop c \<noteq> None)
    \<and> (ct_localIsTyping c \<longrightarrow> ct_lastTypingRecipient c \<noteq> [])"
  using chat_reach_inv [OF assms] by (simp add: chat_inv_def waiting_def getTrackedMessage_def)

definition quiet_env :: call_env where
  "quiet_env = \<lparr>ce_now = 1000, ce_deviceId = qs ''dev-a'', ce_wr = (\<lambda>n b. int (length b)), ce_sync = True\<rparr>"

text \<open>A controller without a socket: its message is pending.\<close>

definition pending_chat :: chat where
  "pending_chat = chat_init\<lparr>ct_outgoing := [(qs ''msg_u1'', \<lparr>tm_message = new_message quiet_env (qs ''msg_u1'') (qs ''dev-b'') (qs ''hi''),
         tm_state = Pending, tm_sendTimestamp = 1000\<rparr>)], ct_ackTimers := [(qs ''msg_u1'', 10000)]\<rparr>"

lemma pending_message:
  "chat_step qt0 quiet_env (SendMessage (qs ''u1'') (qs ''dev-b'') (qs ''hi'') []) (chat_init, None)
   = ((pending_chat, None),
      [MessageSent (qs ''msg_u1'')])"
proof -
  have "to_utf8 qt0 (qs ''hi'') = map ucast (qs ''hi'')"
    using utf8_ascii_qt0 by (simp add: utf8_ascii_def q_ascii_def qs_def)
  then have "length (to_utf8 qt0 (qs ''hi'')) \<le> MAX_CHAT_MESSAGE_CONTENT_SIZE"
    by (simp add: qs_def MAX_CHAT_MESSAGE_CONTENT_SIZE_def)
  moreover have "qs ''dev-b'' \<noteq> []" "generateMessageId (qs ''u1'') = qs ''msg_u1''"
    by (simp_all add: qs_def generateMessageId_def)
  moreover have "chat_connect quiet_env [] (chat_init, None) = ((chat_init, None), [])"
    by (simp add: chat_connect_def link_connect_def)
  ultimately show ?thesis
    using sendMessage_accepted [of qt0 "qs ''hi''" "qs ''dev-b''" quiet_env "[]" "(chat_init, None)" chat_init None "[]" "qs ''u1''"]
    by (simp add: pending_chat_def chat_init_def link_send_def link_isConnected_def quiet_env_def qm_insert.simps)
qed

lemma pending_reach:
  "chat_reach qt0 pending_chat"
  by (rule chat_reach.step [OF chat_reach.init _ pending_message]) (simp add: chat_init_def)

theorem ack_timers_match_open_messages_witness:
  "(\<exists>t. getTrackedMessage pending_chat (qs ''msg_u1'') = Some t \<and> (tm_state t = Sent \<or> tm_state t = Pending))
   \<and> \<not> ct_localIsTyping pending_chat"
  using ack_timers_match_open_messages [OF pending_reach, of "qs ''msg_u1''"]
  by (simp add: pending_chat_def qm_contains_def qm_value_def chat_init_def)

text \<open>
  C34: In every reachable state a message still Sent or Pending has a running timer, and
  when that fires the message becomes Failed and its timer is gone, while the other
  messages, their timers and every other member of the controller stay as they were.
\<close>

theorem unacknowledged_message_fails:
  assumes "chat_reach qt c" and "getTrackedMessage c i = Some t" and "tm_state t = Sent \<or> tm_state t = Pending"
  shows "qm_contains (ct_ackTimers c) i
    \<and> (\<exists>c'. ackTimeout i c = (c', [MessageStatusChanged i Failed])
        \<and> getTrackedMessage c' i = Some (t\<lparr>tm_state := Failed\<rparr>) \<and> \<not> qm_contains (ct_ackTimers c') i
        \<and> (\<forall>j. j \<noteq> i \<longrightarrow> getTrackedMessage c' j = getTrackedMessage c j
            \<and> qm_value (ct_ackTimers c') j = qm_value (ct_ackTimers c) j)
        \<and> c' = c\<lparr>ct_outgoing := ct_outgoing c', ct_ackTimers := ct_ackTimers c'\<rparr>)"
  using assms chat_reach_inv [OF assms(1)]
  by (auto simp: chat_inv_def waiting_def getTrackedMessage_def ackTimeout_def qm_contains_def)

theorem unacknowledged_message_fails_witness:
  "\<exists>c'. ackTimeout (qs ''msg_u1'') pending_chat = (c', [MessageStatusChanged (qs ''msg_u1'') Failed])"
proof -
  have "getTrackedMessage pending_chat (qs ''msg_u1'') = Some \<lparr>tm_message = new_message quiet_env (qs ''msg_u1'')
      (qs ''dev-b'') (qs ''hi''), tm_state = Pending, tm_sendTimestamp = 1000\<rparr>"
    by (simp add: pending_chat_def getTrackedMessage_def qm_value_def)
  from unacknowledged_message_fails [OF pending_reach this] show ?thesis by auto
qed

text \<open>
  An acknowledgement for a tracked message makes it Read or Delivered as its status says,
  stops its timer and leaves the other messages alone.
\<close>

theorem acknowledgement_settles_message:
  assumes "json_read qt body = Some obj" and "MessageAck_fromJson obj = Some ack"
    and "getTrackedMessage c (ma_messageId ack) = Some t"
    and "handleInboundMessageAck qt body c = (c', ev)"
  shows "getTrackedMessage c' (ma_messageId ack)
      = Some (t\<lparr>tm_state := if ma_status ack = qs ''read'' then Read else Delivered\<rparr>)
    \<and> \<not> qm_contains (ct_ackTimers c') (ma_messageId ack)
    \<and> (\<forall>j. j \<noteq> ma_messageId ack \<longrightarrow> getTrackedMessage c' j = getTrackedMessage c j
        \<and> qm_contains (ct_ackTimers c') j = qm_contains (ct_ackTimers c) j)
    \<and> MessageAckReceived ack \<in> set ev"
  using assms by (auto simp: handleInboundMessageAck_def getTrackedMessage_def qm_contains_def Let_def)


lemma json_frame_read: "json_roundtrip qt \<Longrightarrow> json_wf obj \<Longrightarrow> json_read qt (payload (json_frame qt ty obj)) = Some obj"
  by (simp add: json_roundtripD)

lemma utf16_literals [simp]: "q_utf16 (qs ''read'')" "q_utf16 (qs ''delivered'')"
  by (simp_all add: q_ascii_utf16 q_ascii_qs)

lemma delivery_ack_read:
  assumes "json_roundtrip qt" and "q_utf16 i" and "i \<noteq> []" and "0 < ce_now e" and "ce_now e < 2 ^ 63"
  shows "\<exists>obj. json_read qt (payload (delivery_ack qt e i)) = Some obj \<and>
    MessageAck_fromJson obj = Some \<lparr>ma_messageId = i, ma_status = qs ''delivered'', ma_timestamp = ce_now e\<rparr>"
proof -
  let ?a = "\<lparr>ma_messageId = i, ma_status = qs ''delivered'', ma_timestamp = ce_now e\<rparr>"
  have "json_read qt (payload (delivery_ack qt e i)) = Some (MessageAck_toJson (ce_now e) ?a)"
    unfolding delivery_ack_def using assms by (intro json_frame_read wf_intros) simp_all
  then show ?thesis using assms by (simp add: MessageAck_json)
qed

theorem acknowledgement_settles_message_witness:
  "\<exists>c' t. getTrackedMessage c' (qs ''msg_u1'') = Some t \<and> tm_state t = Delivered
     \<and> fst (handleInboundMessageAck qt0 (payload (delivery_ack qt0 quiet_env (qs ''msg_u1''))) pending_chat) = c'"
proof -
  have "q_utf16 (qs ''msg_u1'')" "qs ''msg_u1'' \<noteq> []"
    by (simp_all add: q_ascii_utf16 q_ascii_qs)
  then obtain obj where obj: "json_read qt0 (payload (delivery_ack qt0 quiet_env (qs ''msg_u1''))) = Some obj"
    "MessageAck_fromJson obj = Some \<lparr>ma_messageId = qs ''msg_u1'', ma_status = qs ''delivered'', ma_timestamp = 1000\<rparr>"
    using delivery_ack_read [OF json_roundtrip_qt0, of "qs ''msg_u1''" quiet_env] by (auto simp: quiet_env_def)
  obtain t where t: "getTrackedMessage pending_chat (qs ''msg_u1'') = Some t"
    by (simp add: pending_chat_def getTrackedMessage_def qm_value_def)
  obtain c' ev where h: "handleInboundMessageAck qt0 (payload (delivery_ack qt0 quiet_env (qs ''msg_u1''))) pending_chat = (c', ev)"
    by (metis prod.exhaust)
  have "getTrackedMessage c' (qs ''msg_u1'') = Some (t\<lparr>tm_state := Delivered\<rparr>)"
    using acknowledgement_settles_message [OF obj(1,2) _ h] t by simp
  then show ?thesis using h by auto
qed

text \<open>A message id stays in the cache as long as its entry is not older than the window.\<close>

definition remembered :: "chat \<Rightarrow> int \<Rightarrow> qstring \<Rightarrow> bool" where
  "remembered c now i \<longleftrightarrow> (\<exists>t. qm_value (ct_receivedCache c) i = Some t \<and> now - t \<le> DUPLICATE_CACHE_WINDOW_SECS)"

lemma remembered_clean:
  "qm_ok (ct_receivedCache c) \<Longrightarrow>
     qm_contains (ct_receivedCache (cleanExpiredDuplicateCache now c)) i = remembered c now i"
  by (simp add: cleanExpiredDuplicateCache_def qm_contains_def qm_value_retain remembered_def not_less split: option.splits)

text \<open>What the controller does with a well-formed chat message.\<close>

lemma inbound_message:
  assumes "json_read qt body = Some obj" and "ChatMessage_fromJson qt obj = Some m" and "qm_ok (ct_receivedCache c)"
    and "handleInboundChatMessage qt e body (c, l) = ((c', l'), ev)"
  shows "MessageReceived m' \<in> set ev \<longleftrightarrow> m' = m \<and> \<not> remembered c (ce_now e) (cm_messageId m)"
    and "FrameSent f ok \<in> set ev \<longleftrightarrow> l \<noteq> None \<and> (l', ok) = link_put e f l \<and> f = delivery_ack qt e (cm_messageId m)"
    and "remembered c' (ce_now e) (cm_messageId m)"
    and "l' = fst (link_put e (delivery_ack qt e (cm_messageId m)) l)"
    and "l = None \<or> (\<exists>ok. FrameSent (delivery_ack qt e (cm_messageId m)) ok \<in> set ev)"
proof -
  let ?i = "cm_messageId m" and ?a = "delivery_ack qt e (cm_messageId m)"
  let ?c1 = "cleanExpiredDuplicateCache (ce_now e) c"
  let ?sent = "if l = None then [] else FrameSent ?a (fst (snd (link_send e ?a l))) # map SocketEvent (snd (snd (link_send e ?a l)))"
  obtain c2 ev2 where c2: "clearPeerTyping (cm_senderDeviceId m)
      (?c1\<lparr>ct_receivedCache := qm_insert ?i (ce_now e) (ct_receivedCache ?c1)\<rparr>) = (c2, ev2)" by fastforce
  have h: "handleInboundChatMessage qt e body (c, l) =
     (if remembered c (ce_now e) ?i then ((?c1, fst (link_send e ?a l)), ?sent)
      else ((c2, fst (link_send e ?a l)), ev2 @ [MessageReceived m] @ ?sent))"
    using assms(1-3) c2 by (simp add: handleInboundChatMessage_def Let_def remembered_clean chat_send_eq)
  have put: "link_put e f l = (fst (link_send e f l), fst (snd (link_send e f l)))" for f
    by (simp add: link_put_def split: prod.splits)
  have c2c: "ct_receivedCache c2 = qm_insert ?i (ce_now e) (ct_receivedCache ?c1)"
    by (subst clearPeerTyping_frame(1) [OF c2]) simp
  have r1: "remembered ?c1 (ce_now e) ?i" if "remembered c (ce_now e) ?i"
    using that assms(3) by (auto simp: cleanExpiredDuplicateCache_def remembered_def qm_value_retain not_less)
  show "MessageReceived m' \<in> set ev \<longleftrightarrow> m' = m \<and> \<not> remembered c (ce_now e) ?i"
    using h assms(4) clearPeerTyping_frame(4) [OF c2] by (auto split: if_splits)
  show "FrameSent f ok \<in> set ev \<longleftrightarrow> l \<noteq> None \<and> (l', ok) = link_put e f l \<and> f = ?a"
    using h assms(4) clearPeerTyping_frame(5) [OF c2] by (auto simp: put split: if_splits)
  show "remembered c' (ce_now e) ?i"
    using h assms(4) c2c r1 by (auto simp: remembered_def DUPLICATE_CACHE_WINDOW_SECS_def split: if_splits)
  show "l' = fst (link_put e ?a l)"
    using h assms(4) by (auto simp: put split: if_splits)
  show "l = None \<or> (\<exists>ok. FrameSent ?a ok \<in> set ev)"
    using h assms(4) by (auto split: if_splits)
qed


text \<open>
  C33: Every well-formed chat message that arrives, new or repeated, is answered by one
  delivery receipt with its id, and by no other frame; when the connected socket takes it,
  it is the next frame in the stream to the peer.
\<close>

theorem every_message_acknowledged:
  assumes "chat_reach qt c" and "json_read qt body = Some obj" and "ChatMessage_fromJson qt obj = Some m"
    and "handleInboundChatMessage qt e body (c, Some p) = ((c', l'), ev)"
  shows "\<exists>ok. FrameSent (delivery_ack qt e (cm_messageId m)) ok \<in> set ev
    \<and> (\<forall>f k. FrameSent f k \<in> set ev \<longrightarrow> f = delivery_ack qt e (cm_messageId m) \<and> k = ok)
    \<and> (ok \<and> p2p_up p \<longrightarrow> link_stream l' = out_stream p @ encode_frame (delivery_ack qt e (cm_messageId m)))"
proof -
  have ok: "qm_ok (ct_receivedCache c)" using chat_reach_inv [OF assms(1)] by (simp add: chat_inv_def)
  note inb = inbound_message [OF assms(2,3) ok assms(4)]
  obtain b where b: "FrameSent (delivery_ack qt e (cm_messageId m)) b \<in> set ev" using inb(5) by auto
  then have put: "link_put e (delivery_ack qt e (cm_messageId m)) (Some p) = (l', b)" using inb(2) by simp
  have "FrameSent f k \<in> set ev \<Longrightarrow> f = delivery_ack qt e (cm_messageId m) \<and> k = b" for f k
    using inb(2) put by auto
  moreover have "link_stream l' = out_stream p @ encode_frame (delivery_ack qt e (cm_messageId m))" if "b" "p2p_up p"
    using link.send_accepted [of "Some p" e _ l'] put that by (simp add: link_up_def link_stream_def)
  ultimately show ?thesis using b by blast
qed

lemma chat_connect_received: "chat_connect e ip (c, l) = ((c1, l1), ev) \<Longrightarrow> ct_receivedCache c1 = ct_receivedCache c"
  by (rule chat_connect_local)

lemma sendMessage_received:
  assumes "sendMessage qt e uuid r content ip (c, l) = ((c', l'), i, ev)"
  shows "ct_receivedCache c' = ct_receivedCache c \<and> MessageReceived m \<notin> set ev"
proof (cases "length (to_utf8 qt content) \<le> MAX_CHAT_MESSAGE_CONTENT_SIZE \<and> r \<noteq> []")
  case True
  obtain c1 l1 ev1 where c1: "chat_connect e ip (c, l) = ((c1, l1), ev1)" by (metis prod.exhaust)
  show ?thesis
    using assms True chat_connect_local(4) [OF c1] chat_connect_frame(3) [OF c1, of m]
    by (cases "l1 = None") (auto simp: sendMessage_accepted [OF _ _ c1])
qed (use assms in \<open>auto simp: sendMessage_def split: if_splits\<close>)

lemma sendReadReceipt_received:
  "sendReadReceipt qt e i ip (c, l) = ((c', l'), ok, ev) \<Longrightarrow>
     ct_receivedCache c' = ct_receivedCache c \<and> MessageReceived m \<notin> set ev"
  by (auto simp: sendReadReceipt_def Let_def chat_send_eq split: prod.splits if_splits
      dest: chat_connect_received chat_connect_frame(3) [of e ip c l _ _ _ m])

lemma sendTyping_received:
  "sendTypingNotification qt e r b ip (c, l) = ((c', l'), ev) \<Longrightarrow>
     ct_receivedCache c' = ct_receivedCache c \<and> MessageReceived m \<notin> set ev"
  by (auto simp: sendTypingNotification_def Let_def chat_send_eq split: prod.splits if_splits
      dest: chat_connect_received chat_connect_frame(3) [of e ip _ l _ _ _ m])

lemma localTyping_received:
  "localTypingTimeout qt e (c, l) = ((c', l'), ev) \<Longrightarrow>
     ct_receivedCache c' = ct_receivedCache c \<and> MessageReceived m \<notin> set ev"
  by (auto simp: localTypingTimeout_def Let_def split: if_splits dest: sendTyping_received)

lemma clearPeerTyping_received:
  "clearPeerTyping p c = (c', ev) \<Longrightarrow> ct_receivedCache c' = ct_receivedCache c \<and> MessageReceived m \<notin> set ev"
  by (auto simp: clearPeerTyping_def split: if_splits)

lemma chat_step_received:
  assumes "chat_step qt e i (c, l) = ((c', l'), ev)"
    and "\<And>f. i = FrameArrived f \<Longrightarrow> frame_ty f \<noteq> FtChatMessage"
  shows "ct_receivedCache c' = ct_receivedCache c \<and> MessageReceived m \<notin> set ev"
proof (cases i)
  case (AckTimer j)
  then show ?thesis using assms(1) by (auto simp: ackTimeout_def split: prod.splits option.splits if_splits)
next
  case (FrameArrived f)
  then show ?thesis using assms
    by (auto simp: chat_onFrameReceivedFrom_def handleInboundMessageAck_def handleInboundTypingIndicator_def Let_def
        split: prod.splits option.splits if_splits dest: clearPeerTyping_received)
next
  case PeerLeft
  then show ?thesis using assms(1) by (auto simp: chat_onPeerDisconnected_def chat_onSocketDisconnected_def)
qed (use assms(1) in \<open>auto simp: peerTypingTimeout_def setAckTimeoutMs_def split: prod.splits
    dest: sendMessage_received sendReadReceipt_received sendTyping_received localTyping_received clearPeerTyping_received\<close>)

lemma chat_step_remembers:
  assumes "chat_inv c" and "chat_step qt e i (c, l) = ((c', l'), ev)"
    and "qm_value (ct_receivedCache c) j = Some t" and "ce_now e - t \<le> 300"
  shows "qm_value (ct_receivedCache c') j = Some t \<and> (MessageReceived m \<in> set ev \<longrightarrow> cm_messageId m \<noteq> j)"
proof (cases "\<exists>f obj m. i = FrameArrived f \<and> frame_ty f = FtChatMessage \<and> json_read qt (payload f) = Some obj
    \<and> ChatMessage_fromJson qt obj = Some m")
  case True
  then obtain f obj m' where f: "i = FrameArrived f" "frame_ty f = FtChatMessage"
    "json_read qt (payload f) = Some obj" "ChatMessage_fromJson qt obj = Some m'" by blast
  have ok: "qm_ok (ct_receivedCache c)" using assms(1) by (simp add: chat_inv_def)
  have h: "handleInboundChatMessage qt e (payload f) (c, l) = ((c', l'), ev)"
    using assms(2) f by (simp add: chat_onFrameReceivedFrom_def)
  have rem: "remembered c (ce_now e) j"
    using assms(3,4) by (simp add: remembered_def DUPLICATE_CACHE_WINDOW_SECS_def)
  have "qm_value (ct_receivedCache (cleanExpiredDuplicateCache (ce_now e) c)) j = Some t"
    using assms(3,4) ok by (simp add: cleanExpiredDuplicateCache_def qm_value_retain DUPLICATE_CACHE_WINDOW_SECS_def)
  moreover have "cm_messageId m' \<noteq> j" if "\<not> remembered c (ce_now e) (cm_messageId m')"
    using that rem by auto
  ultimately have "qm_value (ct_receivedCache c') j = Some t"
    using h f ok
    by (auto simp: handleInboundChatMessage_def Let_def remembered_clean chat_send_eq split: if_splits prod.splits
        dest!: clearPeerTyping_received)
  moreover have "cm_messageId m \<noteq> j" if "MessageReceived m \<in> set ev"
    using that inbound_message(1) [OF f(3,4) ok h] rem by auto
  ultimately show ?thesis by blast
next
  case False
  show ?thesis
  proof (cases "\<exists>f. i = FrameArrived f \<and> frame_ty f = FtChatMessage")
    case True
    with False assms(2,3) show ?thesis
      by (auto simp: chat_onFrameReceivedFrom_def handleInboundChatMessage_def split: option.splits)
  next
    case other: False
    then show ?thesis using chat_step_received [OF assms(2), of m] assms(3) by auto
  qed
qed

lemma chat_run_remembers:
  "chat_run qt steps c = (c', ev) \<Longrightarrow> chat_inv c \<Longrightarrow> qm_value (ct_receivedCache c) j = Some t \<Longrightarrow>
     list_all (\<lambda>(e, l, i). ce_now e - t \<le> 300) steps \<Longrightarrow> MessageReceived m \<in> set ev \<Longrightarrow> cm_messageId m \<noteq> j"
proof (induction steps arbitrary: c ev)
  case (Cons s steps)
  obtain e l i where s: "s = (e, l, i)" by (metis prod.exhaust)
  obtain c1 l1 ev1 where c1: "chat_step qt e i (c, l) = ((c1, l1), ev1)" by (metis prod.exhaust)
  obtain ev2 where r: "chat_run qt steps c1 = (c', ev2)" "ev = ev1 @ ev2"
    using Cons.prems(1) s c1 by (auto split: prod.splits)
  have st: "qm_value (ct_receivedCache c1) j = Some t" "MessageReceived m \<in> set ev1 \<longrightarrow> cm_messageId m \<noteq> j"
    using chat_step_remembers [OF Cons.prems(2) c1 Cons.prems(3), of m] Cons.prems(4) s by auto
  show ?case
    using Cons.IH [OF r(1) inv_chat_step [OF Cons.prems(2) c1] st(1)] Cons.prems(4,5) st(2) r(2) by auto
qed simp

text \<open>
  C7: After a message has been delivered to the user, no message with its id is delivered
  again by any run of the controller within 300 seconds.
\<close>

theorem no_duplicate_delivery:
  assumes "chat_reach qt c"
    and "handleInboundChatMessage qt e body (c, l) = ((c1, l1), ev1)" and "MessageReceived m \<in> set ev1"
    and "chat_run qt steps c1 = (c2, ev2)" and "list_all (\<lambda>(e', l', i). ce_now e' - ce_now e \<le> 300) steps"
  shows "\<forall>m'. MessageReceived m' \<in> set ev2 \<longrightarrow> cm_messageId m' \<noteq> cm_messageId m"
proof -
  have inv: "chat_inv c" using assms(1) by (rule chat_reach_inv)
  then have ok: "qm_ok (ct_receivedCache c)" by (simp add: chat_inv_def)
  obtain obj m0 where o: "json_read qt body = Some obj" "ChatMessage_fromJson qt obj = Some m0"
    using assms(2,3) by (auto simp: handleInboundChatMessage_def split: option.splits)
  note inb = inbound_message [OF o ok assms(2)]
  have m0: "m0 = m" "\<not> remembered c (ce_now e) (cm_messageId m)" using inb(1) [of m] assms(3) by auto
  then have "qm_value (ct_receivedCache c1) (cm_messageId m) = Some (ce_now e)"
    using assms(2) o ok
    by (auto simp: handleInboundChatMessage_def Let_def remembered_clean chat_send_eq split: prod.splits
        dest!: clearPeerTyping_received)
  then show ?thesis
    using chat_run_remembers [OF assms(4) inv_handleInboundChatMessage [OF inv assms(2)] _ assms(5)] by auto
qed


text \<open>One message, on the wire of \<open>qt0\<close>.\<close>

definition hello :: chat_message where
  "hello = new_message quiet_env (qs ''msg_u1'') (qs ''dev-b'') (qs ''hi'')"

definition hello_body :: bytes where
  "hello_body = json_write qt0 (ChatMessage_toJson 1000 hello)"

lemma message_read:
  assumes "json_roundtrip qt" and "q_utf16 i" "q_utf16 (ce_deviceId e)" "q_utf16 r" "q_utf16 content"
    and "i \<noteq> []" "ce_deviceId e \<noteq> []" "r \<noteq> []"
    and "length (to_utf8 qt content) \<le> MAX_CHAT_MESSAGE_CONTENT_SIZE" and "0 < ce_now e" and "ce_now e < 2 ^ 63"
  shows "\<exists>obj. json_read qt (json_write qt (ChatMessage_toJson (ce_now e) (new_message e i r content))) = Some obj
    \<and> ChatMessage_fromJson qt obj = Some (new_message e i r content)"
proof -
  have "json_wf (ChatMessage_toJson (ce_now e) (new_message e i r content))"
    using assms by (intro wf_intros) (simp_all add: new_message_def)
  then have "json_read qt (json_write qt (ChatMessage_toJson (ce_now e) (new_message e i r content)))
      = Some (ChatMessage_toJson (ce_now e) (new_message e i r content))"
    using assms(1) by (simp add: json_roundtripD)
  then show ?thesis using assms by (simp add: ChatMessage_json new_message_def)
qed

lemma short_hi: "length (to_utf8 qt0 (qs ''hi'')) \<le> MAX_CHAT_MESSAGE_CONTENT_SIZE"
proof -
  have "to_utf8 qt0 (qs ''hi'') = map ucast (qs ''hi'')"
    using utf8_ascii_qt0 by (simp add: utf8_ascii_def q_ascii_qs)
  then show ?thesis by (simp add: qs_def MAX_CHAT_MESSAGE_CONTENT_SIZE_def)
qed

lemma hello_read: "\<exists>obj. json_read qt0 hello_body = Some obj \<and> ChatMessage_fromJson qt0 obj = Some hello"
  unfolding hello_body_def hello_def
  using message_read [OF json_roundtrip_qt0, of "qs ''msg_u1''" quiet_env "qs ''dev-b''" "qs ''hi''"] short_hi
  by (simp add: quiet_env_def q_ascii_utf16 q_ascii_qs)

theorem every_message_acknowledged_witness:
  "\<exists>ok. FrameSent (delivery_ack qt0 quiet_env (qs ''msg_u1'')) ok
      \<in> set (snd (handleInboundChatMessage qt0 quiet_env hello_body (chat_init, Some p2p_init)))"
proof -
  obtain obj where obj: "json_read qt0 hello_body = Some obj" "ChatMessage_fromJson qt0 obj = Some hello"
    using hello_read by blast
  obtain c' l' ev where h: "handleInboundChatMessage qt0 quiet_env hello_body (chat_init, Some p2p_init) = ((c', l'), ev)"
    by (metis prod.exhaust)
  show ?thesis
    using every_message_acknowledged [OF chat_reach.init obj h] h by (auto simp: hello_def new_message_def)
qed

theorem no_duplicate_delivery_witness:
  "MessageReceived hello \<in> set (snd (handleInboundChatMessage qt0 quiet_env hello_body (chat_init, None)))
   \<and> MessageReceived hello \<notin> set (snd (chat_run qt0
        [(quiet_env\<lparr>ce_now := 1300\<rparr>, None, FrameArrived \<lparr>frame_ty = FtChatMessage, payload = hello_body\<rparr>)]
        (fst (fst (handleInboundChatMessage qt0 quiet_env hello_body (chat_init, None))))))"
proof -
  obtain obj where obj: "json_read qt0 hello_body = Some obj" "ChatMessage_fromJson qt0 obj = Some hello"
    using hello_read by blast
  obtain c1 l1 ev where h: "handleInboundChatMessage qt0 quiet_env hello_body (chat_init, None) = ((c1, l1), ev)"
    by (metis prod.exhaust)
  have new: "MessageReceived hello \<in> set ev"
    using inbound_message(1) [OF obj _ h, of hello] by (simp add: chat_init_def remembered_def)
  obtain c2 ev2 where r: "chat_run qt0 [(quiet_env\<lparr>ce_now := 1300\<rparr>, None,
      FrameArrived \<lparr>frame_ty = FtChatMessage, payload = hello_body\<rparr>)] c1 = (c2, ev2)"
    by (metis prod.exhaust)
  have "MessageReceived hello \<notin> set ev2"
    using no_duplicate_delivery [OF chat_reach.init h new r] by (auto simp: quiet_env_def)
  then show ?thesis using new h r by simp
qed

text \<open>
  C6: A chat message whose frame reaches the peer, and whose delivery receipt comes back, is
  delivered with exactly the content sent and ends in state Delivered with its timer
  stopped.
\<close>

theorem chat_end_to_end:
  assumes "json_roundtrip qt" and "q_utf16 uuid" "q_utf16 (ce_deviceId e)" "q_utf16 r" "q_utf16 content"
    and "ce_deviceId e \<noteq> []" "r \<noteq> []" "length (to_utf8 qt content) \<le> MAX_CHAT_MESSAGE_CONTENT_SIZE"
    and "0 < ce_now e" "ce_now e < 2 ^ 63" "0 < ce_now e2" "ce_now e2 < 2 ^ 63"
    and "sendMessage qt e uuid r content ip (a, la) = ((a1, la1), i, ev1)" and "FrameSent f ok \<in> set ev1"
    and "chat_reach qt b" and "qm_value (ct_receivedCache b) i = None"
    and "chat_onFrameReceivedFrom qt e2 f (b, lb) = ((b1, lb1), ev2)" and "FrameSent g ok2 \<in> set ev2"
    and "chat_onFrameReceivedFrom qt e3 g (a1, la2) = ((a2, la3), ev3)"
  shows "MessageReceived \<lparr>cm_messageId = i, cm_senderDeviceId = ce_deviceId e, cm_recipientDeviceId = r,
      cm_content = content, cm_timestamp = ce_now e, cm_replyToMessageId = None\<rparr> \<in> set ev2
    \<and> (\<exists>t. getTrackedMessage a2 i = Some t \<and> tm_state t = Delivered \<and> cm_content (tm_message t) = content)
    \<and> \<not> qm_contains (ct_ackTimers a2) i \<and> MessageStatusChanged i Delivered \<in> set ev3"
proof -
  have i: "i = generateMessageId uuid" "q_utf16 i" "i \<noteq> []"
  proof -
    show "i = generateMessageId uuid"
      using assms(13) assms(7,8) by (auto simp: sendMessage_def Let_def split: prod.splits)
    then show "q_utf16 i" "i \<noteq> []"
      using assms(2) by (simp_all add: generateMessageId_def q_utf16_append_ascii q_ascii_qs)
  qed
  let ?m = "new_message e i r content"
  obtain a0 l0 ev0 where c: "chat_connect e ip (a, la) = ((a0, l0), ev0)" by (metis prod.exhaust)
  have f: "f = json_frame qt FtChatMessage (ChatMessage_toJson (ce_now e) ?m)"
    and tr: "\<exists>t. getTrackedMessage a1 i = Some t \<and> tm_message t = ?m"
    using sendMessage_accepted [OF assms(8,7) c, of uuid] assms(13,14) i(1) chat_connect_frame(4) [OF c]
    by (auto simp: getTrackedMessage_def split: if_splits)
  obtain obj where obj: "json_read qt (payload f) = Some obj" "ChatMessage_fromJson qt obj = Some ?m"
    using message_read [OF assms(1) i(2) assms(3-5) i(3) assms(6-10)] f by auto
  have okb: "qm_ok (ct_receivedCache b)" using chat_reach_inv [OF assms(15)] by (simp add: chat_inv_def)
  have h: "handleInboundChatMessage qt e2 (payload f) (b, lb) = ((b1, lb1), ev2)"
    using assms(17) f by (simp add: chat_onFrameReceivedFrom_def)
  note inb = inbound_message [OF obj okb h]
  have rcv: "MessageReceived ?m \<in> set ev2"
    using inb(1) assms(16) by (simp add: remembered_def new_message_def)
  have g: "g = delivery_ack qt e2 i" using inb(2) assms(18) by (simp add: new_message_def)
  obtain obj2 where obj2: "json_read qt (payload g) = Some obj2"
    "MessageAck_fromJson obj2 = Some \<lparr>ma_messageId = i, ma_status = qs ''delivered'', ma_timestamp = ce_now e2\<rparr>"
    using delivery_ack_read [OF assms(1) i(2,3) assms(11,12)] g by blast
  have "handleInboundMessageAck qt (payload g) a1 = (a2, ev3)"
    using assms(19) g
    by (auto simp: chat_onFrameReceivedFrom_def delivery_ack_def frame_type_defs split: prod.splits)
  then show ?thesis
    using obj2 tr rcv
    by (auto simp: handleInboundMessageAck_def getTrackedMessage_def qm_contains_def new_message_def Let_def)
qed


definition hello_sent :: "chat_link \<times> qstring \<times> chat_event list" where
  "hello_sent = sendMessage qt0 quiet_env (qs ''u1'') (qs ''dev-b'') (qs ''hi'') [] (chat_init, Some p2p_init)"

theorem chat_end_to_end_witness:
  "\<exists>f ok g ok2 t. FrameSent f ok \<in> set (snd (snd hello_sent))
     \<and> FrameSent g ok2 \<in> set (snd (chat_onFrameReceivedFrom qt0 quiet_env f (chat_init, Some p2p_init)))
     \<and> getTrackedMessage (fst (fst (chat_onFrameReceivedFrom qt0 quiet_env g (fst hello_sent)))) (qs ''msg_u1'') = Some t
     \<and> tm_state t = Delivered"
proof -
  obtain a1 la1 i ev1 where s: "hello_sent = ((a1, la1), i, ev1)" by (metis prod.exhaust)
  have c: "chat_connect quiet_env [] (chat_init, Some p2p_init) = ((chat_init, Some p2p_init), [])"
    by (simp add: chat_connect_def link_connect_def)
  have sent: "\<exists>f ok. FrameSent f ok \<in> set ev1 \<and> i = qs ''msg_u1''
      \<and> f = json_frame qt0 FtChatMessage (ChatMessage_toJson (ce_now quiet_env) hello)"
    using sendMessage_accepted [OF short_hi _ c, of "qs ''dev-b''" "qs ''u1''"] s
    by (auto simp: hello_sent_def generateMessageId_def hello_def qs_def)
  then obtain f ok where f: "FrameSent f ok \<in> set ev1" "i = qs ''msg_u1''"
    "f = json_frame qt0 FtChatMessage (ChatMessage_toJson (ce_now quiet_env) hello)" by blast
  obtain b1 lb1 ev2 where r: "chat_onFrameReceivedFrom qt0 quiet_env f (chat_init, Some p2p_init) = ((b1, lb1), ev2)"
    by (metis prod.exhaust)
  obtain obj where obj: "json_read qt0 hello_body = Some obj" "ChatMessage_fromJson qt0 obj = Some hello"
    using hello_read by blast
  have "handleInboundChatMessage qt0 quiet_env hello_body (chat_init, Some p2p_init) = ((b1, lb1), ev2)"
    using r f(3) by (simp add: chat_onFrameReceivedFrom_def hello_body_def quiet_env_def)
  then obtain g ok2 where g: "FrameSent g ok2 \<in> set ev2"
    using inbound_message(5) [OF obj] by (force simp: chat_init_def)
  obtain a2 la2 ev3 where k: "chat_onFrameReceivedFrom qt0 quiet_env g (a1, la1) = ((a2, la2), ev3)"
    by (metis prod.exhaust)
  obtain t where t: "getTrackedMessage a2 i = Some t" "tm_state t = Delivered"
    using chat_end_to_end [OF json_roundtrip_qt0 _ _ _ _ _ _ short_hi _ _ _ _ s [unfolded hello_sent_def] f(1)
        chat_reach.init _ r g k]
    by (auto simp: quiet_env_def q_ascii_utf16 q_ascii_qs chat_init_def)
  have "FrameSent f ok \<in> set (snd (snd hello_sent))
     \<and> FrameSent g ok2 \<in> set (snd (chat_onFrameReceivedFrom qt0 quiet_env f (chat_init, Some p2p_init)))
     \<and> getTrackedMessage (fst (fst (chat_onFrameReceivedFrom qt0 quiet_env g (fst hello_sent)))) (qs ''msg_u1'') = Some t
     \<and> tm_state t = Delivered"
    using f(1,2) g t by (simp add: s r k)
  then show ?thesis by blast
qed

text \<open>A typing signal is emitted exactly when a peer's typing state changes.\<close>

lemma typing_delta_none:
  "\<lbrakk>\<And>p b. PeerTypingChanged p b \<notin> set ev; ct_peerTyping c' = ct_peerTyping c\<rbrakk> \<Longrightarrow> typing_delta c c' ev"
  by (auto simp: typing_delta_def isPeerTyping_def)

lemma sent_no_typing [simp]:
  "PeerTypingChanged p b \<notin> set (if l = None then [] else FrameSent f ok # map SocketEvent ev)"
  by auto

lemma typing_delta_after:
  "\<lbrakk>typing_delta c c1 ev; \<And>p b. PeerTypingChanged p b \<notin> set ev'; ct_peerTyping c' = ct_peerTyping c1\<rbrakk>
     \<Longrightarrow> typing_delta c c' (ev @ ev')"
  by (simp add: typing_delta_def isPeerTyping_def)

lemma typing_delta_before:
  "typing_delta (c\<lparr>ct_outgoing := x, ct_ackTimers := y, ct_receivedCache := z, ct_typingStop := u,
     ct_lastTypingRecipient := v, ct_localIsTyping := w, ct_ackTimeoutMs := n\<rparr>) c' ev = typing_delta c c' ev"
  by (simp add: typing_delta_def isPeerTyping_def)

lemma typing_delta_cong: "ct_peerTyping c = ct_peerTyping d \<Longrightarrow> typing_delta c c' ev = typing_delta d c' ev"
  by (simp add: typing_delta_def isPeerTyping_def)

lemma delta_sendMessage:
  assumes "sendMessage qt e uuid r content ip (c, l) = ((c', l'), i, ev)"
  shows "typing_delta c c' ev"
proof (cases "length (to_utf8 qt content) \<le> MAX_CHAT_MESSAGE_CONTENT_SIZE \<and> r \<noteq> []")
  case True
  obtain c1 l1 ev1 where c1: "chat_connect e ip (c, l) = ((c1, l1), ev1)" by (metis prod.exhaust)
  show ?thesis
    using assms True
    by (auto simp: sendMessage_accepted [OF _ _ c1] simp del: if_split intro!: typing_delta_after [OF chat_connect_frame(2) [OF c1]])
qed (use assms in \<open>auto simp: sendMessage_def intro: typing_delta_none split: if_splits\<close>)

lemma delta_sendReadReceipt:
  assumes "sendReadReceipt qt e i ip (c, l) = ((c', l'), ok, ev)"
  shows "typing_delta c c' ev"
proof (cases "i = []")
  case False
  obtain c1 l1 ev1 where c1: "chat_connect e ip (c, l) = ((c1, l1), ev1)" by (metis prod.exhaust)
  show ?thesis
    using assms False c1
    by (auto simp: sendReadReceipt_def Let_def chat_send_eq intro!: typing_delta_after [OF chat_connect_frame(2) [OF c1]])
qed (use assms in \<open>auto simp: sendReadReceipt_def intro: typing_delta_none\<close>)

lemma delta_sendTyping:
  assumes "sendTypingNotification qt e r b ip (c, l) = ((c', l'), ev)"
  shows "typing_delta c c' ev"
proof (cases "r \<noteq> [] \<and> b \<and> \<not> ct_localIsTyping c")
  case True
  let ?c0 = "c\<lparr>ct_lastTypingRecipient := r, ct_localIsTyping := True\<rparr>"
  obtain c1 l1 ev1 where c1: "chat_connect e ip (?c0, l) = ((c1, l1), ev1)" by (metis prod.exhaust)
  have "typing_delta ?c0 c' ev"
    using assms True c1
    by (auto simp: sendTypingNotification_def Let_def chat_send_eq intro!: typing_delta_after [OF chat_connect_frame(2) [OF c1]])
  then show ?thesis by (simp add: typing_delta_cong [of ?c0 c])
next
  case False
  then show ?thesis
    using assms by (auto simp: sendTypingNotification_def Let_def chat_send_eq intro!: typing_delta_none split: if_splits)
qed

lemma delta_localTyping: "localTypingTimeout qt e (c, l) = ((c', l'), ev) \<Longrightarrow> typing_delta c c' ev"
  using delta_sendTyping [of qt e _ False "[]" "c\<lparr>ct_typingStop := None\<rparr>" l c' l' ev]
  by (auto simp: localTypingTimeout_def Let_def typing_delta_cong [of "c\<lparr>ct_typingStop := None\<rparr>" c]
      intro: typing_delta_none split: if_splits)

lemma delta_chatMessage:
  assumes "handleInboundChatMessage qt e body (c, l) = ((c', l'), ev)"
  shows "typing_delta c c' ev"
proof (cases "\<exists>obj m. json_read qt body = Some obj \<and> ChatMessage_fromJson qt obj = Some m")
  case True
  then obtain obj m where m: "json_read qt body = Some obj" "ChatMessage_fromJson qt obj = Some m" by blast
  let ?c1 = "cleanExpiredDuplicateCache (ce_now e) c"
  let ?c0 = "?c1\<lparr>ct_receivedCache := qm_insert (cm_messageId m) (ce_now e) (ct_receivedCache ?c1)\<rparr>"
  obtain c2 ev2 where c2: "clearPeerTyping (cm_senderDeviceId m) ?c0 = (c2, ev2)" by fastforce
  have "typing_delta ?c0 c2 ev2" by (rule clearPeerTyping_frame(2) [OF c2])
  then have d: "typing_delta c c2 ev2" by (simp add: typing_delta_def isPeerTyping_def cleanExpiredDuplicateCache_def)
  show ?thesis
    using assms m c2
    by (auto simp: handleInboundChatMessage_def Let_def chat_send_eq cleanExpiredDuplicateCache_def
        intro!: typing_delta_none typing_delta_after [OF d] split: if_splits)
qed (use assms in \<open>auto simp: handleInboundChatMessage_def intro!: typing_delta_none split: option.splits\<close>)

lemma delta_messageAck: "handleInboundMessageAck qt body c = (c', ev) \<Longrightarrow> typing_delta c c' ev"
  by (auto simp: handleInboundMessageAck_def Let_def intro!: typing_delta_none split: option.splits)

lemma delta_typingIndicator: "handleInboundTypingIndicator qt body c = (c', ev) \<Longrightarrow> typing_delta c c' ev"
  by (auto simp: handleInboundTypingIndicator_def Let_def typing_delta_def isPeerTyping_def qm_contains_def
      clearPeerTyping_def split: option.splits if_splits)

text \<open>
  Every step of the chat controller signals a peer typing change exactly when that peer
  starts or stops being listed as typing.
\<close>

theorem typing_signals_exact:
  assumes "chat_step qt e i (c, l) = ((c', l'), ev)"
  shows "PeerTypingChanged p b \<in> set ev \<longleftrightarrow> isPeerTyping c' p = b \<and> isPeerTyping c p = (\<not> b)"
proof -
  have "typing_delta c c' ev"
  proof (cases i)
    case (AckTimer j)
    then show ?thesis using assms
      by (auto simp: ackTimeout_def intro!: typing_delta_none split: prod.splits option.splits if_splits)
  next
    case (FrameArrived f)
    have none: "typing_delta c c []" by (rule typing_delta_none) simp_all
    from FrameArrived show ?thesis using assms none
      by (auto simp: chat_onFrameReceivedFrom_def split: prod.splits if_splits
          dest: delta_chatMessage delta_messageAck delta_typingIndicator)
  next
    case PeerLeft
    then show ?thesis using assms
      by (auto simp: chat_onPeerDisconnected_def chat_onSocketDisconnected_def typing_delta_def isPeerTyping_def
          qm_contains_iff)
  qed (use assms in \<open>auto simp: peerTypingTimeout_def setAckTimeoutMs_def split: prod.splits
      intro: delta_sendMessage delta_sendReadReceipt delta_sendTyping delta_localTyping clearPeerTyping_frame(2)
        typing_delta_none\<close>)
  then show ?thesis by (simp add: typing_delta_def)
qed

theorem typing_signals_exact_witness:
  "PeerTypingChanged (qs ''dev-b'') False \<in> set (snd (chat_step qt0 quiet_env (PeerTypingTimer (qs ''dev-b''))
     (chat_init\<lparr>ct_peerTyping := [(qs ''dev-b'', 5000)]\<rparr>, None)))"
proof -
  obtain c' l' ev where s: "chat_step qt0 quiet_env (PeerTypingTimer (qs ''dev-b''))
      (chat_init\<lparr>ct_peerTyping := [(qs ''dev-b'', 5000)]\<rparr>, None) = ((c', l'), ev)" by (metis prod.exhaust)
  then have "\<not> isPeerTyping c' (qs ''dev-b'')"
    by (auto simp: peerTypingTimeout_def clearPeerTyping_def isPeerTyping_def qm_contains_def split: if_splits)
  then show ?thesis
    using typing_signals_exact [OF s, of "qs ''dev-b''" False] s
    by (simp add: isPeerTyping_def qm_contains_def qm_value_def)
qed


end
