(* ===== verification/FileTransfer.thy ===== *)
theory FileTransfer
  imports Link
begin

text \<open>
  \<open>FileTransferController\<close> of src/protocol/file_transfer_controller.cpp. The file system
  is a map from paths to contents; what the operating system answers in a call (does an
  open, a read, a rename succeed, how much does a read or a write take) is the record \<open>os\<close>. A
  \<open>QCryptographicHash\<close> is the data added so far, its result the parameter \<open>fl_sha256\<close> of
  it. \<open>QTimer::singleShot(0, ...)\<close> appends to the list \<open>ft_pending\<close> of chunk transmissions
  the event loop owes. Sessions are shared objects that only the controller's map holds.
\<close>

section \<open>State\<close>

type_synonym fs = "qstring \<rightharpoonup> bytes"

record file_lib =
  fl_sha256 :: "bytes \<Rightarrow> qstring"               \<comment> \<open>SHA-256 in hexadecimal\<close>
  fl_eq_ci :: "qstring \<Rightarrow> qstring \<Rightarrow> bool"         \<comment> \<open>\<open>compare(_, Qt::CaseInsensitive) == 0\<close>\<close>
  fl_filePath :: "qstring \<Rightarrow> qstring \<Rightarrow> qstring"   \<comment> \<open>\<open>QDir(dir).filePath(name)\<close>\<close>
  fl_downloads :: qstring                       \<comment> \<open>the download location, or the current path\<close>

record os =
  os_open :: bool
  os_read :: bool
  os_reads :: "bytes \<Rightarrow> nat"
  os_write :: "bytes \<Rightarrow> nat"
  os_rename :: bool

datatype transfer_state = Idle | Offering | Accepted | Rejected | Transferring | Verifying | Completed | TFailed | Cancelled

datatype transfer_direction = Outgoing | Incoming

datatype file_handle = ReadHandle nat | WriteHandle

record session =
  ts_transferId :: qstring
  ts_fileName :: qstring
  ts_fileSize :: int
  ts_expectedSha256 :: qstring
  ts_chunkSize :: int
  ts_totalChunks :: int
  ts_direction :: transfer_direction
  ts_state :: transfer_state
  ts_transferredBytes :: int
  ts_currentChunkIndex :: u32
  ts_sourceFilePath :: qstring
  ts_tempFilePath :: qstring
  ts_finalFilePath :: qstring
  ts_handle :: "file_handle option"
  ts_hashed :: bytes

record ft =
  ft_sessions :: "(qstring, session) qmap"
  ft_pending :: "qstring list"
  ft_fs :: fs

datatype ft_event =
    FileOfferReceived file_offer
  | TransferStarted qstring qstring int transfer_direction
  | TransferProgress qstring int int
  | TransferCompleted qstring qstring
  | TransferFailed qstring
  | TransferRejected qstring qstring
  | TransferCancelled qstring qstring
  | FtFrameSent p2p_frame bool
  | FtSocketEvent p2p_event

type_synonym ft_link = "ft \<times> link"

definition fs_remove :: "qstring \<Rightarrow> fs \<Rightarrow> fs" where
  "fs_remove path fs = fs(path := None)"

definition fs_content :: "fs \<Rightarrow> qstring \<Rightarrow> bytes" where
  "fs_content fs path = (case fs path of Some b \<Rightarrow> b | None \<Rightarrow> [])"

text \<open>\<open>QFile::rename\<close> refuses to overwrite.\<close>

definition fs_rename :: "bool \<Rightarrow> qstring \<Rightarrow> qstring \<Rightarrow> fs \<Rightarrow> fs \<times> bool" where
  "fs_rename ok old new fs =
    (case fs old of
       Some b \<Rightarrow> if ok \<and> fs new = None then (fs(old := None, new := Some b), True) else (fs, False)
     | None \<Rightarrow> (fs, False))"

definition ft_put :: "qstring \<Rightarrow> session \<Rightarrow> ft \<Rightarrow> ft" where
  "ft_put tid s st = st\<lparr>ft_sessions := qm_insert tid s (ft_sessions st)\<rparr>"

definition getTransferState :: "ft \<Rightarrow> qstring \<Rightarrow> transfer_state option" where
  "getTransferState st tid = map_option ts_state (qm_value (ft_sessions st) tid)"

definition getTransferredBytes :: "ft \<Rightarrow> qstring \<Rightarrow> int" where
  "getTransferredBytes st tid = (case qm_value (ft_sessions st) tid of Some s \<Rightarrow> ts_transferredBytes s | None \<Rightarrow> 0)"

definition getTotalBytes :: "ft \<Rightarrow> qstring \<Rightarrow> int" where
  "getTotalBytes st tid = (case qm_value (ft_sessions st) tid of Some s \<Rightarrow> ts_fileSize s | None \<Rightarrow> 0)"

section \<open>Sessions and the socket\<close>

definition cleanupSession :: "qstring \<Rightarrow> bool \<Rightarrow> ft \<Rightarrow> ft" where
  "cleanupSession tid removeTempFile st =
    (case qm_value (ft_sessions st) tid of
       None \<Rightarrow> st
     | Some s \<Rightarrow>
        let st1 = ft_put tid (s\<lparr>ts_handle := None\<rparr>) st in
        if removeTempFile \<and> ts_tempFilePath s \<noteq> [] \<and> ft_fs st1 (ts_tempFilePath s) \<noteq> None
        then st1\<lparr>ft_fs := fs_remove (ts_tempFilePath s) (ft_fs st1)\<rparr> else st1)"

definition fail_session :: "qstring \<Rightarrow> ft \<Rightarrow> ft \<times> ft_event list" where
  "fail_session tid st =
    (case qm_value (ft_sessions st) tid of
       Some s \<Rightarrow>
         if ts_state s = Offering \<or> ts_state s = Transferring
         then (cleanupSession tid True (ft_put tid (s\<lparr>ts_state := TFailed\<rparr>) st), [TransferFailed tid])
         else (st, [])
     | None \<Rightarrow> (st, []))"

fun fail_sessions :: "qstring list \<Rightarrow> ft \<Rightarrow> ft \<times> ft_event list" where
  "fail_sessions [] st = (st, [])"
| "fail_sessions (tid # tids) st =
     (case fail_session tid st of (st1, ev1) \<Rightarrow> case fail_sessions tids st1 of (st2, ev2) \<Rightarrow> (st2, ev1 @ ev2))"

definition ft_onSocketDisconnected :: "ft \<Rightarrow> ft \<times> ft_event list" where
  "ft_onSocketDisconnected st = fail_sessions (qm_keys (ft_sessions st)) st"

definition ft_connect :: "call_env \<Rightarrow> qstring \<Rightarrow> ft_link \<Rightarrow> ft_link \<times> ft_event list" where
  "ft_connect e ip = (\<lambda>(st, l).
    (case link_connect e ip l of (l', ev) \<Rightarrow>
      if DisconnectedSignal \<in> set ev
      then (case ft_onSocketDisconnected st of (st', ev') \<Rightarrow> ((st', l'), map FtSocketEvent ev @ ev'))
      else ((st, l'), map FtSocketEvent ev)))"

definition ft_send :: "call_env \<Rightarrow> p2p_frame \<Rightarrow> ft_link \<Rightarrow> ft_link \<times> ft_event list" where
  "ft_send e f = (\<lambda>(st, l).
    (case l of None \<Rightarrow> ((st, None), [])
     | Some p \<Rightarrow> (case link_send e f l of (l', ok, ev) \<Rightarrow> ((st, l'), FtFrameSent f ok # map FtSocketEvent ev))))"

section \<open>Sending\<close>

text \<open>The loop of \<open>calculateFileSha256\<close>: the file in blocks of 64 KiB.\<close>

function hash_blocks :: "bytes \<Rightarrow> bytes \<Rightarrow> bytes" where
  "hash_blocks acc rest = (if rest = [] then acc else hash_blocks (acc @ take 65536 rest) (drop 65536 rest))"
  by pat_completeness auto
termination
  by (relation "measure (\<lambda>(_, rest). length rest)") auto

declare hash_blocks.simps [simp del]

definition calculateFileSha256 :: "file_lib \<Rightarrow> os \<Rightarrow> fs \<Rightarrow> qstring \<Rightarrow> qstring" where
  "calculateFileSha256 fl os fs path =
    (case fs path of
       None \<Rightarrow> []
     | Some content \<Rightarrow>
        if \<not> os_open os then []
        else if \<not> os_read os \<and> content \<noteq> [] then []
        else fl_sha256 fl (hash_blocks [] content))"

definition sendFile :: "qt_lib \<Rightarrow> file_lib \<Rightarrow> os \<Rightarrow> call_env \<Rightarrow> qstring \<Rightarrow> qstring \<Rightarrow> qstring \<Rightarrow> ft_link
    \<Rightarrow> ft_link \<times> qstring \<times> ft_event list" where
  "sendFile qt fl os e uuid filePath peerVirtualIp = (\<lambda>(st, l).
    (case ft_fs st filePath of
       None \<Rightarrow> ((st, l), [], [])
     | Some content \<Rightarrow>
       (let size = int (length content); sha256 = calculateFileSha256 fl os (ft_fs st) filePath in
        if sha256 = [] then ((st, l), [], [])
        else
         let tid = generateTransferId uuid;
             s = \<lparr>ts_transferId = tid, ts_fileName = sanitizeFileName qt (path_fileName qt filePath),
                  ts_fileSize = size, ts_expectedSha256 = sha256, ts_chunkSize = DEFAULT_FILE_CHUNK_SIZE,
                  ts_totalChunks = (if size = 0 then 0
                    else sint (word_of_int ((size + DEFAULT_FILE_CHUNK_SIZE - 1) div DEFAULT_FILE_CHUNK_SIZE) :: u32)),
                  ts_direction = Outgoing, ts_state = Offering, ts_transferredBytes = 0, ts_currentChunkIndex = 0,
                  ts_sourceFilePath = filePath, ts_tempFilePath = [], ts_finalFilePath = [], ts_handle = None,
                  ts_hashed = []\<rparr>;
             offer = \<lparr>fo_transferId = tid, fo_fileName = ts_fileName s, fo_fileSize = size, fo_sha256 = sha256,
                      fo_chunkSize = DEFAULT_FILE_CHUNK_SIZE, fo_totalChunks = ts_totalChunks s\<rparr> in
         case ft_connect e peerVirtualIp (ft_put tid s st, l) of (s1, ev1) \<Rightarrow>
         case ft_send e (json_frame qt FtFileOffer (FileOffer_toJson qt offer)) s1 of (s2, ev2) \<Rightarrow>
         (s2, tid, ev1 @ ev2 @ [TransferStarted tid (ts_fileName s) size Outgoing]))))"

definition sendNextChunk :: "qt_lib \<Rightarrow> os \<Rightarrow> call_env \<Rightarrow> qstring \<Rightarrow> ft_link \<Rightarrow> ft_link \<times> ft_event list" where
  "sendNextChunk qt os e tid = (\<lambda>(st, l).
    (case qm_value (ft_sessions st) tid of
       None \<Rightarrow> ((st, l), [])
     | Some s \<Rightarrow>
       (case ts_handle s of
          None \<Rightarrow> ((st, l), [])
        | Some h \<Rightarrow>
          if ts_state s \<noteq> Transferring then ((st, l), [])
          else
           let pos = (case h of ReadHandle n \<Rightarrow> n | WriteHandle \<Rightarrow> length (fs_content (ft_fs st) (ts_tempFilePath s)));
               content = (case h of ReadHandle _ \<Rightarrow> fs_content (ft_fs st) (ts_sourceFilePath s)
                          | WriteHandle \<Rightarrow> fs_content (ft_fs st) (ts_tempFilePath s)) in
           if pos \<ge> length content \<or> ts_transferredBytes s \<ge> ts_fileSize s then
             (case ft_send e (json_frame qt FtFileComplete (FileComplete_toJson
                \<lparr>fc_transferId = tid, fc_sha256 = ts_expectedSha256 s, fc_status = qs ''verified''\<rparr>))
                (ft_put tid (s\<lparr>ts_handle := None, ts_state := Verifying\<rparr>) st, l) of ((st1, l1), ev1) \<Rightarrow>
              ((ft_put tid (s\<lparr>ts_handle := None, ts_state := Completed\<rparr>) st1, l1),
               ev1 @ [TransferCompleted tid (ts_sourceFilePath s)]))
           else
             let chunkData = (if os_read os \<and> h \<noteq> WriteHandle
               then (let wanted = take (nat (ts_chunkSize s)) (drop pos content) in take (os_reads os wanted) wanted) else []) in
             if chunkData = [] \<and> ts_fileSize s > 0 then
               ((ft_put tid (s\<lparr>ts_state := TFailed\<rparr>) st, l), [TransferFailed tid])
             else
               (case ft_send e \<lparr>frame_ty = FtFileChunk,
                     payload = FileChunk_encode qt tid (ts_currentChunkIndex s) chunkData\<rparr> (st, l) of ((st1, l1), ev1) \<Rightarrow>
                let s1 = s\<lparr>ts_transferredBytes := ts_transferredBytes s + int (length chunkData),
                          ts_currentChunkIndex := ts_currentChunkIndex s + 1,
                          ts_handle := Some (ReadHandle (pos + length chunkData))\<rparr> in
                ((ft_put tid s1 st1\<lparr>ft_pending := ft_pending st1 @ [tid]\<rparr>, l1),
                 ev1 @ [TransferProgress tid (ts_transferredBytes s1) (ts_fileSize s)])))))"

text \<open>The event loop runs the first chunk transmission it owes.\<close>

definition run_pending :: "qt_lib \<Rightarrow> os \<Rightarrow> call_env \<Rightarrow> ft_link \<Rightarrow> ft_link \<times> ft_event list" where
  "run_pending qt os e = (\<lambda>(st, l).
    (case ft_pending st of
       [] \<Rightarrow> ((st, l), [])
     | tid # tids \<Rightarrow> sendNextChunk qt os e tid (st\<lparr>ft_pending := tids\<rparr>, l)))"

definition handleInboundFileAccept :: "qt_lib \<Rightarrow> os \<Rightarrow> call_env \<Rightarrow> bytes \<Rightarrow> ft_link \<Rightarrow> ft_link \<times> ft_event list" where
  "handleInboundFileAccept qt os e body = (\<lambda>(st, l).
    (case Option.bind (json_read qt body) FileAccept_fromJson of
       None \<Rightarrow> ((st, l), [])
     | Some acc \<Rightarrow>
       (let tid = fa_transferId acc in
        case qm_value (ft_sessions st) tid of
          None \<Rightarrow> ((st, l), [])
        | Some s \<Rightarrow>
          if ts_direction s \<noteq> Outgoing \<or> ts_state s \<noteq> Offering then ((st, l), [])
          else if \<not> os_open os \<or> ft_fs st (ts_sourceFilePath s) = None then
            ((ft_put tid (s\<lparr>ts_handle := None, ts_state := TFailed\<rparr>) st, l), [TransferFailed tid])
          else sendNextChunk qt os e tid
            (ft_put tid (s\<lparr>ts_handle := Some (ReadHandle 0), ts_state := Transferring, ts_transferredBytes := 0,
               ts_currentChunkIndex := 0\<rparr>) st, l))))"

section \<open>Receiving\<close>

text \<open>The verified file takes its final name.\<close>

definition move_into_place :: "os \<Rightarrow> session \<Rightarrow> fs \<Rightarrow> fs \<times> bool" where
  "move_into_place os s fs =
    (let fs1 = (if fs (ts_finalFilePath s) \<noteq> None then fs_remove (ts_finalFilePath s) fs else fs) in
     fs_rename (os_rename os) (ts_tempFilePath s) (ts_finalFilePath s) fs1)"

definition acceptTransfer :: "qt_lib \<Rightarrow> file_lib \<Rightarrow> os \<Rightarrow> call_env \<Rightarrow> qstring \<Rightarrow> qstring \<Rightarrow> ft_link
    \<Rightarrow> ft_link \<times> bool \<times> ft_event list" where
  "acceptTransfer qt fl os e tid destinationDir = (\<lambda>(st, l).
    (case qm_value (ft_sessions st) tid of
       None \<Rightarrow> ((st, l), False, [])
     | Some s0 \<Rightarrow>
       if ts_state s0 \<noteq> Offering \<or> ts_direction s0 \<noteq> Incoming then ((st, l), False, [])
       else
        let targetDir = (if destinationDir = [] then fl_downloads fl else destinationDir);
            s = s0\<lparr>ts_finalFilePath := fl_filePath fl targetDir (ts_fileName s0),
                   ts_tempFilePath := fl_filePath fl targetDir (qs ''.tmp_'' @ tid)\<rparr> in
        if \<not> os_open os then
          ((ft_put tid (s\<lparr>ts_handle := None, ts_state := TFailed\<rparr>) st, l), False, [TransferFailed tid])
        else
         let s1 = s\<lparr>ts_handle := Some WriteHandle, ts_hashed := [], ts_state := Transferring,
                    ts_transferredBytes := 0, ts_currentChunkIndex := 0\<rparr>;
             st1 = ft_put tid s1 (st\<lparr>ft_fs := (ft_fs st)(ts_tempFilePath s \<mapsto> [])\<rparr>) in
         case ft_send e (json_frame qt FtFileAccept (FileAccept_toJson \<lparr>fa_transferId = tid\<rparr>)) (st1, l) of ((st2, l2), ev2) \<Rightarrow>
         let started = [TransferStarted tid (ts_fileName s) (ts_fileSize s) Incoming] in
         if ts_fileSize s = 0 then
           (let fs3 = fst (move_into_place os s1 (ft_fs st2)) in
            ((ft_put tid (s1\<lparr>ts_handle := None, ts_state := Completed\<rparr>) (st2\<lparr>ft_fs := fs3\<rparr>), l2), True,
             ev2 @ started @ [TransferCompleted tid (ts_finalFilePath s)]))
         else ((st2, l2), True, ev2 @ started)))"

definition rejectTransfer :: "qt_lib \<Rightarrow> call_env \<Rightarrow> qstring \<Rightarrow> qstring \<Rightarrow> ft_link \<Rightarrow> ft_link \<times> bool \<times> ft_event list" where
  "rejectTransfer qt e tid reason = (\<lambda>(st, l).
    (case qm_value (ft_sessions st) tid of
       None \<Rightarrow> ((st, l), False, [])
     | Some s \<Rightarrow>
       (case ft_send e (json_frame qt FtFileReject (FileReject_toJson \<lparr>fr_transferId = tid, fr_reason = reason\<rparr>))
          (ft_put tid (s\<lparr>ts_state := Rejected\<rparr>) st, l) of ((st1, l1), ev1) \<Rightarrow>
        ((cleanupSession tid True st1, l1), True, ev1 @ [TransferRejected tid reason]))))"

definition cancelTransfer :: "qt_lib \<Rightarrow> call_env \<Rightarrow> qstring \<Rightarrow> qstring \<Rightarrow> ft_link \<Rightarrow> ft_link \<times> bool \<times> ft_event list" where
  "cancelTransfer qt e tid reason = (\<lambda>(st, l).
    (case qm_value (ft_sessions st) tid of
       None \<Rightarrow> ((st, l), False, [])
     | Some s \<Rightarrow>
       (case ft_send e (json_frame qt FtFileCancel (FileCancel_toJson \<lparr>fx_transferId = tid, fx_reason = reason\<rparr>))
          (ft_put tid (s\<lparr>ts_state := Cancelled\<rparr>) st, l) of ((st1, l1), ev1) \<Rightarrow>
        ((cleanupSession tid True st1, l1), True, ev1 @ [TransferCancelled tid reason]))))"

definition handleInboundFileOffer :: "qt_lib \<Rightarrow> bytes \<Rightarrow> ft \<Rightarrow> ft \<times> ft_event list" where
  "handleInboundFileOffer qt body st =
    (case Option.bind (json_read qt body) (FileOffer_fromJson qt) of
       None \<Rightarrow> (st, [])
     | Some offer \<Rightarrow>
        (ft_put (fo_transferId offer)
          \<lparr>ts_transferId = fo_transferId offer, ts_fileName = sanitizeFileName qt (fo_fileName offer),
           ts_fileSize = fo_fileSize offer, ts_expectedSha256 = fo_sha256 offer,
           ts_chunkSize = (if fo_chunkSize offer > 0 then fo_chunkSize offer else DEFAULT_FILE_CHUNK_SIZE),
           ts_totalChunks = fo_totalChunks offer, ts_direction = Incoming, ts_state = Offering,
           ts_transferredBytes = 0, ts_currentChunkIndex = 0, ts_sourceFilePath = [], ts_tempFilePath = [],
           ts_finalFilePath = [], ts_handle = None, ts_hashed = []\<rparr> st,
         [FileOfferReceived offer]))"

definition handleInboundFileReject :: "qt_lib \<Rightarrow> bytes \<Rightarrow> ft \<Rightarrow> ft \<times> ft_event list" where
  "handleInboundFileReject qt body st =
    (case Option.bind (json_read qt body) FileReject_fromJson of
       None \<Rightarrow> (st, [])
     | Some rej \<Rightarrow>
       (case qm_value (ft_sessions st) (fr_transferId rej) of
          None \<Rightarrow> (st, [])
        | Some s \<Rightarrow>
           (cleanupSession (fr_transferId rej) True (ft_put (fr_transferId rej) (s\<lparr>ts_state := Rejected\<rparr>) st),
            [TransferRejected (fr_transferId rej) (fr_reason rej)])))"

definition handleInboundFileChunk :: "qt_lib \<Rightarrow> os \<Rightarrow> bytes \<Rightarrow> ft \<Rightarrow> ft \<times> ft_event list" where
  "handleInboundFileChunk qt os body st =
    (case FileChunk_decode qt body of
       None \<Rightarrow> (st, [])
     | Some (tid, chunkIndex, chunkData) \<Rightarrow>
       (case qm_value (ft_sessions st) tid of
          None \<Rightarrow> (st, [])
        | Some s \<Rightarrow>
          if ts_state s \<noteq> Transferring \<or> ts_direction s \<noteq> Incoming then (st, [])
          else if chunkIndex \<noteq> ts_currentChunkIndex s then
            (cleanupSession tid True (ft_put tid (s\<lparr>ts_state := TFailed\<rparr>) st), [TransferFailed tid])
          else
           let st1 = (if ts_handle s \<noteq> None
                 then st\<lparr>ft_fs := (ft_fs st)(ts_tempFilePath s \<mapsto>
                        fs_content (ft_fs st) (ts_tempFilePath s) @ take (os_write os chunkData) chunkData)\<rparr>
                 else st);
               s1 = s\<lparr>ts_hashed := ts_hashed s @ chunkData,
                      ts_transferredBytes := ts_transferredBytes s + int (length chunkData),
                      ts_currentChunkIndex := ts_currentChunkIndex s + 1\<rparr> in
           (ft_put tid s1 st1, [TransferProgress tid (ts_transferredBytes s1) (ts_fileSize s)])))"

definition handleInboundFileComplete :: "qt_lib \<Rightarrow> file_lib \<Rightarrow> os \<Rightarrow> bytes \<Rightarrow> ft \<Rightarrow> ft \<times> ft_event list" where
  "handleInboundFileComplete qt fl os body st =
    (case Option.bind (json_read qt body) FileComplete_fromJson of
       None \<Rightarrow> (st, [])
     | Some fin \<Rightarrow>
       (let tid = fc_transferId fin in
        case qm_value (ft_sessions st) tid of
          None \<Rightarrow> (st, [])
        | Some s0 \<Rightarrow>
          if ts_direction s0 \<noteq> Incoming \<or> ts_state s0 \<noteq> Transferring then (st, [])
          else
           let s = s0\<lparr>ts_state := Verifying, ts_handle := None\<rparr> in
           if fl_eq_ci fl (fl_sha256 fl (ts_hashed s)) (ts_expectedSha256 s) then
             (case move_into_place os s (ft_fs st) of (fs1, ok) \<Rightarrow>
               if ok then
                 (ft_put tid (s\<lparr>ts_state := Completed\<rparr>) (st\<lparr>ft_fs := fs1\<rparr>), [TransferCompleted tid (ts_finalFilePath s)])
               else
                 (cleanupSession tid True (ft_put tid (s\<lparr>ts_state := TFailed\<rparr>) (st\<lparr>ft_fs := fs1\<rparr>)), [TransferFailed tid]))
           else
             (cleanupSession tid True (ft_put tid (s\<lparr>ts_state := TFailed\<rparr>) st), [TransferFailed tid])))"

definition handleInboundFileCancel :: "qt_lib \<Rightarrow> bytes \<Rightarrow> ft \<Rightarrow> ft \<times> ft_event list" where
  "handleInboundFileCancel qt body st =
    (case Option.bind (json_read qt body) FileCancel_fromJson of
       None \<Rightarrow> (st, [])
     | Some can \<Rightarrow>
       (case qm_value (ft_sessions st) (fx_transferId can) of
          None \<Rightarrow> (st, [])
        | Some s \<Rightarrow>
           (cleanupSession (fx_transferId can) True (ft_put (fx_transferId can) (s\<lparr>ts_state := Cancelled\<rparr>) st),
            [TransferCancelled (fx_transferId can) (fx_reason can)])))"

definition ft_onFrameReceivedFrom :: "qt_lib \<Rightarrow> file_lib \<Rightarrow> os \<Rightarrow> call_env \<Rightarrow> p2p_frame \<Rightarrow> ft_link \<Rightarrow> ft_link \<times> ft_event list" where
  "ft_onFrameReceivedFrom qt fl os e f = (\<lambda>(st, l).
    (if frame_ty f = FtFileAccept then handleInboundFileAccept qt os e (payload f) (st, l)
     else
      case (if frame_ty f = FtFileOffer then handleInboundFileOffer qt (payload f) st
            else if frame_ty f = FtFileReject then handleInboundFileReject qt (payload f) st
            else if frame_ty f = FtFileChunk then handleInboundFileChunk qt os (payload f) st
            else if frame_ty f = FtFileComplete then handleInboundFileComplete qt fl os (payload f) st
            else if frame_ty f = FtFileCancel then handleInboundFileCancel qt (payload f) st
            else (st, []))
      of (st', ev) \<Rightarrow> ((st', l), ev)))"

definition ft_onPeerDisconnected :: "ft \<Rightarrow> ft \<times> ft_event list" where
  "ft_onPeerDisconnected st = ft_onSocketDisconnected st"

section \<open>Runs\<close>

datatype ft_input =
    SendFile qstring qstring qstring
  | AcceptTransfer qstring qstring
  | RejectTransfer qstring qstring
  | CancelTransfer qstring qstring
  | ChunkTimer
  | FtFrameArrived p2p_frame
  | FtPeerLeft

fun ft_step :: "qt_lib \<Rightarrow> file_lib \<Rightarrow> os \<Rightarrow> call_env \<Rightarrow> ft_input \<Rightarrow> ft_link \<Rightarrow> ft_link \<times> ft_event list" where
  "ft_step qt fl os e (SendFile uuid path ip) s = (case sendFile qt fl os e uuid path ip s of (s', _, ev) \<Rightarrow> (s', ev))"
| "ft_step qt fl os e (AcceptTransfer tid dir) s = (case acceptTransfer qt fl os e tid dir s of (s', _, ev) \<Rightarrow> (s', ev))"
| "ft_step qt fl os e (RejectTransfer tid r) s = (case rejectTransfer qt e tid r s of (s', _, ev) \<Rightarrow> (s', ev))"
| "ft_step qt fl os e (CancelTransfer tid r) s = (case cancelTransfer qt e tid r s of (s', _, ev) \<Rightarrow> (s', ev))"
| "ft_step qt fl os e ChunkTimer s = run_pending qt os e s"
| "ft_step qt fl os e (FtFrameArrived f) s = ft_onFrameReceivedFrom qt fl os e f s"
| "ft_step qt fl os e FtPeerLeft (st, l) = (case ft_onPeerDisconnected st of (st', ev) \<Rightarrow> ((st', l), ev))"


text \<open>
  The transfers whose sending an offer replaces while a chunk transmission is still scheduled:
  the scheduled call then finds the session of the offer (see \<open>reused_id_skips_verification\<close>).
\<close>

fun overtaken :: "qt_lib \<Rightarrow> ft_input \<Rightarrow> ft \<Rightarrow> qstring set" where
  "overtaken qt (FtFrameArrived f) st =
     (if frame_ty f \<noteq> FtFileOffer then {}
      else case Option.bind (json_read qt (payload f)) (FileOffer_fromJson qt) of
          None \<Rightarrow> {} | Some offer \<Rightarrow> {fo_transferId offer} \<inter> set (ft_pending st))"
| "overtaken qt _ st = {}"

definition ft_init :: "fs \<Rightarrow> ft" where
  "ft_init fs = \<lparr>ft_sessions = [], ft_pending = [], ft_fs = fs\<rparr>"

text \<open>
  Between two steps other programs change the file system and the socket moves on. Any input may
  come in any state; the set notes the transfers overtaken so far.
\<close>

inductive ft_reach :: "qt_lib \<Rightarrow> file_lib \<Rightarrow> qstring set \<Rightarrow> ft \<Rightarrow> bool" for qt fl where
  init: "ft_reach qt fl {} (ft_init fs)"
| step: "ft_reach qt fl X st \<Longrightarrow> ft_step qt fl os e i (st\<lparr>ft_fs := fs\<rparr>, l) = ((st', l'), ev) \<Longrightarrow>
    ft_reach qt fl (X \<union> overtaken qt i st) st'"

section \<open>The invariant\<close>

text \<open>\<open>x\<close> says whether the session's transfer was overtaken.\<close>

definition session_ok :: "file_lib \<Rightarrow> bool \<Rightarrow> session \<Rightarrow> bool" where
  "session_ok fl x s \<longleftrightarrow>
     ts_transferredBytes s \<ge> 0
   \<and> (ts_direction s = Outgoing \<longrightarrow> ts_handle s \<noteq> Some WriteHandle)
   \<and> (ts_direction s = Incoming \<longrightarrow>
        (ts_handle s = None \<or> ts_handle s = Some WriteHandle)
      \<and> (ts_state s = Transferring \<longrightarrow> ts_transferredBytes s = int (length (ts_hashed s)))
      \<and> (ts_state s = Completed \<longrightarrow>
          x \<or> ts_fileSize s = 0 \<or> fl_eq_ci fl (fl_sha256 fl (ts_hashed s)) (ts_expectedSha256 s)))"

definition ft_inv :: "file_lib \<Rightarrow> qstring set \<Rightarrow> ft \<Rightarrow> bool" where
  "ft_inv fl X st \<longleftrightarrow>
     (\<forall>tid s. qm_value (ft_sessions st) tid = Some s \<longrightarrow>
        session_ok fl (tid \<in> X) s \<and> (tid \<in> set (ft_pending st) \<longrightarrow> ts_direction s = Outgoing \<or> tid \<in> X))
   \<and> (\<forall>tid \<in> set (ft_pending st). qm_value (ft_sessions st) tid \<noteq> None)"

lemma ft_inv_overtaken: "ft_inv fl X st \<Longrightarrow> X \<subseteq> Y \<Longrightarrow> ft_inv fl Y st"
  by (fastforce simp: ft_inv_def session_ok_def)

lemma ft_inv_fs [simp]: "ft_inv fl X (st\<lparr>ft_fs := x\<rparr>) = ft_inv fl X st"
  by (simp add: ft_inv_def)

lemma ft_put_simps [simp]:
  "ft_sessions (ft_put tid s st) = qm_insert tid s (ft_sessions st)"
  "ft_pending (ft_put tid s st) = ft_pending st" "ft_fs (ft_put tid s st) = ft_fs st"
  "(ft_put tid s st)\<lparr>ft_fs := x\<rparr> = ft_put tid s (st\<lparr>ft_fs := x\<rparr>)"
  by (simp_all add: ft_put_def)

lemma ft_inv_put:
  "ft_inv fl X st \<Longrightarrow> session_ok fl (tid \<in> X) s \<Longrightarrow> (tid \<in> set (ft_pending st) \<longrightarrow> ts_direction s = Outgoing \<or> tid \<in> X) \<Longrightarrow>
     ft_inv fl X (ft_put tid s st)"
  by (simp add: ft_inv_def)

text \<open>Updating the session a handler looked up.\<close>

lemma ft_inv_update:
  "ft_inv fl X st \<Longrightarrow> qm_value (ft_sessions st) tid = Some s0 \<Longrightarrow> session_ok fl (tid \<in> X) s \<Longrightarrow>
     ts_direction s = ts_direction s0 \<Longrightarrow> ft_inv fl X (ft_put tid s st)"
  by (rule ft_inv_put) (auto simp: ft_inv_def)

lemma ft_inv_session: "ft_inv fl X st \<Longrightarrow> qm_value (ft_sessions st) tid = Some s \<Longrightarrow> session_ok fl (tid \<in> X) s"
  by (auto simp: ft_inv_def)

lemma session_ok_counted: "session_ok fl y s \<Longrightarrow> 0 \<le> ts_transferredBytes s"
  by (simp add: session_ok_def)

lemma session_ok_stop:
  "session_ok fl y s \<Longrightarrow> x \<noteq> Completed \<Longrightarrow> x \<noteq> Transferring \<Longrightarrow> session_ok fl y (s\<lparr>ts_state := x\<rparr>)"
  by (simp add: session_ok_def)

lemma session_ok_close: "session_ok fl y s \<Longrightarrow> session_ok fl y (s\<lparr>ts_handle := None\<rparr>)"
  by (simp add: session_ok_def)

lemma ft_send_eq:
  "ft_send e f (st, l) = ((st, fst (link_send e f l)),
     (if l = None then [] else FtFrameSent f (fst (snd (link_send e f l))) # map FtSocketEvent (snd (snd (link_send e f l)))))"
  by (auto simp: ft_send_def link_send_def split: option.splits prod.splits)

lemma inv_cleanupSession: "ft_inv fl X st \<Longrightarrow> ft_inv fl X (cleanupSession tid b st)"
  by (auto simp: cleanupSession_def Let_def intro!: ft_inv_update session_ok_close
      dest: ft_inv_session split: option.splits)

lemma inv_fail_session: "ft_inv fl X st \<Longrightarrow> fail_session tid st = (st', ev) \<Longrightarrow> ft_inv fl X st'"
  by (auto simp: fail_session_def intro!: inv_cleanupSession ft_inv_update session_ok_stop
      dest: ft_inv_session split: option.splits if_splits)

lemma inv_fail_sessions: "ft_inv fl X st \<Longrightarrow> fail_sessions tids st = (st', ev) \<Longrightarrow> ft_inv fl X st'"
  by (induction tids arbitrary: st ev) (auto dest: inv_fail_session split: prod.splits)

lemma inv_ft_connect: "ft_inv fl X st \<Longrightarrow> ft_connect e ip (st, l) = ((st', l'), ev) \<Longrightarrow> ft_inv fl X st'"
  by (auto simp: ft_connect_def ft_onSocketDisconnected_def dest: inv_fail_sessions split: prod.splits if_splits)

lemma inv_sendFile:
  assumes "ft_inv fl X st" and "sendFile qt fl os e uuid path ip (st, l) = ((st', l'), tid, ev)"
  shows "ft_inv fl X st'"
  using assms
  by (auto simp: sendFile_def Let_def ft_send_eq session_ok_def dest!: inv_ft_connect [rotated] intro!: ft_inv_put
      split: option.splits if_splits prod.splits)

lemma inv_pend:
  "ft_inv fl X st \<Longrightarrow> qm_value (ft_sessions st) tid = Some s \<Longrightarrow> ts_direction s = Outgoing \<Longrightarrow>
     ft_inv fl X (st\<lparr>ft_pending := ft_pending st @ [tid]\<rparr>)"
  by (auto simp: ft_inv_def)


lemma session_ok_outgoing:
  "session_ok fl y s \<Longrightarrow> ts_direction s = Outgoing \<Longrightarrow> ts_direction s' = Outgoing \<Longrightarrow>
     ts_handle s' \<noteq> Some WriteHandle \<Longrightarrow> ts_transferredBytes s' \<ge> 0 \<Longrightarrow> session_ok fl y s'"
  by (simp add: session_ok_def)

lemma inv_sendNextChunk:
  assumes inv: "ft_inv fl X st" and out: "\<And>s. qm_value (ft_sessions st) tid = Some s \<Longrightarrow> ts_direction s = Outgoing \<or> tid \<in> X"
    and r: "sendNextChunk qt os e tid (st, l) = ((st', l'), ev)"
  shows "ft_inv fl X st'"
proof (cases "\<exists>s h. qm_value (ft_sessions st) tid = Some s \<and> ts_handle s = Some h \<and> ts_state s = Transferring")
  case True
  then obtain s h where s: "qm_value (ft_sessions st) tid = Some s" "ts_handle s = Some h" "ts_state s = Transferring"
    by blast
  have ok: "session_ok fl (tid \<in> X) s" by (rule ft_inv_session [OF inv s(1)])
  have twice: "ft_put tid a (ft_put tid b st) = ft_put tid a st" for a b by (simp add: ft_put_def)
  show ?thesis
  proof (cases "ts_direction s")
    case o: Outgoing
    then obtain n where n: "h = ReadHandle n" using s(2) ok by (cases h) (auto simp: session_ok_def)
    have t: "0 \<le> ts_transferredBytes s" using ok by (simp add: session_ok_def)
    have upd: "ft_inv fl X (ft_put tid s' st)"
      if "ts_direction s' = Outgoing" "ts_handle s' \<noteq> Some WriteHandle" "0 \<le> ts_transferredBytes s'" for s'
      using ft_inv_update [OF inv s(1)] session_ok_outgoing [OF ok o] that o by simp
    have pend: "ft_inv fl X (ft_put tid s' st\<lparr>ft_pending := ft_pending st @ [tid]\<rparr>)"
      if "ts_direction s' = Outgoing" "ts_handle s' \<noteq> Some WriteHandle" "0 \<le> ts_transferredBytes s'" for s'
      using inv_pend [OF upd [OF that], of tid s'] that by simp
    show ?thesis
      using r s n o t
      by (auto simp: sendNextChunk_def Let_def ft_send_eq twice split: if_splits intro!: upd pend)
  next
    case i: Incoming
    then have h: "h = WriteHandle" and x: "tid \<in> X" using s(1,2) ok out [OF s(1)] by (auto simp: session_ok_def)
    have "st' = ft_put tid (s\<lparr>ts_handle := None, ts_state := Completed\<rparr>) st"
      using r s h by (simp add: sendNextChunk_def Let_def ft_send_eq twice)
    moreover have "session_ok fl (tid \<in> X) (s\<lparr>ts_handle := None, ts_state := Completed\<rparr>)"
      using ok x i by (simp add: session_ok_def)
    ultimately show ?thesis using ft_inv_update [OF inv s(1)] by simp
  qed
next
  case False
  then have "st' = st" using r by (auto simp: sendNextChunk_def split: option.splits if_splits)
  then show ?thesis using inv by simp
qed

lemma inv_run_pending: "ft_inv fl X st \<Longrightarrow> run_pending qt os e (st, l) = ((st', l'), ev) \<Longrightarrow> ft_inv fl X st'"
proof -
  assume inv: "ft_inv fl X st" and r: "run_pending qt os e (st, l) = ((st', l'), ev)"
  show ?thesis
  proof (cases "ft_pending st")
    case (Cons tid tids)
    have "ft_inv fl X (st\<lparr>ft_pending := tids\<rparr>)" using inv Cons by (auto simp: ft_inv_def)
    moreover have "ts_direction s = Outgoing \<or> tid \<in> X" if "qm_value (ft_sessions st) tid = Some s" for s
      using that inv Cons by (auto simp: ft_inv_def)
    ultimately show ?thesis
      using inv_sendNextChunk [of fl X "st\<lparr>ft_pending := tids\<rparr>" tid] r Cons by (auto simp: run_pending_def)
  qed (use inv r in \<open>simp add: run_pending_def\<close>)
qed

lemma inv_handleInboundFileAccept:
  assumes inv: "ft_inv fl X st" and r: "handleInboundFileAccept qt os e body (st, l) = ((st', l'), ev)"
  shows "ft_inv fl X st'"
proof (cases "\<exists>acc s. Option.bind (json_read qt body) FileAccept_fromJson = Some acc
    \<and> qm_value (ft_sessions st) (fa_transferId acc) = Some s \<and> ts_direction s = Outgoing \<and> ts_state s = Offering")
  case True
  then obtain acc s where s: "Option.bind (json_read qt body) FileAccept_fromJson = Some acc"
    "qm_value (ft_sessions st) (fa_transferId acc) = Some s" "ts_direction s = Outgoing" "ts_state s = Offering" by blast
  have t: "0 \<le> ts_transferredBytes s" by (rule session_ok_counted [OF ft_inv_session [OF inv s(2)]])
  have upd: "ft_inv fl X (ft_put (fa_transferId acc) s' st)"
    if "ts_direction s' = Outgoing" "ts_handle s' \<noteq> Some WriteHandle" "0 \<le> ts_transferredBytes s'" for s'
    using ft_inv_update [OF inv s(2)] session_ok_outgoing [OF ft_inv_session [OF inv s(2)] s(3)] that s(3) by simp
  show ?thesis
    using r s upd t
    by (auto simp: handleInboundFileAccept_def Let_def split: if_splits elim!: inv_sendNextChunk [rotated 2])
next
  case False
  then have "st' = st" using r by (auto simp: handleInboundFileAccept_def Let_def split: option.splits if_splits)
  then show ?thesis using inv by simp
qed

lemma inv_acceptTransfer:
  assumes inv: "ft_inv fl X st" and r: "acceptTransfer qt fl os e tid dir (st, l) = ((st', l'), ok, ev)"
  shows "ft_inv fl X st'"
proof (cases "\<exists>s. qm_value (ft_sessions st) tid = Some s \<and> ts_direction s = Incoming \<and> ts_state s = Offering")
  case True
  then obtain s where s: "qm_value (ft_sessions st) tid = Some s" "ts_direction s = Incoming" "ts_state s = Offering"
    by blast
  have upd: "ft_inv fl X (ft_put tid s' (st\<lparr>ft_fs := x\<rparr>))" if "session_ok fl (tid \<in> X) s'" "ts_direction s' = Incoming" for s' x
    using ft_inv_update [of fl X "st\<lparr>ft_fs := x\<rparr>" tid s s'] inv s that by simp
  have t: "0 \<le> ts_transferredBytes s" by (rule session_ok_counted [OF ft_inv_session [OF inv s(1)]])
  have twice: "ft_put tid a (ft_put tid b st) = ft_put tid a st" for a b st by (simp add: ft_put_def)
  show ?thesis
    using r s t upd [where x = "ft_fs st"]
    by (auto simp: acceptTransfer_def Let_def ft_send_eq twice session_ok_def split: if_splits intro!: upd)
next
  case False
  then have "st' = st"
    using r by (auto simp: acceptTransfer_def Let_def split: option.splits if_splits)
  then show ?thesis using inv by simp
qed

text \<open>A session that is stopped and cleaned up.\<close>

lemma inv_stop:
  "ft_inv fl X st \<Longrightarrow> qm_value (ft_sessions st) tid = Some s \<Longrightarrow> x \<noteq> Completed \<Longrightarrow> x \<noteq> Transferring \<Longrightarrow>
     ft_inv fl X (cleanupSession tid True (ft_put tid (s\<lparr>ts_state := x\<rparr>) st))"
  by (intro inv_cleanupSession ft_inv_update session_ok_stop) (auto dest: ft_inv_session)

lemma inv_rejectTransfer: "ft_inv fl X st \<Longrightarrow> rejectTransfer qt e tid r (st, l) = ((st', l'), ok, ev) \<Longrightarrow> ft_inv fl X st'"
  by (auto simp: rejectTransfer_def ft_send_eq inv_stop split: option.splits)

lemma inv_cancelTransfer: "ft_inv fl X st \<Longrightarrow> cancelTransfer qt e tid r (st, l) = ((st', l'), ok, ev) \<Longrightarrow> ft_inv fl X st'"
  by (auto simp: cancelTransfer_def ft_send_eq inv_stop split: option.splits)

lemma inv_handleInboundFileOffer:
  "ft_inv fl X st \<Longrightarrow> Option.bind (json_read qt body) (FileOffer_fromJson qt) = Some offer \<Longrightarrow>
     {fo_transferId offer} \<inter> set (ft_pending st) \<subseteq> X \<Longrightarrow>
     handleInboundFileOffer qt body st = (st', ev) \<Longrightarrow> ft_inv fl X st'"
  by (auto simp: handleInboundFileOffer_def session_ok_def intro!: ft_inv_put)

lemma inv_handleInboundFileReject: "ft_inv fl X st \<Longrightarrow> handleInboundFileReject qt body st = (st', ev) \<Longrightarrow> ft_inv fl X st'"
  by (auto simp: handleInboundFileReject_def inv_stop split: option.splits)

lemma inv_handleInboundFileCancel: "ft_inv fl X st \<Longrightarrow> handleInboundFileCancel qt body st = (st', ev) \<Longrightarrow> ft_inv fl X st'"
  by (auto simp: handleInboundFileCancel_def inv_stop split: option.splits)

lemma inv_handleInboundFileChunk:
  assumes inv: "ft_inv fl X st" and r: "handleInboundFileChunk qt os body st = (st', ev)"
  shows "ft_inv fl X st'"
proof (cases "\<exists>tid i d s. FileChunk_decode qt body = Some (tid, i, d) \<and> qm_value (ft_sessions st) tid = Some s
    \<and> ts_state s = Transferring \<and> ts_direction s = Incoming")
  case True
  then obtain tid i d s where s: "FileChunk_decode qt body = Some (tid, i, d)" "qm_value (ft_sessions st) tid = Some s"
    "ts_state s = Transferring" "ts_direction s = Incoming" by blast
  have upd: "ft_inv fl X (ft_put tid s' (st\<lparr>ft_fs := x\<rparr>))" if "session_ok fl (tid \<in> X) s'" "ts_direction s' = Incoming" for s' x
    using ft_inv_update [of fl X "st\<lparr>ft_fs := x\<rparr>" tid s s'] inv s that by simp
  have ok: "session_ok fl (tid \<in> X) (s\<lparr>ts_hashed := ts_hashed s @ d, ts_transferredBytes := ts_transferredBytes s + int (length d),
      ts_currentChunkIndex := ts_currentChunkIndex s + 1\<rparr>)"
    using ft_inv_session [OF inv s(2)] s(3,4) by (simp add: session_ok_def)
  have same: "st = st\<lparr>ft_fs := ft_fs st\<rparr>" by simp
  show ?thesis
    using r s ok inv upd [OF ok, where x = "ft_fs st"] inv_stop [OF inv s(2), of TFailed]
    by (auto simp: handleInboundFileChunk_def Let_def split: if_splits intro!: upd)
next
  case False
  then have "st' = st"
    using r by (auto simp: handleInboundFileChunk_def split: option.splits if_splits)
  then show ?thesis using inv by simp
qed

lemma inv_handleInboundFileComplete:
  assumes inv: "ft_inv fl X st" and r: "handleInboundFileComplete qt fl os body st = (st', ev)"
  shows "ft_inv fl X st'"
proof (cases "\<exists>fin s. Option.bind (json_read qt body) FileComplete_fromJson = Some fin
    \<and> qm_value (ft_sessions st) (fc_transferId fin) = Some s \<and> ts_state s = Transferring \<and> ts_direction s = Incoming")
  case True
  then obtain fin s where s: "Option.bind (json_read qt body) FileComplete_fromJson = Some fin"
    "qm_value (ft_sessions st) (fc_transferId fin) = Some s" "ts_state s = Transferring" "ts_direction s = Incoming"
    by blast
  let ?tid = "fc_transferId fin"
  have upd: "ft_inv fl X (ft_put ?tid s' (st\<lparr>ft_fs := x\<rparr>))" if "session_ok fl (?tid \<in> X) s'" "ts_direction s' = Incoming" for s' x
    using ft_inv_update [of fl X "st\<lparr>ft_fs := x\<rparr>" ?tid s s'] inv s that by simp
  have t: "0 \<le> ts_transferredBytes s" by (rule session_ok_counted [OF ft_inv_session [OF inv s(2)]])
  have failed: "session_ok fl (?tid \<in> X) (s\<lparr>ts_handle := None, ts_state := TFailed\<rparr>)"
    using s(4) t by (simp add: session_ok_def)
  show ?thesis
    using r s t upd [OF failed, where x = "ft_fs st"]
    by (auto simp: handleInboundFileComplete_def Let_def session_ok_def split: if_splits prod.splits
        intro!: upd inv_cleanupSession)
next
  case False
  then have "st' = st"
    using r by (auto simp: handleInboundFileComplete_def Let_def split: option.splits if_splits)
  then show ?thesis using inv by simp
qed

lemma inv_ft_step:
  assumes "ft_inv fl X st" and "overtaken qt i st \<subseteq> X" and "ft_step qt fl os e i (st\<lparr>ft_fs := x\<rparr>, l) = ((st', l'), ev)"
  shows "ft_inv fl X st'"
proof -
  have inv: "ft_inv fl X (st\<lparr>ft_fs := x\<rparr>)" using assms(1) by simp
  show ?thesis
  proof (cases i)
    case (SendFile uuid path ip)
    then show ?thesis using assms(3) inv_sendFile [OF inv] by (auto split: prod.splits)
  next
    case (FtFrameArrived f)
    consider "frame_ty f = FtFileOffer" | "frame_ty f = FtFileAccept" | "frame_ty f \<noteq> FtFileOffer" "frame_ty f \<noteq> FtFileAccept"
      by blast
    then show ?thesis
    proof cases
      case 1
      then have h: "handleInboundFileOffer qt (payload f) (st\<lparr>ft_fs := x\<rparr>) = (st', ev)"
        using assms(3) FtFrameArrived by (auto simp: ft_onFrameReceivedFrom_def frame_type_defs split: prod.splits)
      show ?thesis
      proof (cases "Option.bind (json_read qt (payload f)) (FileOffer_fromJson qt)")
        case None
        then show ?thesis using h inv by (simp add: handleInboundFileOffer_def)
      next
        case (Some offer)
        then show ?thesis using inv_handleInboundFileOffer [OF inv Some _ h] assms(2) FtFrameArrived 1 Some by simp
      qed
    next
      case 2
      then show ?thesis using assms(3) FtFrameArrived inv_handleInboundFileAccept [OF inv]
        by (auto simp: ft_onFrameReceivedFrom_def)
    next
      case 3
      then show ?thesis
        using assms(3) FtFrameArrived inv_handleInboundFileReject [OF inv] inv_handleInboundFileChunk [OF inv]
          inv_handleInboundFileComplete [OF inv] inv_handleInboundFileCancel [OF inv] assms(1)
        by (auto simp: ft_onFrameReceivedFrom_def split: prod.splits if_splits)
    qed
  qed (use assms(3) inv_acceptTransfer [OF inv] inv_rejectTransfer [OF inv] inv_cancelTransfer [OF inv]
      inv_run_pending [OF inv] inv_fail_sessions [OF inv] in
      \<open>auto simp: ft_onPeerDisconnected_def ft_onSocketDisconnected_def split: prod.splits\<close>)
qed

text \<open>A step that overtakes nothing new.\<close>

lemma ft_reach_step:
  "ft_reach qt fl X st \<Longrightarrow> ft_step qt fl os e i (st\<lparr>ft_fs := fs\<rparr>, l) = ((st', l'), ev) \<Longrightarrow> overtaken qt i st \<subseteq> X \<Longrightarrow>
    ft_reach qt fl X st'"
  using ft_reach.step [of qt fl X st os e i fs l st' l' ev] by (simp add: Un_absorb2)

lemma ft_reach_inv: "ft_reach qt fl X st \<Longrightarrow> ft_inv fl X st"
proof (induction rule: ft_reach.induct)
  case (init fs)
  show ?case by (simp add: ft_inv_def ft_init_def)
next
  case (step X st os e i fs l st' l' ev)
  then show ?case using inv_ft_step [OF ft_inv_overtaken [OF step.IH]] by blast
qed

section \<open>A transfer from end to end\<close>

fun run_pendings :: "qt_lib \<Rightarrow> os \<Rightarrow> call_env \<Rightarrow> nat \<Rightarrow> ft_link \<Rightarrow> ft_link \<times> ft_event list" where
  "run_pendings qt os e 0 s = (s, [])"
| "run_pendings qt os e (Suc n) s =
    (case run_pending qt os e s of (s1, ev1) \<Rightarrow> case run_pendings qt os e n s1 of (s2, ev2) \<Rightarrow> (s2, ev1 @ ev2))"

fun ft_receive :: "qt_lib \<Rightarrow> file_lib \<Rightarrow> os \<Rightarrow> call_env \<Rightarrow> p2p_frame list \<Rightarrow> ft_link \<Rightarrow> ft_link \<times> ft_event list" where
  "ft_receive qt fl os e [] s = (s, [])"
| "ft_receive qt fl os e (f # fs) s =
    (case ft_onFrameReceivedFrom qt fl os e f s of (s1, ev1) \<Rightarrow>
     case ft_receive qt fl os e fs s1 of (s2, ev2) \<Rightarrow> (s2, ev1 @ ev2))"

fun sent_frames :: "ft_event list \<Rightarrow> p2p_frame list" where
  "sent_frames [] = []"
| "sent_frames (FtFrameSent f ok # evs) = f # sent_frames evs"
| "sent_frames (ev # evs) = sent_frames evs"

lemma sent_frames_append [simp]: "sent_frames (a @ b) = sent_frames a @ sent_frames b"
  by (induction a rule: sent_frames.induct) simp_all

lemma sent_frames_socket [simp]: "sent_frames (map FtSocketEvent evs) = []"
  by (induction evs) simp_all

text \<open>What the chunks of the data from index \<open>i\<close> on look like on the wire.\<close>

definition chunk_frame :: "qt_lib \<Rightarrow> qstring \<Rightarrow> u32 \<Rightarrow> bytes \<Rightarrow> p2p_frame" where
  "chunk_frame qt tid i d = \<lparr>frame_ty = FtFileChunk, payload = FileChunk_encode qt tid i d\<rparr>"

definition complete_frame :: "qt_lib \<Rightarrow> qstring \<Rightarrow> qstring \<Rightarrow> p2p_frame" where
  "complete_frame qt tid sha = json_frame qt FtFileComplete
     (FileComplete_toJson \<lparr>fc_transferId = tid, fc_sha256 = sha, fc_status = qs ''verified''\<rparr>)"

function chunk_frames :: "qt_lib \<Rightarrow> qstring \<Rightarrow> u32 \<Rightarrow> bytes \<Rightarrow> p2p_frame list" where
  "chunk_frames qt tid i d =
     (if d = [] then [] else chunk_frame qt tid i (take 65536 d) # chunk_frames qt tid (i + 1) (drop 65536 d))"
  by pat_completeness auto
termination
  by (relation "measure (\<lambda>(_, _, _, d). length d)") auto

declare chunk_frames.simps [simp del]

lemma ft_put_twice: "ft_put tid a (ft_put tid b st) = ft_put tid a st"
  by (simp add: ft_put_def)

text \<open>Reads give all that was asked for.\<close>

definition reads_fully :: "os \<Rightarrow> bool" where
  "reads_fully os \<longleftrightarrow> os_read os \<and> (\<forall>b. length b \<le> os_reads os b)"

lemma reads_fully_simps [simp]: "reads_fully os \<Longrightarrow> os_read os" "reads_fully os \<Longrightarrow> take (os_reads os b) b = b"
  by (simp_all add: reads_fully_def)

text \<open>The session while \<open>pos\<close> bytes of the source \<open>c\<close> have gone out.\<close>

definition streaming :: "ft \<Rightarrow> qstring \<Rightarrow> session \<Rightarrow> bytes \<Rightarrow> nat \<Rightarrow> bool" where
  "streaming st tid s c pos \<longleftrightarrow>
     qm_value (ft_sessions st) tid = Some s \<and> ts_state s = Transferring \<and> ts_handle s = Some (ReadHandle pos)
   \<and> ts_chunkSize s = 65536 \<and> ts_transferredBytes s = int pos \<and> ts_fileSize s = int (length c) \<and> pos \<le> length c
   \<and> fs_content (ft_fs st) (ts_sourceFilePath s) = c"

lemma sendNextChunk_more:
  assumes "streaming st tid s c pos" and "pos < length c" and "reads_fully os"
  shows "\<exists>st1 l1 ev1 s1. sendNextChunk qt os e tid (st, Some p) = ((st1, Some l1), ev1)
     \<and> sent_frames ev1 = [chunk_frame qt tid (ts_currentChunkIndex s) (take 65536 (drop pos c))]
     \<and> streaming st1 tid s1 c (pos + length (take 65536 (drop pos c)))
     \<and> ts_currentChunkIndex s1 = ts_currentChunkIndex s + 1 \<and> ts_expectedSha256 s1 = ts_expectedSha256 s
     \<and> ft_fs st1 = ft_fs st \<and> ft_pending st1 = ft_pending st @ [tid]"
proof -
  have "pos + min (length c - pos) 65536 \<le> length c" using assms(2) by simp
  then show ?thesis
    using assms
    by (simp add: streaming_def sendNextChunk_def Let_def ft_send_def link_send_def chunk_frame_def split: prod.split)
qed

lemma sendNextChunk_last:
  assumes "streaming st tid s c (length c)"
  shows "\<exists>st1 l1 ev1. sendNextChunk qt os e tid (st, Some p) = ((st1, Some l1), ev1)
     \<and> sent_frames ev1 = [complete_frame qt tid (ts_expectedSha256 s)]
     \<and> getTransferState st1 tid = Some Completed \<and> ft_fs st1 = ft_fs st \<and> ft_pending st1 = ft_pending st"
  using assms
  by (simp add: streaming_def sendNextChunk_def Let_def ft_send_def link_send_def complete_frame_def getTransferState_def
      split: prod.split)

lemma stream_out:
  assumes "streaming st tid s c pos" and "reads_fully os" and "ft_pending st = [tid]"
  shows "\<exists>st1 l1 ev. run_pendings qt os e (Suc (length (chunk_frames qt tid (ts_currentChunkIndex s) (drop pos c)))) (st, Some p)
      = ((st1, Some l1), ev)
    \<and> sent_frames ev = chunk_frames qt tid (ts_currentChunkIndex s) (drop pos c) @ [complete_frame qt tid (ts_expectedSha256 s)]
    \<and> getTransferState st1 tid = Some Completed \<and> ft_fs st1 = ft_fs st"
  using assms
proof (induction "length c - pos" arbitrary: st s pos p rule: less_induct)
  case less
  let ?st0 = "st\<lparr>ft_pending := []\<rparr>"
  have s0: "streaming ?st0 tid s c pos" using less.prems(1) by (simp add: streaming_def)
  have run: "run_pending qt os e (st, Some p) = sendNextChunk qt os e tid (?st0, Some p)"
    using less.prems(3) by (simp add: run_pending_def)
  show ?case
  proof (cases "pos < length c")
    case True
    let ?n = "length (take 65536 (drop pos c))"
    obtain st1 l1 ev1 s1 where s1: "sendNextChunk qt os e tid (?st0, Some p) = ((st1, Some l1), ev1)"
      "sent_frames ev1 = [chunk_frame qt tid (ts_currentChunkIndex s) (take 65536 (drop pos c))]"
      "streaming st1 tid s1 c (pos + ?n)" "ts_currentChunkIndex s1 = ts_currentChunkIndex s + 1"
      "ts_expectedSha256 s1 = ts_expectedSha256 s" "ft_fs st1 = ft_fs st" "ft_pending st1 = [tid]"
      using sendNextChunk_more [OF s0 True less.prems(2), of qt e p] by auto
    have cf: "chunk_frames qt tid (ts_currentChunkIndex s) (drop pos c)
        = chunk_frame qt tid (ts_currentChunkIndex s) (take 65536 (drop pos c))
          # chunk_frames qt tid (ts_currentChunkIndex s1) (drop (pos + ?n) c)"
    proof -
      have "drop 65536 (drop pos c) = drop (pos + ?n) c" using True by (simp add: min_def add.commute)
      then show ?thesis using True s1(4) by (subst chunk_frames.simps) simp
    qed
    have "length c - (pos + ?n) < length c - pos" using True by simp
    from less.hyps [OF this s1(3) less.prems(2) s1(7), of l1]
    obtain st2 l2 ev2 where r2: "run_pendings qt os e (Suc (length (chunk_frames qt tid (ts_currentChunkIndex s1) (drop (pos + ?n) c))))
        (st1, Some l1) = ((st2, Some l2), ev2)"
      "sent_frames ev2 = chunk_frames qt tid (ts_currentChunkIndex s1) (drop (pos + ?n) c)
         @ [complete_frame qt tid (ts_expectedSha256 s1)]"
      "getTransferState st2 tid = Some Completed" "ft_fs st2 = ft_fs st1" by blast
    show ?thesis
      unfolding cf using run s1 r2 by simp
  next
    case False
    then have pos: "pos = length c" using less.prems(1) by (simp add: streaming_def)
    obtain st1 l1 ev1 where "sendNextChunk qt os e tid (?st0, Some p) = ((st1, Some l1), ev1)"
      "sent_frames ev1 = [complete_frame qt tid (ts_expectedSha256 s)]"
      "getTransferState st1 tid = Some Completed" "ft_fs st1 = ft_fs st"
      using sendNextChunk_last [of ?st0 tid s c qt os e p] s0 pos by auto
    then show ?thesis
      using run pos by (simp add: chunk_frames.simps [of qt tid _ "[]"])
  qed
qed

text \<open>The receiver's session when it has hashed \<open>h\<close> and the temporary file holds \<open>k\<close>.\<close>

definition holding :: "ft \<Rightarrow> qstring \<Rightarrow> session \<Rightarrow> bytes \<Rightarrow> bytes \<Rightarrow> bool" where
  "holding st tid s h k \<longleftrightarrow>
     qm_value (ft_sessions st) tid = Some s \<and> ts_state s = Transferring \<and> ts_direction s = Incoming
   \<and> ts_handle s = Some WriteHandle \<and> ts_hashed s = h \<and> ft_fs st (ts_tempFilePath s) = Some k"

abbreviation storing :: "ft \<Rightarrow> qstring \<Rightarrow> session \<Rightarrow> bytes \<Rightarrow> bool" where
  "storing st tid s h \<equiv> holding st tid s h h"

lemma store_chunk:
  assumes "holding st tid s h k" and "utf8_ascii qt" and "chunk_id_ok tid" and "length tid \<le> 16"
    and "length d < 2 ^ 31 - 24"
  shows "\<exists>st1 s1 ev1. ft_onFrameReceivedFrom qt fl os e (chunk_frame qt tid (ts_currentChunkIndex s) d) (st, l) = ((st1, l), ev1)
    \<and> holding st1 tid s1 (h @ d) (k @ take (os_write os d) d) \<and> ts_currentChunkIndex s1 = ts_currentChunkIndex s + 1
    \<and> ts_tempFilePath s1 = ts_tempFilePath s \<and> ts_finalFilePath s1 = ts_finalFilePath s
    \<and> ts_expectedSha256 s1 = ts_expectedSha256 s
    \<and> ft_fs st1 = (ft_fs st)(ts_tempFilePath s \<mapsto> k @ take (os_write os d) d)"
proof -
  have "q_ascii tid" using assms(3) by (simp add: chunk_id_ok_def)
  then have dec: "FileChunk_decode qt (FileChunk_encode qt tid i d) = Some (tid, i, d)" for i
    using chunk_roundtrip [OF assms(2) _ _ assms(5), of tid i] assms(3,4) by simp
  show ?thesis
    using assms(1) dec
    by (simp add: ft_onFrameReceivedFrom_def chunk_frame_def frame_type_defs handleInboundFileChunk_def holding_def Let_def
        fs_content_def)
qed

lemma stream_in:
  assumes "utf8_ascii qt" and "chunk_id_ok tid" and "length tid \<le> 16" and "\<And>b. length b \<le> os_write os b"
  shows "storing st tid s h \<Longrightarrow> \<exists>st1 s1 ev1.
      ft_receive qt fl os e (chunk_frames qt tid (ts_currentChunkIndex s) d) (st, l) = ((st1, l), ev1)
    \<and> storing st1 tid s1 (h @ d) \<and> ts_tempFilePath s1 = ts_tempFilePath s \<and> ts_finalFilePath s1 = ts_finalFilePath s
    \<and> ts_expectedSha256 s1 = ts_expectedSha256 s \<and> ft_fs st1 = (ft_fs st)(ts_tempFilePath s \<mapsto> h @ d)"
proof (induction "length d" arbitrary: d st s h rule: less_induct)
  case less
  show ?case
  proof (cases "d = []")
    case True
    then show ?thesis using less.prems by (simp add: chunk_frames.simps holding_def fun_upd_idem)
  next
    case False
    have len: "length (take 65536 d) < 2 ^ 31 - 24" by simp
    have whole: "take (os_write os (take 65536 d)) (take 65536 d) = take 65536 d"
      by (rule take_all) (rule assms(4))
    obtain st1 s1 ev1 where c: "ft_onFrameReceivedFrom qt fl os e (chunk_frame qt tid (ts_currentChunkIndex s) (take 65536 d)) (st, l)
        = ((st1, l), ev1)"
      "storing st1 tid s1 (h @ take 65536 d)" "ts_currentChunkIndex s1 = ts_currentChunkIndex s + 1"
      "ts_tempFilePath s1 = ts_tempFilePath s" "ts_finalFilePath s1 = ts_finalFilePath s"
      "ts_expectedSha256 s1 = ts_expectedSha256 s" "ft_fs st1 = (ft_fs st)(ts_tempFilePath s \<mapsto> h @ take 65536 d)"
      using store_chunk [OF less.prems assms(1-3) len, where os = os and fl = fl and e = e and l = l]
      unfolding whole by blast
    have "length (drop 65536 d) < length d" using False by simp
    from less.hyps [OF this c(2)]
    obtain st2 s2 ev2 where r: "ft_receive qt fl os e (chunk_frames qt tid (ts_currentChunkIndex s1) (drop 65536 d)) (st1, l)
        = ((st2, l), ev2)" "storing st2 tid s2 ((h @ take 65536 d) @ drop 65536 d)"
      "ts_tempFilePath s2 = ts_tempFilePath s1" "ts_finalFilePath s2 = ts_finalFilePath s1"
      "ts_expectedSha256 s2 = ts_expectedSha256 s1"
      "ft_fs st2 = (ft_fs st1)(ts_tempFilePath s1 \<mapsto> (h @ take 65536 d) @ drop 65536 d)" by blast
    show ?thesis
      using False c r by (subst chunk_frames.simps) auto
  qed
qed


text \<open>The documented laws used, and an operating system that does what it is asked.\<close>

definition file_laws :: "qt_lib \<Rightarrow> file_lib \<Rightarrow> bool" where
  "file_laws qt fl \<longleftrightarrow> json_roundtrip qt \<and> utf8_ascii qt \<and> fileName_law qt \<and> (\<forall>x. fl_eq_ci fl x x)
     \<and> (\<forall>b. q_ascii (fl_sha256 fl b) \<and> fl_sha256 fl b \<noteq> [])"

definition os_fine :: "os \<Rightarrow> bool" where
  "os_fine os \<longleftrightarrow> os_open os \<and> reads_fully os \<and> os_rename os \<and> (\<forall>b. length b \<le> os_write os b)"

lemma hash_blocks_id: "hash_blocks acc rest = acc @ rest"
proof (induction acc rest rule: hash_blocks.induct)
  case (1 acc rest)
  then show ?case by (subst hash_blocks.simps) simp
qed

lemma FileOffer_toJson_wf:
  assumes "q_utf16 (fo_transferId f)" "q_utf16 (sanitizeFileName qt (fo_fileName f))" "q_utf16 (fo_sha256 f)"
    and "0 \<le> fo_fileSize f" "fo_fileSize f < 2 ^ 63" "- (2 ^ 31) \<le> fo_totalChunks f" "fo_totalChunks f < 2 ^ 31"
    and "fo_chunkSize f = DEFAULT_FILE_CHUNK_SIZE"
  shows "json_wf (FileOffer_toJson qt f)"
  using assms by (auto simp: FileOffer_toJson_def DEFAULT_FILE_CHUNK_SIZE_def intro!: wf_intros)

lemma sint_u32_range: "- (2 ^ 31) \<le> sint (w :: u32) \<and> sint w < 2 ^ 31"
  using sint_greater_eq [of w] sint_less [of w] by simp

text \<open>What \<open>sendFile\<close> leaves behind on a connected socket.\<close>

definition new_session :: "qstring \<Rightarrow> qstring \<Rightarrow> int \<Rightarrow> qstring \<Rightarrow> qstring \<Rightarrow> session" where
  "new_session tid name sz sha256 path =
     \<lparr>ts_transferId = tid, ts_fileName = name, ts_fileSize = sz, ts_expectedSha256 = sha256,
      ts_chunkSize = DEFAULT_FILE_CHUNK_SIZE,
      ts_totalChunks = (if sz = 0 then 0
        else sint (word_of_int ((sz + DEFAULT_FILE_CHUNK_SIZE - 1) div DEFAULT_FILE_CHUNK_SIZE) :: u32)),
      ts_direction = Outgoing, ts_state = Offering, ts_transferredBytes = 0, ts_currentChunkIndex = 0,
      ts_sourceFilePath = path, ts_tempFilePath = [], ts_finalFilePath = [], ts_handle = None, ts_hashed = []\<rparr>"

definition offer_of :: "session \<Rightarrow> file_offer" where
  "offer_of s = \<lparr>fo_transferId = ts_transferId s, fo_fileName = ts_fileName s, fo_fileSize = ts_fileSize s,
     fo_sha256 = ts_expectedSha256 s, fo_chunkSize = DEFAULT_FILE_CHUNK_SIZE, fo_totalChunks = ts_totalChunks s\<rparr>"

lemma sendFile_connected:
  fixes uuid :: qstring and qt :: qt_lib
  assumes "ft_fs st path = Some c" and "os_open os" "os_read os" and "fl_sha256 fl c \<noteq> []" and "isConnected p"
  defines "s \<equiv> new_session (generateTransferId uuid) (sanitizeFileName qt (path_fileName qt path)) (int (length c)) (fl_sha256 fl c) path"
  defines "f \<equiv> json_frame qt FtFileOffer (FileOffer_toJson qt (offer_of s))"
  shows "\<exists>l1 ev. sendFile qt fl os e uuid path ip (st, Some p)
      = ((ft_put (generateTransferId uuid) s st, Some l1), generateTransferId uuid, ev) \<and> sent_frames ev = [f]"
proof -
  have "calculateFileSha256 fl os (ft_fs st) path = fl_sha256 fl c"
    using assms(1-3) by (simp add: calculateFileSha256_def hash_blocks_id)
  moreover have "ft_connect e ip (x, Some p) = ((x, Some p), [])" for x
    using assms(5) by (simp add: ft_connect_def link_connect_def)
  ultimately show ?thesis
    using assms(1,4)
    by (simp add: sendFile_def Let_def ft_send_def link_send_def s_def f_def offer_of_def new_session_def split: prod.split)
qed

text \<open>Receiving the offer and accepting it.\<close>

lemma offer_accepted:
  fixes dir :: qstring
  assumes laws: "file_laws qt fl" and os: "os_fine os" and tid: "q_ascii tid" "tid \<noteq> []"
    and s: "s = new_session tid (sanitizeFileName qt name) (int (length c)) (fl_sha256 fl c) path"
    and name: "q_utf16 (sanitizeFileName qt name)" and len: "length c < 2 ^ 63"
  defines "final \<equiv> fl_filePath fl dir (sanitizeFileName qt name)" and "temp \<equiv> fl_filePath fl dir (qs ''.tmp_'' @ tid)"
  assumes dir: "dir \<noteq> []" and ne: "temp \<noteq> final"
  shows "\<exists>b1 b2 l2 ev r. ft_onFrameReceivedFrom qt fl os e (json_frame qt FtFileOffer (FileOffer_toJson qt (offer_of s))) (b, Some p)
       = ((b1, Some p), [FileOfferReceived (offer_of s)])
    \<and> acceptTransfer qt fl os e tid dir (b1, Some p) = ((b2, Some l2), True, ev)
    \<and> sent_frames ev = [json_frame qt FtFileAccept (FileAccept_toJson \<lparr>fa_transferId = tid\<rparr>)]
    \<and> (if c = [] then getTransferState b2 tid = Some Completed \<and> TransferCompleted tid final \<in> set ev
         \<and> ft_fs b2 = (ft_fs b)(temp := None, final := Some [])
       else storing b2 tid r [] \<and> ts_tempFilePath r = temp \<and> ts_finalFilePath r = final \<and> ts_currentChunkIndex r = 0
         \<and> ts_expectedSha256 r = fl_sha256 fl c \<and> ft_fs b2 = (ft_fs b)(temp := Some []))"
proof -
  have san: "sanitizeFileName qt (sanitizeFileName qt name) = sanitizeFileName qt name"
    using laws sanitize_safe_name [OF _ safe_sanitizeFileName] by (simp add: file_laws_def)
  have tc: "- (2 ^ 31) \<le> ts_totalChunks s \<and> ts_totalChunks s < 2 ^ 31"
    unfolding s new_session_def using sint_u32_range by auto
  have "json_wf (FileOffer_toJson qt (offer_of s))"
    using tid name len tc laws san
    by (intro FileOffer_toJson_wf) (auto simp: offer_of_def s new_session_def file_laws_def intro: q_ascii_utf16)
  then have "json_read qt (json_write qt (FileOffer_toJson qt (offer_of s))) = Some (FileOffer_toJson qt (offer_of s))"
    using laws by (simp add: file_laws_def json_roundtripD)
  moreover have "FileOffer_fromJson qt (FileOffer_toJson qt (offer_of s)) = Some (offer_of s)"
    using FileOffer_json [of qt "offer_of s"] laws tid tc san
    by (simp add: file_laws_def offer_of_def s new_session_def DEFAULT_FILE_CHUNK_SIZE_def)
  ultimately have offer: "Option.bind (json_read qt (json_write qt (FileOffer_toJson qt (offer_of s)))) (FileOffer_fromJson qt)
      = Some (offer_of s)" by simp
  show ?thesis
    using os dir ne offer
    by (auto simp: ft_onFrameReceivedFrom_def frame_type_defs handleInboundFileOffer_def acceptTransfer_def Let_def
        ft_send_def link_send_def holding_def os_fine_def move_into_place_def fs_rename_def fs_remove_def
        getTransferState_def offer_of_def s new_session_def san final_def temp_def DEFAULT_FILE_CHUNK_SIZE_def
        split: prod.split)
qed


lemma length_generateTransferId: "length (generateTransferId uuid) \<le> 16"
  by (simp add: generateTransferId_def qs_def)

lemma complete_wf:
  "file_laws qt fl \<Longrightarrow> q_ascii tid \<Longrightarrow>
     json_wf (FileComplete_toJson \<lparr>fc_transferId = tid, fc_sha256 = fl_sha256 fl c, fc_status = qs ''verified''\<rparr>)"
  unfolding FileComplete_toJson_def by (intro wf_intros) (simp_all add: file_laws_def q_ascii_utf16 q_ascii_qs)

lemma complete_received:
  assumes laws: "file_laws qt fl" and tid: "q_ascii tid" "tid \<noteq> []"
    and s: "holding st tid s c k" and ren: "os_rename os" and ne: "ts_tempFilePath s \<noteq> ts_finalFilePath s"
    and sha: "ts_expectedSha256 s = fl_sha256 fl c"
  shows "\<exists>st1. ft_onFrameReceivedFrom qt fl os e (complete_frame qt tid (fl_sha256 fl c)) (st, l)
       = ((st1, l), [TransferCompleted tid (ts_finalFilePath s)])
    \<and> getTransferState st1 tid = Some Completed
    \<and> ft_fs st1 = (ft_fs st)(ts_tempFilePath s := None, ts_finalFilePath s := Some k)"
proof -
  let ?fin = "\<lparr>fc_transferId = tid, fc_sha256 = fl_sha256 fl c, fc_status = qs ''verified''\<rparr>"
  have "json_wf (FileComplete_toJson ?fin)"
    using laws tid by (simp add: complete_wf)
  then have "json_read qt (json_write qt (FileComplete_toJson ?fin)) = Some (FileComplete_toJson ?fin)"
    using laws by (simp add: file_laws_def json_roundtripD)
  then have "Option.bind (json_read qt (json_write qt (FileComplete_toJson ?fin))) FileComplete_fromJson = Some ?fin"
    using tid laws by (simp add: FileComplete_json file_laws_def)
  then show ?thesis
    using s ren ne sha laws
    by (auto simp: ft_onFrameReceivedFrom_def complete_frame_def frame_type_defs handleInboundFileComplete_def Let_def
        holding_def move_into_place_def fs_rename_def fs_remove_def getTransferState_def file_laws_def)
qed

lemma complete_ignored:
  assumes "getTransferState st tid = Some Completed" and "file_laws qt fl" and "q_ascii tid" "tid \<noteq> []" and "sha = fl_sha256 fl c"
  shows "ft_onFrameReceivedFrom qt fl os e (complete_frame qt tid sha) (st, l) = ((st, l), [])"
proof -
  let ?fin = "\<lparr>fc_transferId = tid, fc_sha256 = sha, fc_status = qs ''verified''\<rparr>"
  have "json_wf (FileComplete_toJson ?fin)"
    using assms by (simp add: complete_wf)
  then have "Option.bind (json_read qt (json_write qt (FileComplete_toJson ?fin))) FileComplete_fromJson = Some ?fin"
    using assms by (simp add: file_laws_def json_roundtripD FileComplete_json)
  then show ?thesis
    using assms(1)
    by (auto simp: ft_onFrameReceivedFrom_def complete_frame_def frame_type_defs handleInboundFileComplete_def Let_def
        getTransferState_def)
qed

lemma ft_receive_append:
  "ft_receive qt fl os e (fs @ gs) s =
    (case ft_receive qt fl os e fs s of (s1, ev1) \<Rightarrow> case ft_receive qt fl os e gs s1 of (s2, ev2) \<Rightarrow> (s2, ev1 @ ev2))"
  by (induction fs arbitrary: s) (auto split: prod.splits)

text \<open>The sender streams the file once the peer has accepted.\<close>

lemma accept_starts:
  assumes "file_laws qt fl" and "q_ascii tid" "tid \<noteq> []" and "os_fine os"
    and "qm_value (ft_sessions a) tid = Some (new_session tid name n sha path)" and "ft_fs a path \<noteq> None"
  shows "ft_onFrameReceivedFrom qt fl os e (json_frame qt FtFileAccept (FileAccept_toJson \<lparr>fa_transferId = tid\<rparr>)) (a, l)
    = sendNextChunk qt os e tid
        (ft_put tid ((new_session tid name n sha path)\<lparr>ts_handle := Some (ReadHandle 0), ts_state := Transferring\<rparr>) a, l)"
proof -
  let ?acc = "\<lparr>fa_transferId = tid\<rparr>"
  have "json_wf (FileAccept_toJson ?acc)"
    using assms(2) by (auto simp: FileAccept_toJson_def intro!: wf_intros intro: q_ascii_utf16)
  then have "Option.bind (json_read qt (json_write qt (FileAccept_toJson ?acc))) FileAccept_fromJson = Some ?acc"
    using assms(1,3) by (simp add: file_laws_def json_roundtripD FileAccept_json)
  then show ?thesis
    using assms(4-6) by (auto simp: ft_onFrameReceivedFrom_def handleInboundFileAccept_def Let_def new_session_def os_fine_def)
qed

lemma accept_streams:
  assumes laws: "file_laws qt fl" and tid: "q_ascii tid" "tid \<noteq> []" and os: "os_fine os"
    and s: "qm_value (ft_sessions a) tid = Some (new_session tid name (int (length c)) sha path)"
    and src: "ft_fs a path = Some c" and pend: "ft_pending a = []"
  shows "\<exists>a2 la2 ev3 a3 la3 ev4.
      ft_onFrameReceivedFrom qt fl os e (json_frame qt FtFileAccept (FileAccept_toJson \<lparr>fa_transferId = tid\<rparr>)) (a, Some p)
        = ((a2, la2), ev3)
    \<and> run_pendings qt os e (length (chunk_frames qt tid 0 c)) (a2, la2) = ((a3, la3), ev4)
    \<and> sent_frames (ev3 @ ev4) = chunk_frames qt tid 0 c @ [complete_frame qt tid sha]
    \<and> getTransferState a3 tid = Some Completed"
proof -
  let ?acc = "\<lparr>fa_transferId = tid\<rparr>"
  let ?s = "(new_session tid name (int (length c)) sha path)\<lparr>ts_handle := Some (ReadHandle 0), ts_state := Transferring\<rparr>"
  have acc: "ft_onFrameReceivedFrom qt fl os e (json_frame qt FtFileAccept (FileAccept_toJson ?acc)) (a, Some p)
      = sendNextChunk qt os e tid (ft_put tid ?s a, Some p)"
    by (rule accept_starts [OF laws tid os s]) (simp add: src)
  let ?a = "(ft_put tid ?s a)\<lparr>ft_pending := [tid]\<rparr>"
  have st: "streaming ?a tid ?s c 0"
    using src by (simp add: streaming_def new_session_def DEFAULT_FILE_CHUNK_SIZE_def fs_content_def)
  have i0: "ts_currentChunkIndex ?s = 0" "ts_expectedSha256 ?s = sha" by (simp_all add: new_session_def)
  obtain a3 l3 ev where r: "run_pendings qt os e (Suc (length (chunk_frames qt tid 0 c))) (?a, Some p) = ((a3, Some l3), ev)"
    "sent_frames ev = chunk_frames qt tid 0 c @ [complete_frame qt tid sha]" "getTransferState a3 tid = Some Completed"
    using stream_out [OF st, of os qt e p] os by (auto simp: os_fine_def i0)
  have "run_pending qt os e (?a, Some p) = sendNextChunk qt os e tid (ft_put tid ?s a, Some p)"
    using pend by (cases a) (simp add: run_pending_def ft_put_def)
  then show ?thesis
    using r acc by (auto split: prod.splits)
qed

text \<open>
  C4: Offer, acceptance and the chunk loop bring a file across: when the frames arrive in
  order and no file operation fails, after finitely many timer ticks both sides are
  Completed and the destination holds exactly the bytes of the source, the temporary file
  being gone.
\<close>

theorem file_transfer_end_to_end:
  assumes laws: "file_laws qt fl" and os: "os_fine osa" "os_fine osb"
    and src: "ft_fs a path = Some c" "ft_pending a = []" "length c < 2 ^ 63" "isConnected pa"
    and tid: "chunk_id_ok (generateTransferId uuid)"
    and name: "name = sanitizeFileName qt (path_fileName qt path)" "q_utf16 name"
    and paths: "dir \<noteq> []" "fl_filePath fl dir (qs ''.tmp_'' @ generateTransferId uuid) \<noteq> fl_filePath fl dir name"
  shows "\<exists>a1 la1 ev1 offer b1 lb1 b2 lb2 ev2 accept a2 la2 ev3 n a3 la3 ev4 b3 lb3 ev5.
      sendFile qt fl osa ea uuid path ip (a, Some pa) = ((a1, la1), generateTransferId uuid, ev1) \<and> sent_frames ev1 = [offer]
    \<and> fst (ft_onFrameReceivedFrom qt fl osb eb offer (b, Some pb)) = (b1, lb1)
    \<and> acceptTransfer qt fl osb eb (generateTransferId uuid) dir (b1, lb1) = ((b2, lb2), True, ev2) \<and> sent_frames ev2 = [accept]
    \<and> ft_onFrameReceivedFrom qt fl osa ea accept (a1, la1) = ((a2, la2), ev3)
    \<and> run_pendings qt osa ea n (a2, la2) = ((a3, la3), ev4)
    \<and> ft_receive qt fl osb eb (sent_frames (ev3 @ ev4)) (b2, lb2) = ((b3, lb3), ev5)
    \<and> getTransferState a3 (generateTransferId uuid) = Some Completed
    \<and> getTransferState b3 (generateTransferId uuid) = Some Completed
    \<and> ft_fs b3 = (ft_fs b)(fl_filePath fl dir (qs ''.tmp_'' @ generateTransferId uuid) := None, fl_filePath fl dir name := Some c)"
proof -
  let ?tid = "generateTransferId uuid" and ?sha = "fl_sha256 fl c"
  let ?final = "fl_filePath fl dir name" and ?temp = "fl_filePath fl dir (qs ''.tmp_'' @ generateTransferId uuid)"
  let ?s = "new_session ?tid name (int (length c)) ?sha path"
  have t: "q_ascii ?tid" "?tid \<noteq> []" using tid by (simp_all add: chunk_id_ok_def)
  obtain la1 ev1 where send: "sendFile qt fl osa ea uuid path ip (a, Some pa) = ((ft_put ?tid ?s a, Some la1), ?tid, ev1)"
    "sent_frames ev1 = [json_frame qt FtFileOffer (FileOffer_toJson qt (offer_of ?s))]"
    using sendFile_connected [OF src(1) _ _ _ src(4), where os = osa and fl = fl and uuid = uuid and qt = qt and e = ea and ip = ip] os laws name(1)
    by (auto simp: os_fine_def file_laws_def)
  have "q_utf16 (sanitizeFileName qt (path_fileName qt path))" using name by simp
  from offer_accepted [OF laws os(2) t _ this src(3) paths(1), where path = path and e = eb and b = b and p = pb]
  obtain b1 b2 lb2 ev2 r where
    off: "ft_onFrameReceivedFrom qt fl osb eb (json_frame qt FtFileOffer (FileOffer_toJson qt (offer_of ?s))) (b, Some pb)
       = ((b1, Some pb), [FileOfferReceived (offer_of ?s)])"
    and acc: "acceptTransfer qt fl osb eb ?tid dir (b1, Some pb) = ((b2, Some lb2), True, ev2)"
      "sent_frames ev2 = [json_frame qt FtFileAccept (FileAccept_toJson \<lparr>fa_transferId = ?tid\<rparr>)]"
    and b2: "if c = [] then getTransferState b2 ?tid = Some Completed \<and> TransferCompleted ?tid ?final \<in> set ev2
         \<and> ft_fs b2 = (ft_fs b)(?temp := None, ?final := Some [])
       else storing b2 ?tid r [] \<and> ts_tempFilePath r = ?temp \<and> ts_finalFilePath r = ?final \<and> ts_currentChunkIndex r = 0
         \<and> ts_expectedSha256 r = ?sha \<and> ft_fs b2 = (ft_fs b)(?temp := Some [])"
    using paths(2) name(1) by blast
  obtain a2 la2 ev3 a3 la3 ev4 where str:
    "ft_onFrameReceivedFrom qt fl osa ea (json_frame qt FtFileAccept (FileAccept_toJson \<lparr>fa_transferId = ?tid\<rparr>))
       (ft_put ?tid ?s a, Some la1) = ((a2, la2), ev3)"
    "run_pendings qt osa ea (length (chunk_frames qt ?tid 0 c)) (a2, la2) = ((a3, la3), ev4)"
    "sent_frames (ev3 @ ev4) = chunk_frames qt ?tid 0 c @ [complete_frame qt ?tid ?sha]"
    "getTransferState a3 ?tid = Some Completed"
    using accept_streams [OF laws t os(1), of "ft_put ?tid ?s a" name c ?sha path ea la1] src by auto
  have "\<exists>b3 ev5. ft_receive qt fl osb eb (sent_frames (ev3 @ ev4)) (b2, Some lb2) = ((b3, Some lb2), ev5)
      \<and> getTransferState b3 ?tid = Some Completed \<and> ft_fs b3 = (ft_fs b)(?temp := None, ?final := Some c)"
  proof (cases "c = []")
    case True
    then have "ft_receive qt fl osb eb (sent_frames (ev3 @ ev4)) (b2, Some lb2) = ((b2, Some lb2), [])"
      using b2 str(3) complete_ignored [OF _ laws t refl, where st = b2 and os = osb and e = eb and l = "Some lb2" and c = c] by (simp add: chunk_frames.simps)
    then show ?thesis using b2 True by auto
  next
    case False
    have w: "length x \<le> os_write osb x" for x using os(2) by (simp add: os_fine_def)
    obtain b3 r3 ev where in1: "ft_receive qt fl osb eb (chunk_frames qt ?tid 0 c) (b2, Some lb2) = ((b3, Some lb2), ev)"
      "storing b3 ?tid r3 c" "ts_tempFilePath r3 = ?temp" "ts_finalFilePath r3 = ?final" "ts_expectedSha256 r3 = ?sha"
      "ft_fs b3 = (ft_fs b)(?temp := Some c)"
      using stream_in [OF _ tid length_generateTransferId w, where qt = qt and st = b2 and s = r and h = "[]" and fl = fl
          and e = eb and d = c and l = "Some lb2"] b2 False laws
      by (auto simp: file_laws_def)
    obtain b4 where "ft_onFrameReceivedFrom qt fl osb eb (complete_frame qt ?tid ?sha) (b3, Some lb2)
        = ((b4, Some lb2), [TransferCompleted ?tid ?final])" "getTransferState b4 ?tid = Some Completed"
      "ft_fs b4 = (ft_fs b)(?temp := None, ?final := Some c)"
      using complete_received [OF laws t in1(2), where os = osb and e = eb and l = "Some lb2"] in1 os(2) paths(2) by (auto simp: os_fine_def)
    then show ?thesis
      using in1(1) str(3) by (simp add: ft_receive_append)
  qed
  then show ?thesis using send off acc str by fastforce
qed


text \<open>A concrete library and system for the witnesses.\<close>

definition fl0 :: file_lib where
  "fl0 = \<lparr>fl_sha256 = (\<lambda>b. if b = [] then qs ''e3b0'' else qs ''039058''), fl_eq_ci = (=),
     fl_filePath = (\<lambda>d n. d @ slash # n), fl_downloads = qs ''/dl''\<rparr>"

definition os0 :: os where
  "os0 = \<lparr>os_open = True, os_read = True, os_reads = length, os_write = length, os_rename = True\<rparr>"

lemma file_laws_0: "file_laws qt0 fl0"
  using json_roundtrip_qt0 utf8_ascii_qt0 fileName_law_qt0
  by (simp add: file_laws_def fl0_def q_ascii_qs)

lemma os0_reads: "reads_fully os0"
  by (simp add: reads_fully_def os0_def)

lemma os0_fine: "os_fine os0"
  using os0_reads by (simp add: os_fine_def os0_def)

lemma tid0: "generateTransferId (qs ''0123456789abcdef'') = qs ''ft_0123456789abc''"
proof -
  have "q_replace (qs ''-'') [] (qs ''0123456789abcdef'') = qs ''0123456789abcdef''"
    using q_replace_absent [of "0x2D" "qs ''0123456789abcdef''" "[]"] by (simp add: qs_def)
  then show ?thesis by (simp add: generateTransferId_def qs_def)
qed

lemma tid0_ok: "chunk_id_ok (qs ''ft_0123456789abc'')"
proof -
  have "q_ascii (qs ''ft_0123456789abc'')" by (simp add: q_ascii_qs)
  moreover have "qs ''ft_0123456789abc'' \<noteq> [] \<and> 0 \<notin> set (qs ''ft_0123456789abc'')
      \<and> \<not> q_isSpace (hd (qs ''ft_0123456789abc'')) \<and> \<not> q_isSpace (last (qs ''ft_0123456789abc''))"
    by (simp add: qs_def q_isSpace_def word_le_nat_alt)
  ultimately show ?thesis by (simp add: chunk_id_ok_def)
qed

lemma name0: "sanitizeFileName qt0 (path_fileName qt0 (qs ''a.txt'')) = qs ''a.txt''"
proof -
  have "slash \<notin> set (qs ''a.txt'')" by (simp add: qs_def)
  then have "path_fileName qt0 (qs ''a.txt'') = qs ''a.txt''" using fileName_law_qt0 by (simp add: fileName_law_def)
  moreover have "safe_name (qs ''a.txt'')"
    by (simp add: safe_name_def qs_def no_dotdot_Cons q_isSpace_def word_le_nat_alt)
  ultimately show ?thesis using sanitize_safe_name [OF fileName_law_qt0] by simp
qed

theorem file_transfer_end_to_end_witness:
  "\<exists>b3. getTransferState b3 (qs ''ft_0123456789abc'') = Some Completed \<and> ft_fs b3 (qs ''/dl/a.txt'') = Some [1, 2, 3]"
proof -
  let ?a = "ft_init [qs ''a.txt'' \<mapsto> [1, 2, 3]]" and ?p = "p2p_init\<lparr>sk_state := P2PConnected, sk_tcp := ConnectedState\<rparr>"
  have paths: "fl_filePath fl0 (qs ''/dl'') (qs ''.tmp_'' @ generateTransferId (qs ''0123456789abcdef''))
      \<noteq> fl_filePath fl0 (qs ''/dl'') (qs ''a.txt'')"
    by (simp add: fl0_def tid0) (simp add: qs_def)
  have fin: "fl_filePath fl0 (qs ''/dl'') (qs ''a.txt'') = qs ''/dl/a.txt''"
    by (simp add: fl0_def qs_def)
  have "isConnected ?p" by (simp add: isConnected_def)
  moreover have "ft_fs ?a (qs ''a.txt'') = Some [1, 2, 3]" "ft_pending ?a = []" by (simp_all add: ft_init_def)
  moreover have "q_utf16 (qs ''a.txt'')" by (simp add: q_ascii_utf16 q_ascii_qs)
  ultimately show ?thesis
    using file_transfer_end_to_end [OF file_laws_0 os0_fine os0_fine, of ?a "qs ''a.txt''" "[1, 2, 3]" ?p
        "qs ''0123456789abcdef''" "qs ''a.txt''" "qs ''/dl''"] paths fin tid0_ok
    by (auto simp: tid0 name0) (metis fun_upd_same)
qed

text \<open>
  C8: In every state any inputs can lead to, a completed download is empty or the hash of
  the bytes received is the one offered, unless an offer with its transfer id came while a
  chunk of an own sending under that id was still scheduled (reused_id_skips_verification
  shows that this exception is real); a running download has counted exactly the bytes it
  hashed.
\<close>

theorem completed_download_is_verified:
  assumes "ft_reach qt fl X st" and "qm_value (ft_sessions st) tid = Some s" and "ts_direction s = Incoming"
  shows "(ts_state s = Completed \<longrightarrow> tid \<in> X \<or> ts_fileSize s = 0
        \<or> fl_eq_ci fl (fl_sha256 fl (ts_hashed s)) (ts_expectedSha256 s))
    \<and> (ts_state s = Transferring \<longrightarrow> ts_transferredBytes s = int (length (ts_hashed s)))"
  using ft_inv_session [OF ft_reach_inv [OF assms(1)] assms(2)] assms(3) by (auto simp: session_ok_def)

text \<open>
  The exception is real: an offer for a transfer whose next chunk is scheduled, once accepted, is
  completed by that call and announced as completed, with nothing received and an empty
  temporary file left behind.
\<close>

theorem reused_id_skips_verification:
  assumes "ft_pending st = tid # tids" and "Option.bind (json_read qt body) (FileOffer_fromJson qt) = Some offer"
    and "fo_transferId offer = tid" and "fo_fileSize offer \<noteq> 0" and "os_open os"
    and "handleInboundFileOffer qt body st = (st1, ev1)"
    and "acceptTransfer qt fl os e tid dir (st1, l) = ((st2, l2), ok, ev2)"
    and "run_pending qt os' e' (st2, l2) = ((st3, l3), ev3)"
  shows "ok \<and> (\<exists>s. qm_value (ft_sessions st3) tid = Some s \<and> ts_direction s = Incoming \<and> ts_state s = Completed
        \<and> ts_fileSize s \<noteq> 0 \<and> ts_transferredBytes s = 0 \<and> ts_hashed s = []
        \<and> ft_fs st3 (ts_tempFilePath s) = Some [])
    \<and> TransferCompleted tid [] \<in> set ev3 \<and> ft_fs st3 = ft_fs st2"
  using assms
  by (auto simp: handleInboundFileOffer_def acceptTransfer_def run_pending_def sendNextChunk_def ft_send_eq Let_def ft_put_twice
      split: if_splits)

text \<open>
  When the hash of the received bytes is not the one offered, the transfer fails with one
  signal and the temporary file is removed, no other file being touched.
\<close>

theorem corrupted_file_discarded:
  assumes "Option.bind (json_read qt body) FileComplete_fromJson = Some fin"
    and "qm_value (ft_sessions st) (fc_transferId fin) = Some s"
    and "ts_direction s = Incoming" and "ts_state s = Transferring" and "ts_tempFilePath s \<noteq> []"
    and "\<not> fl_eq_ci fl (fl_sha256 fl (ts_hashed s)) (ts_expectedSha256 s)"
    and "handleInboundFileComplete qt fl os body st = (st', ev)"
  shows "getTransferState st' (fc_transferId fin) = Some TFailed \<and> ev = [TransferFailed (fc_transferId fin)]
    \<and> ft_fs st' = (ft_fs st)(ts_tempFilePath s := None)"
  using assms
  by (auto simp: handleInboundFileComplete_def Let_def cleanupSession_def getTransferState_def fs_remove_def)

text \<open>
  A chunk with the expected index is counted; one with any other index fails the transfer
  and removes the temporary file.
\<close>

theorem out_of_order_chunk_fails:
  assumes "FileChunk_decode qt body = Some (tid, i, d)" and "qm_value (ft_sessions st) tid = Some s"
    and "ts_direction s = Incoming" and "ts_state s = Transferring" and "ts_tempFilePath s \<noteq> []"
    and "handleInboundFileChunk qt os body st = (st', ev)"
  shows "if i = ts_currentChunkIndex s
    then getTransferState st' tid = Some Transferring \<and> getTransferredBytes st' tid = ts_transferredBytes s + int (length d)
    else getTransferState st' tid = Some TFailed \<and> ev = [TransferFailed tid] \<and> ft_fs st' (ts_tempFilePath s) = None"
  using assms
  by (auto simp: handleInboundFileChunk_def Let_def cleanupSession_def getTransferState_def getTransferredBytes_def
      fs_remove_def split: if_splits)

text \<open>
  A file offer always starts a fresh incoming session under its id, also when a session with
  this id is running; no other session and no file changes.
\<close>

theorem offer_replaces_session:
  assumes "Option.bind (json_read qt body) (FileOffer_fromJson qt) = Some offer"
    and "handleInboundFileOffer qt body st = (st', ev)"
  shows "(\<exists>s. qm_value (ft_sessions st') (fo_transferId offer) = Some s \<and> ts_direction s = Incoming
      \<and> ts_state s = Offering \<and> ts_handle s = None \<and> ts_transferredBytes s = 0
      \<and> ts_fileName s = sanitizeFileName qt (fo_fileName offer))
    \<and> (\<forall>tid. tid \<noteq> fo_transferId offer \<longrightarrow> qm_value (ft_sessions st') tid = qm_value (ft_sessions st) tid)
    \<and> ft_fs st' = ft_fs st \<and> ev = [FileOfferReceived offer]"
  using assms by (auto simp: handleInboundFileOffer_def)

text \<open>
  C35: When the file system takes only part of a chunk, the transfer still completes as
  verified, with the file on disk shorter than the one sent: the hash is over the bytes
  received.
\<close>

theorem short_write_undetected:
  assumes "file_laws qt fl" and "chunk_id_ok tid" and "length tid \<le> 16" and "storing st tid s h"
    and "length d < 2 ^ 31 - 24" and "os_rename os" and "ts_tempFilePath s \<noteq> ts_finalFilePath s"
    and "ts_expectedSha256 s = fl_sha256 fl (h @ d)"
  shows "\<exists>st' ev. ft_receive qt fl os e [chunk_frame qt tid (ts_currentChunkIndex s) d,
        complete_frame qt tid (fl_sha256 fl (h @ d))] (st, l) = ((st', l), ev)
    \<and> getTransferState st' tid = Some Completed
    \<and> ft_fs st' (ts_finalFilePath s) = Some (h @ take (os_write os d) d)"
proof -
  have u: "utf8_ascii qt" and t: "q_ascii tid" "tid \<noteq> []"
    using assms(1,2) by (simp_all add: file_laws_def chunk_id_ok_def)
  obtain st1 s1 ev1 where c: "ft_onFrameReceivedFrom qt fl os e (chunk_frame qt tid (ts_currentChunkIndex s) d) (st, l) = ((st1, l), ev1)"
    "holding st1 tid s1 (h @ d) (h @ take (os_write os d) d)" "ts_tempFilePath s1 = ts_tempFilePath s"
    "ts_finalFilePath s1 = ts_finalFilePath s" "ts_expectedSha256 s1 = ts_expectedSha256 s"
    using store_chunk [OF assms(4) u assms(2,3,5)] by blast
  then show ?thesis
    using complete_received [OF assms(1) t c(2) assms(6), where e = e and l = l] assms(7,8) by auto
qed

section \<open>Witnesses\<close>

definition quiet0 :: call_env where
  "quiet0 = \<lparr>ce_now = 1000, ce_deviceId = qs ''dev-b'', ce_wr = (\<lambda>n b. int (length b)), ce_sync = True\<rparr>"

definition half_session :: session where
  "half_session = \<lparr>ts_transferId = qs ''ft_0123456789abc'', ts_fileName = qs ''a.txt'', ts_fileSize = 3,
     ts_expectedSha256 = fl_sha256 fl0 [1, 2, 3], ts_chunkSize = 65536, ts_totalChunks = 1, ts_direction = Incoming,
     ts_state = Transferring, ts_transferredBytes = 0, ts_currentChunkIndex = 0, ts_sourceFilePath = [],
     ts_tempFilePath = qs ''/dl/.tmp'', ts_finalFilePath = qs ''/dl/a.txt'', ts_handle = Some WriteHandle, ts_hashed = []\<rparr>"

definition half_state :: ft where
  "half_state = \<lparr>ft_sessions = [(qs ''ft_0123456789abc'', half_session)], ft_pending = [], ft_fs = [qs ''/dl/.tmp'' \<mapsto> []]\<rparr>"

lemma half_lookup: "qm_value (ft_sessions half_state) (qs ''ft_0123456789abc'') = Some half_session"
  by (simp add: half_state_def qm_value_def)

lemma half_storing: "storing half_state (qs ''ft_0123456789abc'') half_session []"
  using half_lookup by (simp add: holding_def half_session_def) (simp add: half_state_def)

lemma complete_parsed:
  "Option.bind (json_read qt0 (payload (complete_frame qt0 (qs ''ft_0123456789abc'') (fl_sha256 fl0 c)))) FileComplete_fromJson
     = Some \<lparr>fc_transferId = qs ''ft_0123456789abc'', fc_sha256 = fl_sha256 fl0 c, fc_status = qs ''verified''\<rparr>"
  using complete_wf [OF file_laws_0, of "qs ''ft_0123456789abc''" c] file_laws_0
  by (simp add: complete_frame_def file_laws_def json_roundtripD FileComplete_json q_ascii_qs)

theorem corrupted_file_discarded_witness:
  "getTransferState (fst (handleInboundFileComplete qt0 fl0 os0
      (payload (complete_frame qt0 (qs ''ft_0123456789abc'') (fl_sha256 fl0 [1, 2, 3]))) half_state))
      (qs ''ft_0123456789abc'') = Some TFailed"
proof -
  obtain st' ev where h: "handleInboundFileComplete qt0 fl0 os0
      (payload (complete_frame qt0 (qs ''ft_0123456789abc'') (fl_sha256 fl0 [1, 2, 3]))) half_state = (st', ev)" by fastforce
  have "getTransferState st' (qs ''ft_0123456789abc'') = Some TFailed"
    using corrupted_file_discarded [OF complete_parsed _ _ _ _ _ h, of half_session] half_lookup
    by (simp add: half_session_def fl0_def)
  then show ?thesis using h by simp
qed

lemma chunk_parsed:
  "FileChunk_decode qt0 (FileChunk_encode qt0 (qs ''ft_0123456789abc'') i [1, 2, 3]) = Some (qs ''ft_0123456789abc'', i, [1, 2, 3])"
proof -
  have t: "take 16 (qs ''ft_0123456789abc'') = qs ''ft_0123456789abc''" by (simp add: qs_def)
  show ?thesis
    using chunk_roundtrip [OF utf8_ascii_qt0, of "qs ''ft_0123456789abc''" "[1, 2, 3]" i] tid0_ok t
    by (simp add: chunk_id_ok_def)
qed

theorem out_of_order_chunk_fails_witness:
  "getTransferState (fst (handleInboundFileChunk qt0 os0 (FileChunk_encode qt0 (qs ''ft_0123456789abc'') 1 [1, 2, 3]) half_state))
     (qs ''ft_0123456789abc'') = Some TFailed"
proof -
  obtain st' ev where h: "handleInboundFileChunk qt0 os0 (FileChunk_encode qt0 (qs ''ft_0123456789abc'') 1 [1, 2, 3]) half_state = (st', ev)"
    by fastforce
  show ?thesis
    using out_of_order_chunk_fails [OF chunk_parsed half_lookup _ _ _ h] h by (simp add: half_session_def)
qed

lemma short_offer:
  "\<exists>body offer. Option.bind (json_read qt0 body) (FileOffer_fromJson qt0) = Some offer
     \<and> fo_transferId offer = qs ''ft_0123456789abc'' \<and> fo_fileSize offer \<noteq> 0"
proof -
  let ?f = "offer_of (new_session (qs ''ft_0123456789abc'') (qs ''a.txt'') 3 (qs ''ab'') [])"
  have "sanitizeFileName qt0 (qs ''a.txt'') = qs ''a.txt''"
    using name0 fileName_law_qt0 by (simp add: fileName_law_def qs_def)
  then have "json_wf (FileOffer_toJson qt0 ?f)"
    by (intro FileOffer_toJson_wf) (simp_all add: offer_of_def new_session_def q_ascii_utf16 q_ascii_qs
        DEFAULT_FILE_CHUNK_SIZE_def)
  then have "json_read qt0 (json_write qt0 (FileOffer_toJson qt0 ?f)) = Some (FileOffer_toJson qt0 ?f)"
    using json_roundtrip_qt0 by (simp add: json_roundtripD)
  then show ?thesis
    using FileOffer_json [OF fileName_law_qt0, of ?f]
    by (intro exI [of _ "json_write qt0 (FileOffer_toJson qt0 ?f)"]) (simp add: offer_of_def new_session_def)
qed

theorem offer_replaces_session_witness:
  "\<exists>body. getTransferState (fst (handleInboundFileOffer qt0 body half_state)) (qs ''ft_0123456789abc'') = Some Offering"
proof -
  obtain body offer where b: "Option.bind (json_read qt0 body) (FileOffer_fromJson qt0) = Some offer"
    "fo_transferId offer = qs ''ft_0123456789abc''" using short_offer by blast
  obtain st' ev where h: "handleInboundFileOffer qt0 body half_state = (st', ev)" by fastforce
  show ?thesis
    using offer_replaces_session [OF b(1) h] b(2) h by (intro exI [of _ body]) (auto simp: getTransferState_def)
qed

theorem reused_id_skips_verification_witness:
  "\<exists>body st2 l2 ok ev2. acceptTransfer qt0 fl0 os0 quiet0 (qs ''ft_0123456789abc'') (qs ''/dl'')
      (fst (handleInboundFileOffer qt0 body (half_state\<lparr>ft_pending := [qs ''ft_0123456789abc'']\<rparr>)), None) = ((st2, l2), ok, ev2)
    \<and> getTransferState (fst (fst (run_pending qt0 os0 quiet0 (st2, l2)))) (qs ''ft_0123456789abc'') = Some Completed"
proof -
  let ?tid = "qs ''ft_0123456789abc''" and ?st = "half_state\<lparr>ft_pending := [qs ''ft_0123456789abc'']\<rparr>"
  obtain body offer where b: "Option.bind (json_read qt0 body) (FileOffer_fromJson qt0) = Some offer"
    "fo_transferId offer = ?tid" "fo_fileSize offer \<noteq> 0" using short_offer by blast
  obtain st1 ev1 where 1: "handleInboundFileOffer qt0 body ?st = (st1, ev1)" by fastforce
  obtain st2 l2 ok ev2 where 2: "acceptTransfer qt0 fl0 os0 quiet0 ?tid (qs ''/dl'') (st1, None) = ((st2, l2), ok, ev2)"
    by (metis surj_pair)
  obtain st3 l3 ev3 where 3: "run_pending qt0 os0 quiet0 (st2, l2) = ((st3, l3), ev3)" by (metis surj_pair)
  have "getTransferState st3 ?tid = Some Completed"
    using reused_id_skips_verification [OF _ b _ 1 2 3] by (auto simp: os0_def getTransferState_def)
  with 1 2 3 show ?thesis by (intro exI [of _ body] exI [of _ st2] exI [of _ l2] exI [of _ ok] exI [of _ ev2]) simp
qed

theorem short_write_undetected_witness:
  "\<exists>st' ev. ft_receive qt0 fl0 (os0\<lparr>os_write := \<lambda>b. 1\<rparr>) quiet0 [chunk_frame qt0 (qs ''ft_0123456789abc'') 0 [1, 2, 3],
      complete_frame qt0 (qs ''ft_0123456789abc'') (fl_sha256 fl0 [1, 2, 3])] (half_state, None) = ((st', None), ev)
     \<and> getTransferState st' (qs ''ft_0123456789abc'') = Some Completed \<and> ft_fs st' (qs ''/dl/a.txt'') = Some [1]"
  using short_write_undetected [OF file_laws_0 tid0_ok _ half_storing, of "[1, 2, 3]" "os0\<lparr>os_write := \<lambda>b. 1\<rparr>" quiet0 None]
  by (simp add: half_session_def os0_def qs_def)


text \<open>A download of three bytes, step by step from the start.\<close>

theorem completed_download_is_verified_witness:
  "\<exists>(st :: ft) s. qm_value (ft_sessions st) (qs ''ft_0123456789abc'') = Some s \<and> ts_state s = Transferring
     \<and> ts_hashed s = [1, 2, 3] \<and> ts_transferredBytes s = 3"
proof -
  let ?tid = "qs ''ft_0123456789abc''" and ?c = "[1, 2, 3] :: bytes"
  let ?s = "new_session ?tid (sanitizeFileName qt0 (qs ''a.txt'')) (int (length ?c)) (fl_sha256 fl0 ?c) []"
  let ?p = "p2p_init" and ?off = "json_frame qt0 FtFileOffer (FileOffer_toJson qt0 (offer_of ?s))"
  have san: "sanitizeFileName qt0 (qs ''a.txt'') = qs ''a.txt''"
    using name0 fileName_law_qt0 by (simp add: fileName_law_def qs_def)
  have t: "q_ascii ?tid" "?tid \<noteq> []" by (simp_all add: q_ascii_qs)
  have ne: "fl_filePath fl0 (qs ''/dl'') (qs ''.tmp_'' @ ?tid) \<noteq> fl_filePath fl0 (qs ''/dl'') (sanitizeFileName qt0 (qs ''a.txt''))"
    by (simp add: san fl0_def) (simp add: qs_def)
  obtain b1 b2 l2 ev r where o: "ft_onFrameReceivedFrom qt0 fl0 os0 quiet0 ?off (ft_init Map.empty, Some ?p)
      = ((b1, Some ?p), [FileOfferReceived (offer_of ?s)])"
    "acceptTransfer qt0 fl0 os0 quiet0 ?tid (qs ''/dl'') (b1, Some ?p) = ((b2, Some l2), True, ev)"
    "storing b2 ?tid r []" "ts_currentChunkIndex r = 0" "ts_expectedSha256 r = fl_sha256 fl0 ?c"
    "ts_tempFilePath r \<noteq> ts_finalFilePath r"
    using offer_accepted [OF file_laws_0 os0_fine t refl _ _ _ ne, where e = quiet0 and b = "ft_init Map.empty" and p = ?p and c = ?c
        and path = "[]"] ne by (fastforce simp: san q_ascii_utf16 q_ascii_qs)
  obtain b3 r3 ev3 where c: "ft_onFrameReceivedFrom qt0 fl0 os0 quiet0 (chunk_frame qt0 ?tid 0 ?c) (b2, Some l2) = ((b3, Some l2), ev3)"
    "holding b3 ?tid r3 ?c ?c" "ts_expectedSha256 r3 = fl_sha256 fl0 ?c" "ts_tempFilePath r3 \<noteq> ts_finalFilePath r3"
    using store_chunk [OF o(3) utf8_ascii_qt0 tid0_ok, where d = ?c and os = os0 and fl = fl0 and e = quiet0 and l = "Some l2"] o(4-6)
    by (fastforce simp: os0_def qs_def)
  have "ft_reach qt0 fl0 {} b1"
    by (rule ft_reach_step [OF ft_reach.init, where os = os0 and e = quiet0 and fs = Map.empty and l = "Some ?p" and i = "FtFrameArrived ?off"])
      (use o(1) in \<open>simp_all add: ft_init_def split: option.split\<close>)
  then have "ft_reach qt0 fl0 {} b2"
    by (rule ft_reach_step [where i = "AcceptTransfer ?tid (qs ''/dl'')" and os = os0 and e = quiet0 and fs = "ft_fs b1" and l = "Some ?p"])
      (use o(2) in simp_all)
  then have "ft_reach qt0 fl0 {} b3"
    by (rule ft_reach_step [where i = "FtFrameArrived (chunk_frame qt0 ?tid 0 ?c)" and os = os0 and e = quiet0 and fs = "ft_fs b2" and l = "Some l2"])
      (use c(1) in \<open>simp_all add: chunk_frame_def frame_type_defs\<close>)
  then show ?thesis
    using completed_download_is_verified [of qt0 fl0 "{}" b3 ?tid r3] c(2) by (auto simp: holding_def)
qed

section \<open>The chunk timer stops\<close>

text \<open>
  Every chunk schedules the next one. \<open>run_ticks\<close> lets the event loop run \<open>n\<close> scheduled calls, each in an
  environment of its own.
\<close>

fun run_ticks :: "qt_lib \<Rightarrow> (nat \<Rightarrow> os \<times> call_env) \<Rightarrow> nat \<Rightarrow> ft_link \<Rightarrow> ft_link" where
  "run_ticks qt env 0 s = s"
| "run_ticks qt env (Suc n) s = run_ticks qt (env \<circ> Suc) n (fst (run_pending qt (fst (env 0)) (snd (env 0)) s))"

definition bytes_left :: "ft \<Rightarrow> qstring \<Rightarrow> nat" where
  "bytes_left st tid = (case qm_value (ft_sessions st) tid of Some s \<Rightarrow> nat (ts_fileSize s - ts_transferredBytes s) | None \<Rightarrow> 0)"

text \<open>The calls scheduled, and the bytes not yet sent or received in all transfers.\<close>

definition chunk_work :: "ft \<Rightarrow> nat" where
  "chunk_work st = length (ft_pending st) + (\<Sum>tid \<in> set (qm_keys (ft_sessions st)). bytes_left st tid)"

lemma sendNextChunk_effect:
  assumes "sendNextChunk qt os e tid (st, l) = ((st', l'), ev)"
    and "\<And>s. qm_value (ft_sessions st) tid = Some s \<Longrightarrow> 0 \<le> ts_transferredBytes s"
  shows "st' = st \<or> (\<exists>s s'. qm_value (ft_sessions st) tid = Some s \<and> ft_sessions st' = qm_insert tid s' (ft_sessions st)
    \<and> ts_fileSize s' = ts_fileSize s
    \<and> (ft_pending st' = ft_pending st \<and> ts_transferredBytes s' = ts_transferredBytes s
       \<or> ft_pending st' = ft_pending st @ [tid] \<and> ts_transferredBytes s < ts_transferredBytes s'
         \<and> ts_transferredBytes s < ts_fileSize s))"
proof (cases "qm_value (ft_sessions st) tid")
  case None
  then show ?thesis using assms(1) by (simp add: sendNextChunk_def)
next
  case (Some s)
  show ?thesis
  proof (cases "ts_handle s = None \<or> ts_state s \<noteq> Transferring")
    case True
    then show ?thesis using assms(1) Some by (auto simp: sendNextChunk_def split: option.splits)
  next
    case False
    then obtain h where h: "ts_handle s = Some h" "ts_state s = Transferring" by (cases "ts_handle s") auto
    let ?next = "\<lambda>n (d :: bytes). s\<lparr>ts_transferredBytes := ts_transferredBytes s + int (length d),
      ts_currentChunkIndex := ts_currentChunkIndex s + 1, ts_handle := Some (ReadHandle n)\<rparr>"
    have "st' = ft_put tid (s\<lparr>ts_handle := None, ts_state := Completed\<rparr>) st \<or> st' = ft_put tid (s\<lparr>ts_state := TFailed\<rparr>) st
      \<or> (\<exists>n d. st' = ft_put tid (?next n d) st\<lparr>ft_pending := ft_pending st @ [tid]\<rparr>
          \<and> \<not> (d = [] \<and> ts_fileSize s > 0) \<and> \<not> ts_transferredBytes s \<ge> ts_fileSize s)"
    proof (cases h)
      case WriteHandle
      then show ?thesis using assms(1) Some h by (simp add: sendNextChunk_def Let_def ft_send_eq ft_put_twice)
    next
      case (ReadHandle pos)
      let ?c = "fs_content (ft_fs st) (ts_sourceFilePath s)"
      define d where "d = (if os_read os then (let wanted = take (nat (ts_chunkSize s)) (drop pos ?c) in take (os_reads os wanted) wanted) else [])"
      have "st' = (if pos \<ge> length ?c \<or> ts_transferredBytes s \<ge> ts_fileSize s then ft_put tid (s\<lparr>ts_handle := None, ts_state := Completed\<rparr>) st
        else if d = [] \<and> ts_fileSize s > 0 then ft_put tid (s\<lparr>ts_state := TFailed\<rparr>) st
        else ft_put tid (?next (pos + length d) d) st\<lparr>ft_pending := ft_pending st @ [tid]\<rparr>)"
        using assms(1) Some h ReadHandle by (auto simp: sendNextChunk_def Let_def ft_send_eq ft_put_twice d_def)
      then consider "st' = ft_put tid (s\<lparr>ts_handle := None, ts_state := Completed\<rparr>) st" | "st' = ft_put tid (s\<lparr>ts_state := TFailed\<rparr>) st"
        | "st' = ft_put tid (?next (pos + length d) d) st\<lparr>ft_pending := ft_pending st @ [tid]\<rparr>"
            "\<not> (d = [] \<and> ts_fileSize s > 0)" "\<not> ts_transferredBytes s \<ge> ts_fileSize s"
        by (simp split: if_splits)
      then show ?thesis by cases blast+
    qed
    moreover have "0 \<le> ts_transferredBytes s" using assms(2) Some .
    ultimately consider "st' = ft_put tid (s\<lparr>ts_handle := None, ts_state := Completed\<rparr>) st"
      | "st' = ft_put tid (s\<lparr>ts_state := TFailed\<rparr>) st"
      | n d where "st' = ft_put tid (?next n d) st\<lparr>ft_pending := ft_pending st @ [tid]\<rparr>" "d \<noteq> []"
          "ts_transferredBytes s < ts_fileSize s" by fastforce
    then show ?thesis
    proof cases
      case 1
      with Some show ?thesis by (intro disjI2 exI [of _ s] exI [of _ "s\<lparr>ts_handle := None, ts_state := Completed\<rparr>"]) simp
    next
      case 2
      with Some show ?thesis by (intro disjI2 exI [of _ s] exI [of _ "s\<lparr>ts_state := TFailed\<rparr>"]) simp
    next
      case 3
      with Some show ?thesis by (intro disjI2 exI [of _ s] exI [of _ "?next n d"]) simp
    qed
  qed
qed

lemma work_update:
  assumes "qm_value (ft_sessions st) tid = Some s" and "ft_sessions st' = qm_insert tid s' (ft_sessions st)"
  shows "(\<Sum>i \<in> set (qm_keys (ft_sessions st')). bytes_left st' i) + nat (ts_fileSize s - ts_transferredBytes s)
    = (\<Sum>i \<in> set (qm_keys (ft_sessions st)). bytes_left st i) + nat (ts_fileSize s' - ts_transferredBytes s')"
proof -
  let ?K = "set (qm_keys (ft_sessions st))"
  have mem: "tid \<in> ?K" using assms(1) qm_contains_iff [of "ft_sessions st" tid] by (simp add: qm_contains_def)
  have keys: "set (qm_keys (ft_sessions st')) = ?K" using mem assms(2) by auto
  have "(\<Sum>i \<in> ?K - {tid}. bytes_left st' i) = (\<Sum>i \<in> ?K - {tid}. bytes_left st i)"
    using assms(2) by (intro sum.cong) (auto simp: bytes_left_def)
  moreover have "bytes_left st' tid = nat (ts_fileSize s' - ts_transferredBytes s')"
    "bytes_left st tid = nat (ts_fileSize s - ts_transferredBytes s)"
    using assms by (simp_all add: bytes_left_def)
  ultimately show ?thesis
    unfolding keys using mem sum.remove [of ?K tid "bytes_left st'"] sum.remove [of ?K tid "bytes_left st"] by simp
qed

lemma tick_decreases:
  assumes "ft_inv fl X st" and "ft_pending st \<noteq> []"
  shows "chunk_work (fst (fst (run_pending qt os e (st, l)))) < chunk_work st"
proof -
  obtain tid tids where p: "ft_pending st = tid # tids" using assms(2) by (cases "ft_pending st") auto
  let ?st0 = "st\<lparr>ft_pending := tids\<rparr>"
  obtain st' l' ev where r: "sendNextChunk qt os e tid (?st0, l) = ((st', l'), ev)" by (metis surj_pair)
  have run: "fst (fst (run_pending qt os e (st, l))) = st'" by (simp add: run_pending_def p r)
  have left: "(\<Sum>i \<in> set (qm_keys (ft_sessions ?st0)). bytes_left ?st0 i) = (\<Sum>i \<in> set (qm_keys (ft_sessions st)). bytes_left st i)"
    by (simp add: bytes_left_def)
  have "0 \<le> ts_transferredBytes s" if "qm_value (ft_sessions ?st0) tid = Some s" for s
    using that session_ok_counted [OF ft_inv_session [OF assms(1)]] by simp
  from sendNextChunk_effect [OF r this]
  consider "st' = ?st0"
    | s s' where "qm_value (ft_sessions ?st0) tid = Some s" "ft_sessions st' = qm_insert tid s' (ft_sessions ?st0)"
        "ft_pending st' = tids" "ts_fileSize s' = ts_fileSize s" "ts_transferredBytes s' = ts_transferredBytes s"
    | s s' where "qm_value (ft_sessions ?st0) tid = Some s" "ft_sessions st' = qm_insert tid s' (ft_sessions ?st0)"
        "ft_pending st' = tids @ [tid]" "ts_fileSize s' = ts_fileSize s"
        "ts_transferredBytes s < ts_transferredBytes s'" "ts_transferredBytes s < ts_fileSize s"
    by auto
  then show ?thesis
  proof cases
    case 1
    then show ?thesis unfolding run chunk_work_def using left p by simp
  next
    case 2
    then show ?thesis unfolding run chunk_work_def using left p work_update [OF 2(1,2)] by simp
  next
    case 3
    have "nat (ts_fileSize s' - ts_transferredBytes s') < nat (ts_fileSize s - ts_transferredBytes s)" using 3(4-6) by simp
    moreover note work_update [OF 3(1,2)]
    ultimately have "(\<Sum>i \<in> set (qm_keys (ft_sessions st')). bytes_left st' i) < (\<Sum>i \<in> set (qm_keys (ft_sessions st)). bytes_left st i)"
      unfolding left by linarith
    then show ?thesis unfolding run chunk_work_def using p 3(3) by simp
  qed
qed

lemma ticks_idle: "ft_pending st = [] \<Longrightarrow> run_ticks qt env n (st, l) = (st, l)"
  by (induction n arbitrary: env) (simp_all add: run_pending_def)

lemma ticks_drain:
  "ft_inv fl X st \<Longrightarrow> chunk_work st \<le> n \<Longrightarrow> ft_pending (fst (run_ticks qt env n (st, l))) = []"
proof (induction n arbitrary: st l env)
  case 0
  then show ?case by (simp add: chunk_work_def)
next
  case (Suc n)
  obtain st' l' ev where r: "run_pending qt (fst (env 0)) (snd (env 0)) (st, l) = ((st', l'), ev)" by (metis surj_pair)
  show ?case
  proof (cases "ft_pending st = []")
    case True
    then show ?thesis by (simp add: ticks_idle del: run_ticks.simps)
  next
    case False
    then have "chunk_work st' \<le> n"
      using tick_decreases [OF Suc.prems(1) False, of qt "fst (env 0)" "snd (env 0)" l] r Suc.prems(2) by simp
    then show ?thesis using Suc.IH [of st' "env \<circ> Suc" l'] inv_run_pending [OF Suc.prems(1) r] r by (simp add: comp_def)
  qed
qed

text \<open>
  C26: From every reachable state the chain of scheduled chunk transmissions ends: after as
  many timer events as there are calls scheduled and bytes left, nothing is scheduled any
  more, whatever the file system and the socket do in each.
\<close>

theorem chunk_timer_terminates:
  assumes "ft_reach qt fl X st" and "chunk_work st \<le> n"
  shows "ft_pending (fst (run_ticks qt env n (st, l))) = []"
  by (rule ticks_drain [OF ft_reach_inv [OF assms(1)] assms(2)])


theorem chunk_timer_terminates_witness:
  "\<exists>st. ft_pending st = [qs ''ft_0123456789abc'']
    \<and> ft_pending (fst (run_ticks qt0 (\<lambda>n. (os0\<lparr>os_read := even n\<rparr>, quiet0)) (chunk_work st) (st, None))) = []"
proof -
  let ?tid = "qs ''ft_0123456789abc''" and ?c = "[1, 2, 3] :: bytes" and ?p = "p2p_init\<lparr>sk_state := P2PConnected\<rparr>"
  let ?fs = "[qs ''a.txt'' \<mapsto> ?c]"
  let ?s = "new_session ?tid (sanitizeFileName qt0 (path_fileName qt0 (qs ''a.txt''))) (int (length ?c)) (fl_sha256 fl0 ?c) (qs ''a.txt'')"
  let ?a = "ft_put ?tid ?s (ft_init ?fs)"
  have t: "q_ascii ?tid" "?tid \<noteq> []" by (simp_all add: q_ascii_qs)
  have "ft_fs (ft_init ?fs) (qs ''a.txt'') = Some ?c" "isConnected ?p" "os_open os0" "os_read os0" "fl_sha256 fl0 ?c \<noteq> []"
    by (simp_all add: ft_init_def isConnected_def os0_def fl0_def)
  then obtain l1 ev1 where send: "sendFile qt0 fl0 os0 quiet0 (qs ''0123456789abcdef'') (qs ''a.txt'') [] (ft_init ?fs, Some ?p)
      = ((?a, Some l1), ?tid, ev1)"
    using sendFile_connected [where fl = fl0 and os = os0 and p = ?p and st = "ft_init ?fs" and path = "qs ''a.txt''" and c = ?c
        and uuid = "qs ''0123456789abcdef''" and e = quiet0 and qt = qt0 and ip = "[]"] by (auto simp: tid0)
  have r1: "ft_reach qt0 fl0 {} ?a"
    by (rule ft_reach_step [OF ft_reach.init [of _ _ ?fs], where i = "SendFile (qs ''0123456789abcdef'') (qs ''a.txt'') []" and os = os0
          and e = quiet0 and fs = ?fs and l = "Some ?p"])
      (use send in \<open>simp_all add: ft_init_def\<close>)
  let ?f = "json_frame qt0 FtFileAccept (FileAccept_toJson \<lparr>fa_transferId = ?tid\<rparr>)"
  let ?s1 = "?s\<lparr>ts_handle := Some (ReadHandle 0), ts_state := Transferring\<rparr>"
  have start: "ft_onFrameReceivedFrom qt0 fl0 os0 quiet0 ?f (?a, Some ?p) = sendNextChunk qt0 os0 quiet0 ?tid (ft_put ?tid ?s1 ?a, Some ?p)"
    by (rule accept_starts [OF file_laws_0 t os0_fine]) (simp_all add: ft_init_def)
  have "streaming (ft_put ?tid ?s1 ?a) ?tid ?s1 ?c 0"
    by (simp add: streaming_def new_session_def DEFAULT_FILE_CHUNK_SIZE_def fs_content_def ft_init_def)
  from sendNextChunk_more [OF this, of os0 qt0 quiet0 ?p]
  obtain st l2 ev2 where st: "sendNextChunk qt0 os0 quiet0 ?tid (ft_put ?tid ?s1 ?a, Some ?p) = ((st, Some l2), ev2)" "ft_pending st = [?tid]"
    by (auto simp: os0_reads ft_init_def)
  have "ft_reach qt0 fl0 {} st"
    by (rule ft_reach_step [OF r1, where i = "FtFrameArrived ?f" and os = os0 and e = quiet0 and fs = ?fs and l = "Some ?p"])
      (use start st(1) in \<open>simp_all add: frame_type_defs ft_init_def ft_put_def\<close>)
  then show ?thesis
    using chunk_timer_terminates [where fl = fl0 and X = "{}" and n = "chunk_work st"] st(2) by blast
qed

end
