(* ===== verification/Mqtt.thy ===== *)
theory Mqtt
  imports MqttCodec P2PSocket
begin

text \<open>
  \<open>MqttSignalingClient\<close> of src/network/mqtt_signaling.cpp: the presence and discovery
  client over TLS. The state is the record \<open>mqtt\<close>; a slot or call returns the new state and
  the signals and socket writes it makes. What one call sees of the configuration, the clock
  and the random generator is the record \<open>mq_env\<close>. TLS itself is the environment: bytes
  written to the socket are events, and the socket state changes by the inputs of \<open>mq_step\<close>.
  \<open>abort()\<close> on an open connection emits \<open>disconnected\<close> before it returns.
\<close>

section \<open>State\<close>

datatype mqtt_state = MqDisconnected | MqConnecting | MqConnected | MqSubscribing | MqReady

record mqtt =
  mq_tcp :: sock_state
  mq_pingTimer :: bool
  mq_pingTimeout :: bool
  mq_reconnect :: "int option"
  mq_buffer :: bytes
  mq_state :: mqtt_state
  mq_host :: qstring
  mq_port :: int
  mq_nextPacketId :: u16
  mq_attempts :: int
  mq_intentional :: bool
  mq_pingOutstanding :: bool

record mq_env =
  me_deviceId :: qstring
  me_displayName :: qstring
  me_brokerHost :: qstring
  me_brokerPort :: int
  me_now :: int
  me_uuid :: qstring
  me_random :: int                    \<comment> \<open>\<open>bounded(200)\<close>\<close>
  me_sync :: bool                     \<comment> \<open>whether \<open>disconnectFromHost\<close> closes at once\<close>

datatype mqtt_event =
    MqStateChanged mqtt_state
  | MqConnectedSignal
  | MqDisconnectedSignal
  | DeviceDiscovered device
  | DeviceLeft qstring
  | DiscoveryRequested qstring
  | MqError
  | Written bytes
  | ConnectToHostEncrypted qstring u16
  | ConfigSetDeviceId qstring

definition MAX_SIGNALING_PAYLOAD_SIZE :: nat where "MAX_SIGNALING_PAYLOAD_SIZE = 65536"
definition DEFAULT_KEEPALIVE_SECONDS :: u16 where "DEFAULT_KEEPALIVE_SECONDS = 60"
definition INITIAL_RECONNECT_MS :: int where "INITIAL_RECONNECT_MS = 1000"
definition MAX_RECONNECT_MS :: int where "MAX_RECONNECT_MS = 60000"

definition CONNECT :: u8 where "CONNECT = 0x10"
definition CONNACK :: u8 where "CONNACK = 0x20"
definition PUBLISH :: u8 where "PUBLISH = 0x30"
definition PUBACK :: u8 where "PUBACK = 0x40"
definition SUBSCRIBE :: u8 where "SUBSCRIBE = 0x82"
definition SUBACK :: u8 where "SUBACK = 0x90"
definition PINGREQ :: u8 where "PINGREQ = 0xC0"
definition PINGRESP :: u8 where "PINGRESP = 0xD0"
definition DISCONNECT :: u8 where "DISCONNECT = 0xE0"

lemmas packet_types = CONNECT_def CONNACK_def PUBLISH_def PUBACK_def SUBSCRIBE_def SUBACK_def PINGREQ_def
  PINGRESP_def DISCONNECT_def

definition mqtt_init :: mqtt where
  "mqtt_init = \<lparr>mq_tcp = UnconnectedState, mq_pingTimer = False, mq_pingTimeout = False, mq_reconnect = None,
     mq_buffer = [], mq_state = MqDisconnected, mq_host = [], mq_port = 8883, mq_nextPacketId = 1, mq_attempts = 0,
     mq_intentional = False, mq_pingOutstanding = False\<rparr>"

text \<open>One statement after the other.\<close>

definition mq_then :: "mqtt \<times> mqtt_event list \<Rightarrow> (mqtt \<Rightarrow> mqtt \<times> mqtt_event list) \<Rightarrow> mqtt \<times> mqtt_event list" where
  "mq_then r f = (case r of (s, ev) \<Rightarrow> case f s of (s', ev') \<Rightarrow> (s', ev @ ev'))"

definition mq_setState :: "mqtt_state \<Rightarrow> mqtt \<Rightarrow> mqtt \<times> mqtt_event list" where
  "mq_setState st s = (if mq_state s \<noteq> st then (s\<lparr>mq_state := st\<rparr>, [MqStateChanged st]) else (s, []))"

definition mq_isConnected :: "mqtt \<Rightarrow> bool" where
  "mq_isConnected s = (mq_state s = MqReady)"

definition nextPacketId :: "mqtt \<Rightarrow> mqtt \<times> u16" where
  "nextPacketId s = (let i = (if mq_nextPacketId s = 0 then 1 else mq_nextPacketId s) in (s\<lparr>mq_nextPacketId := i + 1\<rparr>, i))"

section \<open>Reconnecting\<close>

definition scheduleReconnect :: "mq_env \<Rightarrow> mqtt \<Rightarrow> mqtt" where
  "scheduleReconnect e s =
    (if mq_reconnect s \<noteq> None then s
     else
      let backoff = min (INITIAL_RECONNECT_MS * 2 ^ nat (min (mq_attempts s) 6)) MAX_RECONNECT_MS;
          jitter = me_random e - 100 in
      s\<lparr>mq_attempts := mq_attempts s + 1, mq_reconnect := Some (max 1000 (backoff + jitter))\<rparr>)"

definition resetReconnect :: "mqtt \<Rightarrow> mqtt" where
  "resetReconnect s = s\<lparr>mq_attempts := 0, mq_reconnect := None\<rparr>"

definition mq_onSocketDisconnected :: "mq_env \<Rightarrow> mqtt \<Rightarrow> mqtt \<times> mqtt_event list" where
  "mq_onSocketDisconnected e s =
    (case mq_setState MqDisconnected
        (s\<lparr>mq_pingTimer := False, mq_pingTimeout := False, mq_pingOutstanding := False, mq_buffer := []\<rparr>)
     of (s1, ev) \<Rightarrow> (if \<not> mq_intentional s1 then scheduleReconnect e s1 else s1, ev @ [MqDisconnectedSignal]))"

definition mq_abort :: "mq_env \<Rightarrow> mqtt \<Rightarrow> mqtt \<times> mqtt_event list" where
  "mq_abort e s =
    (if mq_tcp s = ConnectedState \<or> mq_tcp s = ClosingState
     then mq_onSocketDisconnected e (s\<lparr>mq_tcp := UnconnectedState\<rparr>)
     else (s\<lparr>mq_tcp := UnconnectedState\<rparr>, []))"

definition connectToBroker :: "mq_env \<Rightarrow> qstring \<Rightarrow> int \<Rightarrow> mqtt \<Rightarrow> mqtt \<times> mqtt_event list" where
  "connectToBroker e host port s =
    (let s0 = s\<lparr>mq_host := (if host = [] then me_brokerHost e else host),
               mq_port := (if port = 0 then me_brokerPort e else port), mq_intentional := False\<rparr> in
     mq_then (if mq_tcp s0 \<noteq> UnconnectedState then mq_abort e s0 else (s0, []))
       (\<lambda>s1. mq_then (mq_setState MqConnecting (s1\<lparr>mq_buffer := []\<rparr>))
         (\<lambda>s2. (s2\<lparr>mq_tcp := ConnectingState\<rparr>, [ConnectToHostEncrypted (mq_host s2) (word_of_int (mq_port s2))]))))"

definition onReconnectTimer :: "mq_env \<Rightarrow> mqtt \<Rightarrow> mqtt \<times> mqtt_event list" where
  "onReconnectTimer e s = (if mq_intentional s then (s, []) else connectToBroker e (mq_host s) (mq_port s) s)"

section \<open>Sending\<close>

definition connect_body :: "qt_lib \<Rightarrow> qstring \<Rightarrow> bytes" where
  "connect_body qt localId =
    encodeUtf8String qt (qs ''MQTT'') @ [0x04, 0x2E] @ be16 DEFAULT_KEEPALIVE_SECONDS
    @ encodeUtf8String qt localId
    @ encodeUtf8String qt (qs ''meckchat/v1/presence/offline/'' @ localId)
    @ (let willPayload = json_write qt (qm_insert ''device_id'' (JStr localId)
             (qm_insert ''type'' (JStr (qs ''presence_offline'')) [])) in
       be16 (of_nat (length willPayload)) @ willPayload)"

definition sendConnect :: "qt_lib \<Rightarrow> mq_env \<Rightarrow> mqtt \<Rightarrow> mqtt \<times> mqtt_event list" where
  "sendConnect qt e s =
    (if isValidDeviceId (me_deviceId e) then (s, [Written (mqtt_packet CONNECT (connect_body qt (me_deviceId e)))])
     else let localId = qs ''mc_'' @ me_uuid e in
       (s, [ConfigSetDeviceId localId, Written (mqtt_packet CONNECT (connect_body qt localId))]))"

definition sendSubscribe :: "qt_lib \<Rightarrow> (qstring \<times> u8) list \<Rightarrow> mqtt \<Rightarrow> mqtt \<times> mqtt_event list" where
  "sendSubscribe qt topics s =
    (if topics = [] \<or> mq_tcp s \<noteq> ConnectedState then (s, [])
     else case nextPacketId s of (s1, packetId) \<Rightarrow>
       (s1, [Written (mqtt_packet SUBSCRIBE
          (be16 packetId @ concat (map (\<lambda>(topic, qos). encodeUtf8String qt topic @ [qos AND 3]) topics)))]))"

definition publish_header :: "u8 \<Rightarrow> bool \<Rightarrow> u8" where
  "publish_header qos retain = (if retain then PUBLISH OR 1 else PUBLISH) OR push_bit 1 (qos AND 3)"

definition sendPublish :: "qt_lib \<Rightarrow> qstring \<Rightarrow> bytes \<Rightarrow> u8 \<Rightarrow> bool \<Rightarrow> mqtt \<Rightarrow> mqtt \<times> mqtt_event list" where
  "sendPublish qt topic body qos retain s =
    (if \<not> isValidTopic topic \<or> mq_tcp s \<noteq> ConnectedState then (s, [])
     else case (if qos > 0 then (case nextPacketId s of (s1, i) \<Rightarrow> (s1, be16 i)) else (s, [])) of (s1, ident) \<Rightarrow>
       (s1, [Written (mqtt_packet (publish_header qos retain) (encodeUtf8String qt topic @ ident @ body))]))"

definition sendPuback :: "u16 \<Rightarrow> mqtt \<Rightarrow> mqtt \<times> mqtt_event list" where
  "sendPuback packetId s = (s, [Written (PUBACK # encodeVariableLength 2 @ be16 packetId)])"

definition sendPingreq :: "mqtt \<Rightarrow> mqtt \<times> mqtt_event list" where
  "sendPingreq s = (s, [Written [PINGREQ, 0]])"

definition sendDisconnect :: "mqtt \<Rightarrow> mqtt \<times> mqtt_event list" where
  "sendDisconnect s = (s, [Written [DISCONNECT, 0]])"

definition publishOnlinePresence :: "qt_lib \<Rightarrow> mq_env \<Rightarrow> device \<Rightarrow> mqtt \<Rightarrow> mqtt \<times> mqtt_event list" where
  "publishOnlinePresence qt e localDevice s =
    (if \<not> isValidDeviceId (dev_deviceId localDevice) then (s, [])
     else sendPublish qt (qs ''meckchat/v1/presence/online/'' @ dev_deviceId localDevice)
       (json_write qt (toPresenceOnlineJson (me_now e) localDevice)) 1 True s)"

definition publishOfflinePresence :: "qt_lib \<Rightarrow> qstring \<Rightarrow> mqtt \<Rightarrow> mqtt \<times> mqtt_event list" where
  "publishOfflinePresence qt deviceId s =
    (if \<not> isValidDeviceId deviceId then (s, [])
     else sendPublish qt (qs ''meckchat/v1/presence/offline/'' @ deviceId)
       (json_write qt (qm_insert ''device_id'' (JStr deviceId) (qm_insert ''type'' (JStr (qs ''presence_offline'')) []))) 1 True s)"

definition broadcastDiscoveryRequest :: "qt_lib \<Rightarrow> mq_env \<Rightarrow> qstring \<Rightarrow> mqtt \<Rightarrow> mqtt \<times> mqtt_event list" where
  "broadcastDiscoveryRequest qt e deviceId s =
    (if \<not> isValidDeviceId deviceId then (s, [])
     else sendPublish qt (qs ''meckchat/v1/discovery'')
       (json_write qt (DiscoveryRequest_toJson (me_now e) \<lparr>dr_deviceId = deviceId, dr_timestamp = me_now e\<rparr>)) 1 False s)"

text \<open>The device this client announces; the time of last contact is that of its construction.\<close>

definition local_device :: "mq_env \<Rightarrow> device" where
  "local_device e = \<lparr>dev_deviceId = me_deviceId e, dev_displayName = me_displayName e, dev_platform = Linux,
     dev_lastSeen = 0, dev_isOnline = True, dev_virtualIp = []\<rparr>"

section \<open>Receiving\<close>

definition handleConnack :: "qt_lib \<Rightarrow> mq_env \<Rightarrow> bytes \<Rightarrow> mqtt \<Rightarrow> mqtt \<times> mqtt_event list" where
  "handleConnack qt e data s =
    (if length data < 2 then mq_abort e s
     else if data ! 1 \<noteq> 0 then mq_then (mq_abort e s) (\<lambda>s1. (s1, [MqError]))
     else mq_then (mq_setState MqSubscribing s)
       (\<lambda>s1. mq_then (sendSubscribe qt [(qs ''meckchat/v1/presence/online/+'', 1),
            (qs ''meckchat/v1/presence/offline/+'', 1), (qs ''meckchat/v1/discovery'', 1)] s1)
         (\<lambda>s2. (s2\<lparr>mq_pingTimer := True\<rparr>, []))))"

definition handleSuback :: "qt_lib \<Rightarrow> mq_env \<Rightarrow> bytes \<Rightarrow> mqtt \<Rightarrow> mqtt \<times> mqtt_event list" where
  "handleSuback qt e data s =
    (if length data < 3 then (s, [])
     else mq_then (mq_setState MqReady s)
       (\<lambda>s1. mq_then (resetReconnect s1, [MqConnectedSignal])
         (publishOnlinePresence qt e (local_device e))))"

text \<open>A received PUBACK is only logged.\<close>

definition handlePuback :: "bytes \<Rightarrow> mqtt \<Rightarrow> mqtt \<times> mqtt_event list" where
  "handlePuback data s = (s, [])"

definition handlePingresp :: "mqtt \<Rightarrow> mqtt \<times> mqtt_event list" where
  "handlePingresp s = (s\<lparr>mq_pingOutstanding := False, mq_pingTimeout := False\<rparr>, [])"

definition processReceivedPayload :: "qt_lib \<Rightarrow> mq_env \<Rightarrow> qstring \<Rightarrow> bytes \<Rightarrow> mqtt \<Rightarrow> mqtt \<times> mqtt_event list" where
  "processReceivedPayload qt e topic body s =
    (case json_read qt body of
       None \<Rightarrow> (s, [])
     | Some obj \<Rightarrow>
       let deviceId = j_string obj ''device_id'' [] in
       if \<not> isValidDeviceId deviceId then (s, [])
       else if deviceId = me_deviceId e then (s, [])
       else if q_startsWith topic (qs ''meckchat/v1/presence/online/'') then
         (case fromPresenceJson qt (me_now e) obj of
            Some dev \<Rightarrow> if dev_deviceId dev = deviceId then (s, [DeviceDiscovered dev]) else (s, [])
          | None \<Rightarrow> (s, []))
       else if q_startsWith topic (qs ''meckchat/v1/presence/offline/'') then (s, [DeviceLeft deviceId])
       else if topic = qs ''meckchat/v1/discovery'' then
         (case DiscoveryRequest_fromJson obj of
            Some req \<Rightarrow>
              if dr_deviceId req = deviceId
              then mq_then (s, [DiscoveryRequested deviceId]) (publishOnlinePresence qt e (local_device e))
              else (s, [])
          | None \<Rightarrow> (s, []))
       else (s, []))"

definition handlePublish :: "qt_lib \<Rightarrow> mq_env \<Rightarrow> u8 \<Rightarrow> bytes \<Rightarrow> mqtt \<Rightarrow> mqtt \<times> mqtt_event list" where
  "handlePublish qt e header data s =
    (let qos = drop_bit 1 header AND 3 in
     case decodeUtf8String qt data 0 of
       None \<Rightarrow> (s, [])
     | Some (topic, offset) \<Rightarrow>
       if qos > 0 \<and> offset + 2 > length data then (s, [])
       else mq_then (if qos > 0 then sendPuback (rd16 data offset) s else (s, []))
         (\<lambda>s1. let body = drop (if qos > 0 then offset + 2 else offset) data in
            if length body > MAX_SIGNALING_PAYLOAD_SIZE then (s1, [])
            else processReceivedPayload qt e topic body s1))"

text \<open>The \<open>switch\<close> of \<open>processIncomingData\<close>.\<close>

definition handle_packet :: "qt_lib \<Rightarrow> mq_env \<Rightarrow> u8 \<Rightarrow> bytes \<Rightarrow> mqtt \<Rightarrow> mqtt \<times> mqtt_event list" where
  "handle_packet qt e header body s =
    (let packetType = header AND 0xF0 in
     if packetType = CONNACK then handleConnack qt e body s
     else if packetType = PUBLISH then handlePublish qt e header body s
     else if packetType = PUBACK then handlePuback body s
     else if packetType = SUBACK then handleSuback qt e body s
     else if packetType = PINGRESP then handlePingresp s
     else (s, []))"

text \<open>What a handler leaves alone: the receive buffer, unless it closes the connection.\<close>

lemma mq_then_simps [simp]:
  "mq_then (s, ev) f = (fst (f s), ev @ snd (f s))"
  "fst (mq_then r f) = fst (f (fst r))"
  "snd (mq_then r f) = snd r @ snd (f (fst r))"
  by (simp_all add: mq_then_def case_prod_beta)

lemma mq_setState_fst [simp]: "fst (mq_setState st s) = s\<lparr>mq_state := st\<rparr>"
  by (simp add: mq_setState_def)

lemma mq_scheduleReconnect_simps [simp]:
  "mq_tcp (scheduleReconnect e s) = mq_tcp s" "mq_buffer (scheduleReconnect e s) = mq_buffer s"
  "mq_state (scheduleReconnect e s) = mq_state s" "mq_pingTimer (scheduleReconnect e s) = mq_pingTimer s"
  "mq_pingTimeout (scheduleReconnect e s) = mq_pingTimeout s" "mq_intentional (scheduleReconnect e s) = mq_intentional s"
  "mq_pingOutstanding (scheduleReconnect e s) = mq_pingOutstanding s" "mq_host (scheduleReconnect e s) = mq_host s"
  "mq_reconnect (scheduleReconnect e s) \<noteq> None"
  by (simp_all add: scheduleReconnect_def Let_def)

lemma mq_disconnected_simps [simp]:
  "mq_tcp (fst (mq_onSocketDisconnected e s)) = mq_tcp s" "mq_buffer (fst (mq_onSocketDisconnected e s)) = []"
  "mq_state (fst (mq_onSocketDisconnected e s)) = MqDisconnected"
  "mq_pingTimer (fst (mq_onSocketDisconnected e s)) = False" "mq_pingTimeout (fst (mq_onSocketDisconnected e s)) = False"
  "mq_intentional (fst (mq_onSocketDisconnected e s)) = mq_intentional s"
  by (auto simp: mq_onSocketDisconnected_def case_prod_beta)

lemma mq_abort_simps [simp]:
  "mq_tcp (fst (mq_abort e s)) = UnconnectedState"
  "mq_intentional (fst (mq_abort e s)) = mq_intentional s"
  "mq_buffer (fst (mq_abort e s)) = mq_buffer s \<or> mq_buffer (fst (mq_abort e s)) = []"
  by (simp_all add: mq_abort_def)

text \<open>A send touches nothing but the packet id.\<close>

definition only_ids :: "mqtt \<Rightarrow> mqtt \<Rightarrow> bool" where
  "only_ids s s' \<longleftrightarrow> (\<exists>i. s' = s\<lparr>mq_nextPacketId := i\<rparr>)"

lemma only_ids_refl [simp]: "only_ids s s"
  unfolding only_ids_def by (intro exI [of _ "mq_nextPacketId s"]) simp

lemma only_ids_sendPublish [simp]: "only_ids s (fst (sendPublish qt t b q r s))"
  by (auto simp: sendPublish_def nextPacketId_def Let_def only_ids_def split: prod.splits)
    (metis mqtt.surjective mqtt.update_convs(9))+

lemma only_ids_sendSubscribe [simp]: "only_ids s (fst (sendSubscribe qt ts s))"
  by (auto simp: sendSubscribe_def nextPacketId_def Let_def only_ids_def split: prod.splits)
    (metis mqtt.surjective mqtt.update_convs(9))+

lemma only_ids_online [simp]: "only_ids s (fst (publishOnlinePresence qt e d s))"
  by (simp add: publishOnlinePresence_def)

lemma only_ids_offline [simp]: "only_ids s (fst (publishOfflinePresence qt d s))"
  by (simp add: publishOfflinePresence_def)

lemma only_ids_discovery [simp]: "only_ids s (fst (broadcastDiscoveryRequest qt e d s))"
  by (simp add: broadcastDiscoveryRequest_def)

lemma only_ids_payload [simp]: "only_ids s (fst (processReceivedPayload qt e t b s))"
  by (simp add: processReceivedPayload_def Let_def split: option.splits)

lemma only_ids_handlePublish [simp]: "only_ids s (fst (handlePublish qt e h d s))"
  by (simp add: handlePublish_def Let_def sendPuback_def split: option.splits prod.splits)

lemma only_idsD:
  "only_ids s s' \<Longrightarrow> mq_tcp s' = mq_tcp s \<and> mq_buffer s' = mq_buffer s \<and> mq_state s' = mq_state s
    \<and> mq_pingTimer s' = mq_pingTimer s \<and> mq_pingTimeout s' = mq_pingTimeout s \<and> mq_reconnect s' = mq_reconnect s
    \<and> mq_attempts s' = mq_attempts s \<and> mq_intentional s' = mq_intentional s
    \<and> mq_pingOutstanding s' = mq_pingOutstanding s \<and> mq_host s' = mq_host s \<and> mq_port s' = mq_port s"
  by (auto simp: only_ids_def)

lemma handle_packet_buffer:
  "mq_buffer (fst (handle_packet qt e h b s)) = mq_buffer s \<or> mq_buffer (fst (handle_packet qt e h b s)) = []"
proof -
  have "mq_buffer (fst (handleConnack qt e b s)) = mq_buffer s \<or> mq_buffer (fst (handleConnack qt e b s)) = []"
    by (simp add: handleConnack_def only_idsD [OF only_ids_sendSubscribe])
  moreover have "mq_buffer (fst (handleSuback qt e b s)) = mq_buffer s"
    by (simp add: handleSuback_def only_idsD [OF only_ids_online] resetReconnect_def)
  moreover have "mq_buffer (fst (handlePublish qt e h b s)) = mq_buffer s"
    by (simp add: only_idsD [OF only_ids_handlePublish])
  ultimately show ?thesis
    by (simp add: handle_packet_def Let_def handlePuback_def handlePingresp_def)
qed

function processIncomingData :: "qt_lib \<Rightarrow> mq_env \<Rightarrow> mqtt \<Rightarrow> mqtt \<times> mqtt_event list" where
  "processIncomingData qt e s =
    (if mq_buffer s = [] then (s, [])
     else case take_packet (mq_buffer s) of
       NeedMore \<Rightarrow> (s, [])
     | CorruptFraming \<Rightarrow> mq_abort e s
     | GotPacket header body rest \<Rightarrow>
         (case handle_packet qt e header body (s\<lparr>mq_buffer := rest\<rparr>) of (s1, ev1) \<Rightarrow>
          case processIncomingData qt e s1 of (s2, ev2) \<Rightarrow> (s2, ev1 @ ev2)))"
  by pat_completeness auto
termination
proof (relation "measure (\<lambda>(qt, e, s). length (mq_buffer s))", goal_cases)
  case (2 qt e s h b rest s1 ev1)
  have "mq_buffer s1 = rest \<or> mq_buffer s1 = []"
    using handle_packet_buffer [of qt e h b "s\<lparr>mq_buffer := rest\<rparr>"] 2(3) [symmetric] by simp
  then show ?case using take_packet_shorter [OF 2(2)] by auto
qed simp

declare processIncomingData.simps [simp del]

definition mq_onSocketReadyRead :: "qt_lib \<Rightarrow> mq_env \<Rightarrow> bytes \<Rightarrow> mqtt \<Rightarrow> mqtt \<times> mqtt_event list" where
  "mq_onSocketReadyRead qt e chunk s = processIncomingData qt e (s\<lparr>mq_buffer := mq_buffer s @ chunk\<rparr>)"


section \<open>Connection and timers\<close>

definition disconnectFromBroker :: "qt_lib \<Rightarrow> mq_env \<Rightarrow> mqtt \<Rightarrow> mqtt \<times> mqtt_event list" where
  "disconnectFromBroker qt e s =
    (let s0 = s\<lparr>mq_intentional := True, mq_reconnect := None, mq_pingTimer := False, mq_pingTimeout := False\<rparr> in
     mq_then
       (if mq_state s0 = MqReady
        then mq_then (if isValidDeviceId (me_deviceId e) then publishOfflinePresence qt (me_deviceId e) s0 else (s0, []))
               sendDisconnect
        else (s0, []))
       (\<lambda>s1. mq_then
         (if mq_tcp s1 \<noteq> UnconnectedState
          then (if me_sync e then mq_abort e s1 else (s1\<lparr>mq_tcp := ClosingState\<rparr>, []))
          else (s1, []))
         (\<lambda>s2. mq_then (mq_setState MqDisconnected s2) (\<lambda>s3. (s3\<lparr>mq_buffer := []\<rparr>, [])))))"

definition onSocketEncrypted :: "qt_lib \<Rightarrow> mq_env \<Rightarrow> mqtt \<Rightarrow> mqtt \<times> mqtt_event list" where
  "onSocketEncrypted qt e s = mq_then (mq_setState MqConnected s) (sendConnect qt e)"

definition mq_onSocketError :: "mqtt \<Rightarrow> mqtt \<times> mqtt_event list" where
  "mq_onSocketError s = (s, [MqError])"

definition onSslErrors :: "mq_env \<Rightarrow> mqtt \<Rightarrow> mqtt \<times> mqtt_event list" where
  "onSslErrors e s = mq_then (mq_abort e s) (\<lambda>s1. (s1, [MqError]))"

definition onPingTimer :: "mqtt \<Rightarrow> mqtt \<times> mqtt_event list" where
  "onPingTimer s =
    (if mq_state s = MqReady then sendPingreq (s\<lparr>mq_pingOutstanding := True, mq_pingTimeout := True\<rparr>) else (s, []))"

definition onPingTimeout :: "mq_env \<Rightarrow> mqtt \<Rightarrow> mqtt \<times> mqtt_event list" where
  "onPingTimeout e s = (if mq_pingOutstanding s then mq_abort e s else (s, []))"

text \<open>
  What can happen to a client. The first six inputs come from the user, the others from the
  socket and the timers; \<open>mq_enabled\<close> says when Qt delivers those. A connection attempt that
  fails before the socket was connected emits \<open>errorOccurred\<close> and no \<open>disconnected\<close>.
\<close>

datatype mqtt_input =
    MqConnect qstring int
  | MqDisconnect
  | MqAnnounce device
  | MqLeave qstring
  | MqDiscover qstring
  | MqTcpConnected
  | MqEncrypted
  | MqReadyRead bytes
  | MqConnectFailed
  | MqSslErrors
  | MqConnectionLost
  | MqPingTimer
  | MqPingTimeout
  | MqReconnectTimer

fun mq_environment :: "mqtt_input \<Rightarrow> bool" where
  "mq_environment (MqConnect h p) = False"
| "mq_environment MqDisconnect = False"
| "mq_environment (MqAnnounce d) = False"
| "mq_environment (MqLeave d) = False"
| "mq_environment (MqDiscover d) = False"
| "mq_environment _ = True"

fun mq_enabled :: "mqtt_input \<Rightarrow> mqtt \<Rightarrow> bool" where
  "mq_enabled MqTcpConnected s = (mq_tcp s = ConnectingState)"
| "mq_enabled MqEncrypted s = (mq_tcp s = ConnectedState \<and> mq_state s = MqConnecting)"
| "mq_enabled (MqReadyRead c) s = (mq_tcp s = ConnectedState)"
| "mq_enabled MqConnectFailed s = (mq_tcp s = ConnectingState)"
| "mq_enabled MqSslErrors s = (mq_tcp s = ConnectedState)"
| "mq_enabled MqConnectionLost s = (mq_tcp s = ConnectedState \<or> mq_tcp s = ClosingState)"
| "mq_enabled MqPingTimer s = mq_pingTimer s"
| "mq_enabled MqPingTimeout s = mq_pingTimeout s"
| "mq_enabled MqReconnectTimer s = (mq_reconnect s \<noteq> None)"
| "mq_enabled _ s = True"

fun mq_step :: "qt_lib \<Rightarrow> mq_env \<Rightarrow> mqtt_input \<Rightarrow> mqtt \<Rightarrow> mqtt \<times> mqtt_event list" where
  "mq_step qt e (MqConnect host port) s = connectToBroker e host port s"
| "mq_step qt e MqDisconnect s = disconnectFromBroker qt e s"
| "mq_step qt e (MqAnnounce d) s = publishOnlinePresence qt e d s"
| "mq_step qt e (MqLeave d) s = publishOfflinePresence qt d s"
| "mq_step qt e (MqDiscover d) s = broadcastDiscoveryRequest qt e d s"
| "mq_step qt e MqTcpConnected s = (s\<lparr>mq_tcp := ConnectedState\<rparr>, [])"
| "mq_step qt e MqEncrypted s = onSocketEncrypted qt e s"
| "mq_step qt e (MqReadyRead c) s = mq_onSocketReadyRead qt e c s"
| "mq_step qt e MqConnectFailed s = mq_onSocketError (s\<lparr>mq_tcp := UnconnectedState\<rparr>)"
| "mq_step qt e MqSslErrors s = onSslErrors e s"
| "mq_step qt e MqConnectionLost s = mq_onSocketDisconnected e (s\<lparr>mq_tcp := UnconnectedState\<rparr>)"
| "mq_step qt e MqPingTimer s = onPingTimer s"
| "mq_step qt e MqPingTimeout s = onPingTimeout e (s\<lparr>mq_pingTimeout := False\<rparr>)"
| "mq_step qt e MqReconnectTimer s = onReconnectTimer e (s\<lparr>mq_reconnect := None\<rparr>)"

inductive mq_reach :: "qt_lib \<Rightarrow> mqtt \<Rightarrow> bool" for qt where
  start: "mq_reach qt mqtt_init"
| step: "mq_reach qt s \<Longrightarrow> mq_enabled i s \<Longrightarrow> 0 \<le> me_random e \<Longrightarrow> me_random e < 200 \<Longrightarrow> mq_reach qt (fst (mq_step qt e i s))"

text \<open>
  The states of the session belong to an open socket, as do the ping timers; the delay of a
  pending reconnect is between one second and a minute.
\<close>

definition mq_inv :: "mqtt \<Rightarrow> bool" where
  "mq_inv s \<longleftrightarrow>
     (mq_state s \<in> {MqConnected, MqSubscribing, MqReady} \<or> mq_pingTimer s \<or> mq_pingTimeout s \<longrightarrow> mq_tcp s = ConnectedState)
   \<and> (mq_state s = MqDisconnected \<longrightarrow> mq_buffer s = [] \<and> mq_tcp s \<noteq> ConnectedState \<and> mq_tcp s \<noteq> ConnectingState)
   \<and> 0 \<le> mq_attempts s
   \<and> (\<forall>d. mq_reconnect s = Some d \<longrightarrow> 1000 \<le> d \<and> d < MAX_RECONNECT_MS + 100)"

lemma inv_schedule: "mq_inv s \<Longrightarrow> 0 \<le> me_random e \<Longrightarrow> me_random e < 200 \<Longrightarrow> mq_inv (scheduleReconnect e s)"
  by (auto simp: mq_inv_def scheduleReconnect_def Let_def MAX_RECONNECT_MS_def INITIAL_RECONNECT_MS_def)

lemma inv_disconnected:
  "mq_inv s \<Longrightarrow> mq_tcp s' = UnconnectedState \<Longrightarrow> mq_attempts s' = mq_attempts s \<Longrightarrow> mq_reconnect s' = mq_reconnect s \<Longrightarrow>
     0 \<le> me_random e \<Longrightarrow> me_random e < 200 \<Longrightarrow> mq_inv (fst (mq_onSocketDisconnected e s'))"
proof -
  assume a: "mq_inv s" "mq_tcp s' = UnconnectedState" "mq_attempts s' = mq_attempts s" "mq_reconnect s' = mq_reconnect s"
    and r: "0 \<le> me_random e" "me_random e < 200"
  let ?t = "s'\<lparr>mq_pingTimer := False, mq_pingTimeout := False, mq_pingOutstanding := False, mq_buffer := [],
      mq_state := MqDisconnected\<rparr>"
  have "mq_inv ?t" using a by (simp add: mq_inv_def)
  then show ?thesis using inv_schedule [OF _ r, of ?t] by (simp add: mq_onSocketDisconnected_def case_prod_beta)
qed


lemma inv_abort:
  "mq_inv s \<Longrightarrow> 0 \<le> me_random e \<Longrightarrow> me_random e < 200 \<Longrightarrow> mq_inv (fst (mq_abort e s))"
  unfolding mq_abort_def using inv_disconnected [of s "s\<lparr>mq_tcp := UnconnectedState\<rparr>" e] by (auto simp: mq_inv_def)

lemma inv_only_ids: "mq_inv s \<Longrightarrow> only_ids s s' \<Longrightarrow> mq_inv s'"
  using only_idsD [of s s'] by (simp add: mq_inv_def)

lemma abort_connected: "mq_tcp s = ConnectedState \<Longrightarrow> mq_buffer (fst (mq_abort e s)) = []"
  by (simp add: mq_abort_def)

lemma inv_handle_packet:
  assumes inv: "mq_inv s" and tcp: "mq_tcp s = ConnectedState" and r: "0 \<le> me_random e" "me_random e < 200"
    and t: "t = fst (handle_packet qt e h b s)"
  shows "mq_inv t \<and> (mq_tcp t = ConnectedState \<or> mq_buffer t = [])"
proof -
  note abort = inv_abort [OF inv r] abort_connected [OF tcp, of e]
  have "mq_inv (s\<lparr>mq_state := MqSubscribing\<rparr>)" "mq_inv (s\<lparr>mq_state := MqReady, mq_attempts := 0, mq_reconnect := None\<rparr>)"
    using inv tcp by (simp_all add: mq_inv_def)
  note states = this
  have conn: "mq_inv (fst (handleConnack qt e b s)) \<and> (mq_tcp (fst (handleConnack qt e b s)) = ConnectedState
      \<or> mq_buffer (fst (handleConnack qt e b s)) = [])"
  proof -
    let ?u = "fst (sendSubscribe qt [(qs ''meckchat/v1/presence/online/+'', 1), (qs ''meckchat/v1/presence/offline/+'', 1),
        (qs ''meckchat/v1/discovery'', 1)] (s\<lparr>mq_state := MqSubscribing\<rparr>))"
    have "mq_inv ?u" "mq_tcp ?u = ConnectedState"
      using inv_only_ids [OF states(1) only_ids_sendSubscribe] only_idsD [OF only_ids_sendSubscribe] tcp by simp_all
    then have "mq_inv (?u\<lparr>mq_pingTimer := True\<rparr>)" "mq_tcp ?u = ConnectedState" by (simp_all add: mq_inv_def)
    then show ?thesis using abort by (simp add: handleConnack_def)
  qed
  have sub: "mq_inv (fst (handleSuback qt e b s)) \<and> mq_tcp (fst (handleSuback qt e b s)) = ConnectedState"
    using inv tcp inv_only_ids [OF states(2) only_ids_online] only_idsD [OF only_ids_online]
    by (simp add: handleSuback_def resetReconnect_def)
  have pub: "mq_inv (fst (handlePublish qt e h b s)) \<and> mq_tcp (fst (handlePublish qt e h b s)) = ConnectedState"
    using inv_only_ids [OF inv only_ids_handlePublish] only_idsD [OF only_ids_handlePublish] tcp by simp
  have ping: "mq_inv (fst (handlePingresp s)) \<and> mq_tcp (fst (handlePingresp s)) = ConnectedState"
    using inv tcp by (simp add: handlePingresp_def mq_inv_def)
  show ?thesis unfolding t handle_packet_def Let_def handlePuback_def
    using conn sub pub ping inv tcp by simp
qed

lemma inv_processIncomingData:
  assumes "0 \<le> me_random e" "me_random e < 200"
  shows "mq_inv s \<Longrightarrow> mq_tcp s = ConnectedState \<or> mq_buffer s = [] \<Longrightarrow> mq_inv (fst (processIncomingData qt e s))"
proof (induction "length (mq_buffer s)" arbitrary: s rule: less_induct)
  case less
  show ?case
  proof (cases "mq_buffer s = []")
    case False
    then have tcp: "mq_tcp s = ConnectedState" using less.prems by simp
    show ?thesis
    proof (cases "take_packet (mq_buffer s)")
      case (GotPacket h b rest)
      let ?s = "s\<lparr>mq_buffer := rest\<rparr>"
      let ?t = "fst (handle_packet qt e h b ?s)"
      have "mq_inv ?s" using less.prems tcp by (simp add: mq_inv_def)
      from inv_handle_packet [OF this _ assms refl] tcp
      have t: "mq_inv ?t \<and> (mq_tcp ?t = ConnectedState \<or> mq_buffer ?t = [])" by simp
      have "length (mq_buffer ?t) < length (mq_buffer s)"
        using handle_packet_buffer [of qt e h b ?s] take_packet_shorter [OF GotPacket] by auto
      from less.hyps [OF this] t have "mq_inv (fst (processIncomingData qt e ?t))" by simp
      with False GotPacket show ?thesis by (subst processIncomingData.simps) (simp add: case_prod_beta)
    qed (use less.prems False inv_abort assms in \<open>(subst processIncomingData.simps, simp)+\<close>)
  qed (use less.prems in \<open>subst processIncomingData.simps, simp\<close>)
qed

lemma mq_inv_step:
  assumes inv: "mq_inv s" and en: "mq_enabled i s" and r: "0 \<le> me_random e" "me_random e < 200"
  shows "mq_inv (fst (mq_step qt e i s))"
proof -
  have connect: "mq_inv (fst (connectToBroker e host port t))" if "mq_inv t" for host port t
  proof -
    let ?t = "t\<lparr>mq_host := (if host = [] then me_brokerHost e else host),
        mq_port := (if port = 0 then me_brokerPort e else port), mq_intentional := False\<rparr>"
    have t: "mq_inv ?t" using that by (simp add: mq_inv_def)
    have open': "mq_inv (u\<lparr>mq_buffer := [], mq_state := MqConnecting, mq_tcp := ConnectingState\<rparr>)"
      if "mq_inv u" "mq_tcp u \<noteq> ConnectedState" for u
      using that by (simp add: mq_inv_def)
    show ?thesis using open' [OF inv_abort [OF t r]] open' [OF t] by (simp add: connectToBroker_def Let_def)
  qed
  show ?thesis
  proof (cases i)
    case MqDisconnect
    let ?s0 = "s\<lparr>mq_intentional := True, mq_reconnect := None, mq_pingTimer := False, mq_pingTimeout := False\<rparr>"
    have s0: "mq_inv ?s0" using inv by (simp add: mq_inv_def)
    let ?s1 = "fst (publishOfflinePresence qt (me_deviceId e) ?s0)"
    have s1: "mq_inv ?s1" using inv_only_ids [OF s0 only_ids_offline] .
    have close: "mq_inv (u\<lparr>mq_state := MqDisconnected, mq_buffer := []\<rparr>)"
      if "mq_inv u" "mq_tcp u = UnconnectedState \<or> mq_tcp u = ClosingState" for u
      using that by (auto simp: mq_inv_def)
    have close': "mq_inv (u\<lparr>mq_tcp := ClosingState, mq_state := MqDisconnected, mq_buffer := []\<rparr>)"
      if "mq_inv u" "\<not> mq_pingTimer u" "\<not> mq_pingTimeout u" for u
      using that by (auto simp: mq_inv_def)
    note close_all = close [OF inv_abort [OF s0 r]] close [OF inv_abort [OF s1 r]] close' [OF s0] close' [OF s1]
      close [OF s0] close [OF s1]
    show ?thesis
      using close_all only_idsD [OF only_ids_offline [of ?s0 qt "me_deviceId e"]] MqDisconnect
      by (simp add: disconnectFromBroker_def Let_def sendDisconnect_def)
  next
    case (MqReadyRead c)
    have "mq_inv (s\<lparr>mq_buffer := mq_buffer s @ c\<rparr>)" using inv en MqReadyRead by (simp add: mq_inv_def)
    then show ?thesis using inv_processIncomingData [OF r, of "s\<lparr>mq_buffer := mq_buffer s @ c\<rparr>"] en MqReadyRead
      by (simp add: mq_onSocketReadyRead_def)
  next
    case MqPingTimeout
    have "mq_inv (s\<lparr>mq_pingTimeout := False\<rparr>)" using inv by (simp add: mq_inv_def)
    then show ?thesis using MqPingTimeout inv_abort [OF _ r] by (simp add: onPingTimeout_def)
  next
    case MqReconnectTimer
    have "mq_inv (s\<lparr>mq_reconnect := None\<rparr>)" using inv by (simp add: mq_inv_def)
    then show ?thesis using MqReconnectTimer connect by (simp add: onReconnectTimer_def)
  next
    case MqEncrypted
    then show ?thesis using inv en by (simp add: onSocketEncrypted_def sendConnect_def Let_def mq_inv_def)
  next
    case MqConnectionLost
    then show ?thesis using inv_disconnected [OF inv _ _ _ r, of "s\<lparr>mq_tcp := UnconnectedState\<rparr>"] by simp
  next
    case MqPingTimer
    then show ?thesis using inv en by (auto simp: onPingTimer_def sendPingreq_def mq_inv_def)
  next
    case MqSslErrors
    then show ?thesis using inv_abort [OF inv r] by (simp add: onSslErrors_def)
  next
    case (MqConnect host port)
    then show ?thesis using connect [OF inv] by simp
  next
    case MqTcpConnected
    then show ?thesis using inv en by (simp add: mq_inv_def)
  next
    case MqConnectFailed
    then show ?thesis using inv en by (simp add: mq_inv_def mq_onSocketError_def)
  qed (use inv_only_ids [OF inv] in simp_all)
qed

lemma mq_reach_inv: "mq_reach qt s \<Longrightarrow> mq_inv s"
proof (induction rule: mq_reach.induct)
  case start
  show ?case by (simp add: mq_inv_def mqtt_init_def)
qed (simp add: mq_inv_step)


section \<open>Reconnection\<close>

lemma processIncomingData_preserves:
  assumes buf: "\<And>s b. P s \<Longrightarrow> P (s\<lparr>mq_buffer := b\<rparr>)"
    and handler: "\<And>h b s. P s \<Longrightarrow> P (fst (handle_packet qt e h b s))"
    and abort: "\<And>s. P s \<Longrightarrow> P (fst (mq_abort e s))"
  shows "P s \<Longrightarrow> P (fst (processIncomingData qt e s))"
proof (induction "length (mq_buffer s)" arbitrary: s rule: less_induct)
  case less
  show ?case
  proof (cases "mq_buffer s = []")
    case False
    show ?thesis
    proof (cases "take_packet (mq_buffer s)")
      case (GotPacket h b rest)
      let ?t = "fst (handle_packet qt e h b (s\<lparr>mq_buffer := rest\<rparr>))"
      have "length (mq_buffer ?t) < length (mq_buffer s)"
        using handle_packet_buffer [of qt e h b "s\<lparr>mq_buffer := rest\<rparr>"] take_packet_shorter [OF GotPacket] by auto
      from less.hyps [OF this handler [OF buf [OF less.prems]]] False GotPacket show ?thesis
        by (subst processIncomingData.simps) (simp add: case_prod_beta)
    qed (use less.prems False abort in \<open>(subst processIncomingData.simps, simp)+\<close>)
  qed (use less.prems in \<open>subst processIncomingData.simps, simp\<close>)
qed

text \<open>A client that is disconnected, and not by its user, has a reconnect pending.\<close>

definition mq_live :: "mqtt \<Rightarrow> bool" where
  "mq_live s \<longleftrightarrow> (mq_state s = MqDisconnected \<and> \<not> mq_intentional s \<longrightarrow> mq_reconnect s \<noteq> None)"

lemma reconnect_scheduled [simp]: "\<exists>d. mq_reconnect (scheduleReconnect e s) = Some d"
  using mq_scheduleReconnect_simps(9) [of e s] by blast

lemma live_disconnected [simp]: "mq_live (fst (mq_onSocketDisconnected e s))"
  by (simp add: mq_live_def mq_onSocketDisconnected_def case_prod_beta)

lemma live_abort: "mq_live s \<Longrightarrow> mq_live (fst (mq_abort e s))"
  by (simp add: mq_abort_def) (simp add: mq_live_def)

lemma live_only_ids: "mq_live s \<Longrightarrow> only_ids s s' \<Longrightarrow> mq_live s'"
  using only_idsD [of s s'] by (simp add: mq_live_def)

lemma live_handle_packet: "mq_live s \<Longrightarrow> mq_live (fst (handle_packet qt e h b s))"
proof -
  assume live: "mq_live s"
  have "mq_live (fst (handleConnack qt e b s))"
    using live_abort [OF live] by (simp add: handleConnack_def) (simp add: mq_live_def only_idsD [OF only_ids_sendSubscribe])
  moreover have "mq_live (fst (handleSuback qt e b s))"
    using live by (simp add: handleSuback_def resetReconnect_def) (simp add: mq_live_def only_idsD [OF only_ids_online])
  moreover have "mq_live (fst (handlePublish qt e h b s))" using live_only_ids [OF live only_ids_handlePublish] .
  moreover have "mq_live (fst (handlePingresp s))" using live by (simp add: handlePingresp_def mq_live_def)
  ultimately show ?thesis using live by (simp add: handle_packet_def Let_def handlePuback_def)
qed

lemma live_connect: "mq_live (fst (connectToBroker e host port s))"
  by (simp add: connectToBroker_def Let_def mq_live_def)

lemma live_step:
  assumes "mq_live s"
  shows "mq_live (fst (mq_step qt e i s))"
proof (cases i)
  case MqDisconnect
  then show ?thesis
    by (auto simp: disconnectFromBroker_def Let_def sendDisconnect_def mq_live_def only_idsD [OF only_ids_offline])
next
  case (MqReadyRead c)
  have "mq_live (t\<lparr>mq_buffer := b\<rparr>)" if "mq_live t" for t b using that by (simp add: mq_live_def)
  then show ?thesis
    using processIncomingData_preserves [of mq_live qt e, OF _ live_handle_packet live_abort] assms MqReadyRead
    by (simp add: mq_onSocketReadyRead_def)
next
  case MqPingTimeout
  have "mq_live (s\<lparr>mq_pingTimeout := False\<rparr>)" using assms by (simp add: mq_live_def)
  then show ?thesis using MqPingTimeout live_abort by (simp add: onPingTimeout_def)
next
  case MqReconnectTimer
  then show ?thesis using live_connect assms by (simp add: onReconnectTimer_def) (simp add: mq_live_def)
next
  case MqEncrypted
  then show ?thesis by (simp add: onSocketEncrypted_def sendConnect_def Let_def mq_live_def)
next
  case MqPingTimer
  then show ?thesis using assms by (simp add: onPingTimer_def sendPingreq_def mq_live_def)
next
  case MqSslErrors
  then show ?thesis using live_abort [OF assms] by (simp add: onSslErrors_def)
next
  case MqTcpConnected
  then show ?thesis using assms by (simp add: mq_live_def)
next
  case MqConnectFailed
  then show ?thesis using assms by (simp add: mq_live_def mq_onSocketError_def)
qed (use live_connect live_only_ids [OF assms] in simp_all)

lemma untouched_step: "mq_enabled i mqtt_init \<Longrightarrow> mq_live (fst (mq_step qt e i mqtt_init)) \<or> fst (mq_step qt e i mqtt_init) = mqtt_init"
proof (cases i)
  case MqDisconnect
  then show ?thesis by (simp add: disconnectFromBroker_def Let_def mqtt_init_def mq_live_def)
qed (use live_connect in \<open>simp_all add: mqtt_init_def publishOnlinePresence_def publishOfflinePresence_def
    broadcastDiscoveryRequest_def sendPublish_def\<close>)

lemma mq_reach_live: "mq_reach qt s \<Longrightarrow> mq_live s \<or> s = mqtt_init"
proof (induction rule: mq_reach.induct)
  case (step s i e)
  from step.IH show ?case
  proof
    assume "s = mqtt_init"
    then show ?thesis using untouched_step [of i qt e] step.hyps(2) by simp
  qed (simp add: live_step)
qed simp

text \<open>
  C17: In every reachable state but the initial one, a client that is disconnected without
  its user having asked for it has a reconnect pending, after 1 to 60.1 seconds (the jitter
  may exceed the maximum of a minute), and that starts a new connection to the same broker.
\<close>

theorem disconnected_client_reconnects:
  assumes "mq_reach qt s" and "mq_state s = MqDisconnected" and "\<not> mq_intentional s" and "s \<noteq> mqtt_init"
  shows "\<exists>d. mq_reconnect s = Some d \<and> 1000 \<le> d \<and> d < 60100
    \<and> mq_state (fst (mq_step qt e MqReconnectTimer s)) = MqConnecting
    \<and> (mq_host s \<noteq> [] \<and> mq_port s \<noteq> 0 \<longrightarrow> ConnectToHostEncrypted (mq_host s) (word_of_int (mq_port s))
          \<in> set (snd (mq_step qt e MqReconnectTimer s)))"
proof -
  have "mq_reconnect s \<noteq> None" using mq_reach_live [OF assms(1)] assms(2-4) by (auto simp: mq_live_def)
  then obtain d where d: "mq_reconnect s = Some d" by blast
  then have "1000 \<le> d \<and> d < 60100"
    using mq_reach_inv [OF assms(1)] by (simp add: mq_inv_def MAX_RECONNECT_MS_def)
  moreover have "mq_host (fst (mq_abort e t)) = mq_host t" "mq_port (fst (mq_abort e t)) = mq_port t" for t
    by (simp_all add: mq_abort_def mq_onSocketDisconnected_def case_prod_beta scheduleReconnect_def Let_def)
  ultimately show ?thesis using d assms(3)
    by (simp add: onReconnectTimer_def connectToBroker_def Let_def)
qed

text \<open>
  C36: When a connection to the broker cannot be established, the client stays in the
  connecting state and schedules nothing. Of all events of the socket and the timers only a
  reconnection that was scheduled before this attempt can then still happen; without one, no
  event can, and the connection is never retried.
\<close>

theorem failed_connect_not_retried:
  assumes "mq_reach qt s" and "mq_enabled MqConnectFailed s"
  shows "mq_state (fst (mq_step qt e MqConnectFailed s)) = MqConnecting
    \<and> mq_reconnect (fst (mq_step qt e MqConnectFailed s)) = mq_reconnect s
    \<and> (\<forall>i. mq_environment i \<longrightarrow>
        mq_enabled i (fst (mq_step qt e MqConnectFailed s)) = (i = MqReconnectTimer \<and> mq_reconnect s \<noteq> None))"
proof -
  have inv: "mq_inv s" using assms(1) by (rule mq_reach_inv)
  then have s: "mq_state s = MqConnecting" "\<not> mq_pingTimer s" "\<not> mq_pingTimeout s"
    using assms(2) by (cases "mq_state s"; simp add: mq_inv_def)+
  have "mq_enabled i (s\<lparr>mq_tcp := UnconnectedState\<rparr>) = (i = MqReconnectTimer \<and> mq_reconnect s \<noteq> None)" if "mq_environment i" for i
    using that s by (cases i) simp_all
  then show ?thesis using s by (simp add: mq_onSocketError_def)
qed


definition me0 :: mq_env where
  "me0 = \<lparr>me_deviceId = qs ''mc_a'', me_displayName = qs ''A'', me_brokerHost = qs ''broker'', me_brokerPort = 8883,
     me_now = 1000, me_uuid = qs ''u1'', me_random = 150, me_sync = True\<rparr>"

definition connecting0 :: mqtt where
  "connecting0 = mqtt_init\<lparr>mq_host := qs ''broker'', mq_state := MqConnecting, mq_tcp := ConnectingState\<rparr>"

lemma connecting0_reach: "mq_reach qt connecting0"
proof -
  have "fst (mq_step qt me0 (MqConnect [] 0) mqtt_init) = connecting0"
    by (simp add: connectToBroker_def Let_def mqtt_init_def me0_def connecting0_def mq_setState_def)
  then show ?thesis
    using mq_reach.step [OF mq_reach.start, of "MqConnect [] 0" me0 qt] by (simp add: me0_def)
qed

theorem failed_connect_not_retried_witness:
  "mq_state (fst (mq_step qt0 me0 MqConnectFailed connecting0)) = MqConnecting
    \<and> \<not> mq_enabled MqReconnectTimer (fst (mq_step qt0 me0 MqConnectFailed connecting0))"
  using failed_connect_not_retried [OF connecting0_reach, where e = me0 and qt = qt0] by (simp add: connecting0_def mqtt_init_def mq_onSocketError_def)

theorem disconnected_client_reconnects_witness:
  "\<exists>s. mq_state s = MqDisconnected \<and> (\<exists>d. mq_reconnect s = Some d)
     \<and> mq_state (fst (mq_step qt0 me0 MqReconnectTimer s)) = MqConnecting"
proof -
  let ?s1 = "fst (mq_step qt0 me0 MqTcpConnected connecting0)"
  let ?s2 = "fst (mq_step qt0 me0 MqConnectionLost ?s1)"
  have r1: "mq_reach qt0 ?s1"
    using mq_reach.step [OF connecting0_reach, of MqTcpConnected me0] by (simp add: connecting0_def mqtt_init_def me0_def)
  have "mq_reach qt0 ?s2"
    using mq_reach.step [OF r1, of MqConnectionLost me0] by (simp add: me0_def)
  moreover have "mq_state ?s2 = MqDisconnected" "\<not> mq_intentional ?s2" "mq_host ?s2 = qs ''broker''"
    by (simp_all add: connecting0_def mqtt_init_def mq_onSocketDisconnected_def case_prod_beta)
  moreover from this have "?s2 \<noteq> mqtt_init" by (auto simp: mqtt_init_def)
  ultimately show ?thesis using disconnected_client_reconnects [where qt = qt0 and s = ?s2 and e = me0] by blast
qed

section \<open>Streams of packets\<close>

text \<open>Chunks as they arrive, and packets one by one.\<close>

fun mq_receive :: "qt_lib \<Rightarrow> mq_env \<Rightarrow> bytes list \<Rightarrow> mqtt \<Rightarrow> mqtt \<times> mqtt_event list" where
  "mq_receive qt e [] s = (s, [])"
| "mq_receive qt e (c # cs) s = mq_then (mq_onSocketReadyRead qt e c s) (mq_receive qt e cs)"

fun mq_handle_all :: "qt_lib \<Rightarrow> mq_env \<Rightarrow> (u8 \<times> bytes) list \<Rightarrow> mqtt \<Rightarrow> mqtt \<times> mqtt_event list" where
  "mq_handle_all qt e [] s = (s, [])"
| "mq_handle_all qt e (p # ps) s = mq_then (handle_packet qt e (fst p) (snd p) s) (mq_handle_all qt e ps)"

text \<open>Only a refusing or malformed CONNACK makes a handler close the connection.\<close>

definition accepting :: "u8 \<times> bytes \<Rightarrow> bool" where
  "accepting p \<longleftrightarrow> (fst p AND 0xF0 = CONNACK \<longrightarrow> 2 \<le> length (snd p) \<and> snd p ! 1 = 0)"

definition with_buffer :: "bytes \<Rightarrow> mqtt \<times> mqtt_event list \<Rightarrow> mqtt \<times> mqtt_event list" where
  "with_buffer b r = ((fst r)\<lparr>mq_buffer := b\<rparr>, snd r)"

lemma mq_then_buffer:
  "(\<And>s. f (s\<lparr>mq_buffer := b\<rparr>) = with_buffer b (f s)) \<Longrightarrow>
     mq_then (with_buffer b r) f = with_buffer b (mq_then r f)"
  by (simp add: mq_then_def with_buffer_def case_prod_beta)

lemma sends_buffer:
  "sendPublish qt t x q k (s\<lparr>mq_buffer := b\<rparr>) = with_buffer b (sendPublish qt t x q k s)"
  "sendSubscribe qt ts (s\<lparr>mq_buffer := b\<rparr>) = with_buffer b (sendSubscribe qt ts s)"
  by (simp_all add: sendPublish_def sendSubscribe_def nextPacketId_def Let_def with_buffer_def case_prod_beta)

lemma online_buffer:
  "publishOnlinePresence qt e d (s\<lparr>mq_buffer := b\<rparr>) = with_buffer b (publishOnlinePresence qt e d s)"
  by (simp add: publishOnlinePresence_def sends_buffer) (simp add: with_buffer_def)

lemma payload_buffer:
  "processReceivedPayload qt e t x (s\<lparr>mq_buffer := b\<rparr>) = with_buffer b (processReceivedPayload qt e t x s)"
  by (simp add: processReceivedPayload_def Let_def online_buffer with_buffer_def split: option.splits)

lemma handle_packet_with_buffer:
  assumes "accepting (h, x)"
  shows "handle_packet qt e h x (s\<lparr>mq_buffer := b\<rparr>) = with_buffer b (handle_packet qt e h x s)"
proof -
  have swap: "s\<lparr>mq_buffer := b, mq_state := st\<rparr> = s\<lparr>mq_state := st, mq_buffer := b\<rparr>"
    "s\<lparr>mq_buffer := b, mq_attempts := 0, mq_reconnect := None\<rparr> = s\<lparr>mq_attempts := 0, mq_reconnect := None, mq_buffer := b\<rparr>"
    "s\<lparr>mq_state := st, mq_buffer := b, mq_attempts := 0, mq_reconnect := None\<rparr>
      = s\<lparr>mq_state := st, mq_attempts := 0, mq_reconnect := None, mq_buffer := b\<rparr>" for st
    by simp_all
  have sub: "sendSubscribe qt ts (s\<lparr>mq_buffer := b, mq_state := st\<rparr>) = with_buffer b (sendSubscribe qt ts (s\<lparr>mq_state := st\<rparr>))" for ts st
    using sends_buffer(2) [where qt = qt and ts = ts and s = "s\<lparr>mq_state := st\<rparr>" and b = b] by (simp only: swap)
  have "handleConnack qt e x (s\<lparr>mq_buffer := b\<rparr>) = with_buffer b (handleConnack qt e x s)" if "h AND 0xF0 = CONNACK"
    using assms that
    by (simp add: handleConnack_def accepting_def mq_setState_def mq_then_def case_prod_beta sub sends_buffer(2))
      (simp add: with_buffer_def)
  moreover have "handleSuback qt e x (s\<lparr>mq_buffer := b\<rparr>) = with_buffer b (handleSuback qt e x s)"
    using online_buffer [where s = "s\<lparr>mq_state := MqReady, mq_attempts := 0, mq_reconnect := None\<rparr>" and d = "local_device e" and b = b]
      online_buffer [where s = "s\<lparr>mq_attempts := 0, mq_reconnect := None\<rparr>" and d = "local_device e" and b = b]
    by (simp add: handleSuback_def resetReconnect_def mq_setState_def mq_then_def case_prod_beta with_buffer_def swap)
  moreover have "handlePublish qt e h x (s\<lparr>mq_buffer := b\<rparr>) = with_buffer b (handlePublish qt e h x s)"
    by (simp add: handlePublish_def Let_def sendPuback_def payload_buffer split: option.splits prod.splits)
      (simp add: with_buffer_def)
  moreover have "handlePingresp (s\<lparr>mq_buffer := b\<rparr>) = with_buffer b (handlePingresp s)"
    by (simp add: handlePingresp_def with_buffer_def)
  ultimately show ?thesis
    by (simp add: handle_packet_def Let_def handlePuback_def) (simp add: with_buffer_def)
qed


lemma with_buffer_simps [simp]:
  "with_buffer b (s, ev) = (s\<lparr>mq_buffer := b\<rparr>, ev)" "with_buffer b (with_buffer c r) = with_buffer b r"
  "fst (with_buffer b r) = (fst r)\<lparr>mq_buffer := b\<rparr>" "snd (with_buffer b r) = snd r"
  by (simp_all add: with_buffer_def)

lemma same_buffer [simp]: "(s :: mqtt)\<lparr>mq_buffer := mq_buffer s\<rparr> = s"
  by (cases s) simp

lemma handle_all_buffer:
  "list_all accepting ps \<Longrightarrow> mq_handle_all qt e ps (s\<lparr>mq_buffer := b\<rparr>) = with_buffer b (mq_handle_all qt e ps s)"
proof (induction ps arbitrary: s)
  case (Cons p ps)
  obtain t ev where t: "handle_packet qt e (fst p) (snd p) s = (t, ev)" by (metis prod.exhaust)
  then show ?case using Cons handle_packet_with_buffer [where h = "fst p" and x = "snd p" and s = s and b = b] by (simp add: with_buffer_def)
qed simp

lemma handle_all_append:
  "mq_handle_all qt e (ps @ rs) s = mq_then (mq_handle_all qt e ps s) (mq_handle_all qt e rs)"
  by (induction ps arbitrary: s) (simp_all add: mq_then_def case_prod_beta)

lemma process_feed:
  "mqtt_feed (mq_buffer s) = (ps, r, None) \<Longrightarrow> list_all accepting ps \<Longrightarrow>
     processIncomingData qt e s = with_buffer r (mq_handle_all qt e ps s)"
proof (induction "length (mq_buffer s)" arbitrary: s ps rule: less_induct)
  case less
  show ?case
  proof (cases "take_packet (mq_buffer s)")
    case NeedMore
    with less.prems have "ps = []" "r = mq_buffer s" by (simp_all add: mqtt_feed.simps [of "mq_buffer s"])
    with NeedMore show ?thesis by (subst processIncomingData.simps) simp
  next
    case CorruptFraming
    with less.prems show ?thesis by (simp add: mqtt_feed.simps [of "mq_buffer s"])
  next
    case (GotPacket h b rest)
    then obtain ps' where f: "mqtt_feed rest = (ps', r, None)" and ps: "ps = (h, b) # ps'"
      using less.prems(1) by (auto simp: mqtt_feed.simps [of "mq_buffer s"] split: prod.splits)
    have ne: "mq_buffer s \<noteq> []" using GotPacket by (auto simp: take_packet_def)
    obtain t ev where t: "handle_packet qt e h b s = (t, ev)" by (metis prod.exhaust)
    have acc: "accepting (h, b)" "list_all accepting ps'" using less.prems(2) ps by simp_all
    have hp: "handle_packet qt e h b (s\<lparr>mq_buffer := rest\<rparr>) = (t\<lparr>mq_buffer := rest\<rparr>, ev)"
      using handle_packet_with_buffer [OF acc(1), where s = s and b = rest] t by simp
    have "processIncomingData qt e (t\<lparr>mq_buffer := rest\<rparr>) = with_buffer r (mq_handle_all qt e ps' (t\<lparr>mq_buffer := rest\<rparr>))"
      using less.hyps [of "t\<lparr>mq_buffer := rest\<rparr>" ps'] f acc(2) take_packet_shorter [OF GotPacket] by simp
    also have "\<dots> = with_buffer r (mq_handle_all qt e ps' t)" using handle_all_buffer [OF acc(2)] by simp
    finally show ?thesis
      using GotPacket ne hp t ps by (subst processIncomingData.simps) (simp add: with_buffer_def case_prod_beta)
  qed
qed

lemma receive_handled:
  "receive mqtt_feed b cs = (ps, r, []) \<Longrightarrow> list_all accepting ps \<Longrightarrow>
     mq_receive qt e cs (s\<lparr>mq_buffer := b\<rparr>) = with_buffer r (mq_handle_all qt e ps s)"
proof (induction cs arbitrary: b ps s)
  case (Cons c cs)
  obtain fs b' gs where f: "mqtt_feed (b @ c) = (fs, b', None)" "receive mqtt_feed b' cs = (gs, r, [])" "ps = fs @ gs"
    using Cons.prems(1) by (auto split: prod.splits option.splits)
  have acc: "list_all accepting fs" "list_all accepting gs" using Cons.prems(2) f(3) by simp_all
  obtain t ev where t: "mq_handle_all qt e fs s = (t, ev)" by (metis prod.exhaust)
  have "mq_onSocketReadyRead qt e c (s\<lparr>mq_buffer := b\<rparr>) = (t\<lparr>mq_buffer := b'\<rparr>, ev)"
    using process_feed [of "s\<lparr>mq_buffer := b @ c\<rparr>" fs b' qt e] f(1) acc(1) handle_all_buffer [OF acc(1)] t
    by (simp add: mq_onSocketReadyRead_def)
  then show ?case
    using Cons.IH [OF f(2) acc(2), of t] t f(3) by (simp add: handle_all_append)
qed simp

lemma mqtt_chunks:
  assumes "list_all mqtt_small ps" and "list_all accepting ps" and "mq_buffer s = []"
    and "concat chunks = concat (map (\<lambda>p. mqtt_packet (fst p) (snd p)) ps)"
  shows "mq_receive qt e chunks s = with_buffer [] (mq_handle_all qt e ps s)"
proof -
  define n where "n = Max (insert 0 (length ` set chunks))"
  have "length c + (2 ^ 28 + 5) \<le> n + (2 ^ 28 + 5)" if "c \<in> set chunks" for c
    unfolding n_def using that by (intro add_right_mono Max_ge) auto
  then have "receive mqtt_feed [] chunks = (ps, [], [])"
    using mqtt_stream.receive_stream [where lim = "n + (2 ^ 28 + 5)" and fs = ps and b = "[]" and cs = chunks] assms(1,4)
    by (simp add: list_all_iff)
  moreover have "s = s\<lparr>mq_buffer := []\<rparr>" using assms(3) by (cases s) simp
  ultimately show ?thesis using receive_handled [of "[]" chunks ps "[]" qt e s] assms(2) by metis
qed


lemma packet_sendPublish:
  assumes "isValidTopic topic" and "mq_tcp s = ConnectedState"
  shows "\<exists>i. snd (sendPublish qt topic body 1 retain s)
      = [Written (mqtt_packet (publish_header 1 retain) (encodeUtf8String qt topic @ be16 i @ body))]"
  using assms by (simp add: sendPublish_def nextPacketId_def Let_def) blast

lemma topic_ascii: "isValidTopic topic \<Longrightarrow> q_ascii topic \<and> length topic \<le> 256"
  by (auto simp: valid_topic_iff q_ascii_def list_all_iff word_le_nat_alt word_less_nat_alt)

lemma ascii_text:
  assumes "utf8_ascii qt" and "q_ascii t"
  shows "length (to_utf8 qt t) = length t" and "from_utf8 qt (to_utf8 qt t) = t"
proof -
  have u: "to_utf8 qt t = map ucast t" using assms by (simp add: utf8_ascii_def)
  then show "length (to_utf8 qt t) = length t" by simp
  have "from_utf8 qt (map ucast t) = map ucast (map ucast t :: bytes)"
    using assms ascii_bytes [OF assms(2)] unfolding utf8_ascii_def by blast
  then show "from_utf8 qt (to_utf8 qt t) = t" using u map_ucast_ascii [OF assms(2)] by simp
qed

lemma publish_header_parts:
  "publish_header 1 retain AND 0xF0 = PUBLISH" "drop_bit 1 (publish_header 1 retain) AND 3 = 1"
  by (cases retain; simp add: publish_header_def packet_types)+

lemma publish_handled:
  assumes "utf8_ascii qt" and "isValidTopic topic"
  shows "handle_packet qt e (publish_header 1 retain) (encodeUtf8String qt topic @ be16 i @ body) s
    = mq_then (sendPuback i s) (\<lambda>s1. if length body > MAX_SIGNALING_PAYLOAD_SIZE then (s1, [])
        else processReceivedPayload qt e topic body s1)"
proof -
  note t = topic_ascii [OF assms(2)]
  note u = ascii_text [OF assms(1) conjunct1 [OF t]]
  define n where "n = 2 + length topic"
  have l: "length (encodeUtf8String qt topic) = n" by (simp add: encodeUtf8String_def Let_def u n_def)
  have d: "decodeUtf8String qt (encodeUtf8String qt topic @ be16 i @ body) 0 = Some (topic, n)"
    using utf8_string_read [of qt topic "[]" "be16 i @ body"] t u by (simp add: n_def)
  have r: "rd16 (encodeUtf8String qt topic @ be16 i @ body) n = i"
    using rd16_be16 [OF l] by simp
  have dr: "drop (n + 2) (encodeUtf8String qt topic @ be16 i @ body) = body" by (simp add: l)
  have len: "\<not> n + 2 > length (encodeUtf8String qt topic @ be16 i @ body)" by (simp add: l)
  have sw: "PUBLISH \<noteq> CONNACK" "(1 :: u8) > 0" by (simp_all add: packet_types)
  show ?thesis
    unfolding handle_packet_def handlePublish_def Let_def publish_header_parts
    using sw d r len by (simp only: dr if_True if_False option.case prod.case simp_thms)
qed

section \<open>Presence\<close>

text \<open>\<open>toLower\<close> leaves lower-case letters alone.\<close>

definition lower_law :: "qt_lib \<Rightarrow> bool" where
  "lower_law qt \<longleftrightarrow> (\<forall>s. list_all (\<lambda>u. 0x61 \<le> u \<and> u \<le> 0x7A) s \<longrightarrow> to_lower qt s = s)"

lemma lower_law_qt0: "lower_law qt0"
proof -
  have "map (\<lambda>u. if 0x41 \<le> u \<and> u \<le> 0x5A then u + 0x20 else u) s = s"
    if "list_all (\<lambda>u :: u16. 0x61 \<le> u \<and> u \<le> 0x7A) s" for s
    using that by (induction s) (auto simp: word_le_nat_alt)
  then show ?thesis by (simp add: lower_law_def qt0_def)
qed

lemma platform_roundtrip: "lower_law qt \<Longrightarrow> stringToPlatform qt (platformToString p) = p"
  by (cases p) (simp_all add: lower_law_def stringToPlatform_def qs_def)

text \<open>A valid device id is ASCII text, up to a newline at its end.\<close>

lemma valid_id_units: "isValidDeviceId i \<Longrightarrow> last i \<noteq> 0x0A \<Longrightarrow> i \<noteq> [] \<and> list_all id_unit i \<and> length i \<le> 128"
  by (auto simp: isValidDeviceId_def id_regex_def Let_def split: if_splits)

lemma presence_topic_valid:
  assumes "isValidDeviceId i" and "last i \<noteq> 0x0A"
  shows "isValidTopic (qs ''meckchat/v1/presence/online/'' @ i)"
proof -
  have "list_all (\<lambda>u. 32 \<le> u \<and> u \<le> 126) (qs ''meckchat/v1/presence/online/'')" by (simp add: qs_def)
  moreover have "list_all (\<lambda>u. 32 \<le> u \<and> u \<le> 126) i"
    using valid_id_units [OF assms] by (auto simp: list_all_iff dest: id_unit_topic)
  ultimately have "list_all (\<lambda>u. 32 \<le> u \<and> u \<le> 126) (qs ''meckchat/v1/presence/online/'' @ i)" by simp
  then have "\<forall>u \<in> set (qs ''meckchat/v1/presence/online/'' @ i). 32 \<le> u \<and> u \<le> 126"
    unfolding list_all_iff .
  moreover have "length (qs ''meckchat/v1/presence/online/'' @ i) \<le> 256" "i \<noteq> []"
    using valid_id_units [OF assms] by simp_all
  ultimately show ?thesis unfolding valid_topic_iff by (metis append_is_Nil_conv length_greater_0_conv)
qed

lemma id_utf16:
  assumes "isValidDeviceId i" and "last i \<noteq> 0x0A"
  shows "q_utf16 i"
proof -
  have "u < 128" if "id_unit u" for u using id_unit_topic [OF that] by (simp add: word_le_nat_alt word_less_nat_alt)
  then have "q_ascii i" using valid_id_units [OF assms] by (auto simp: q_ascii_def list_all_iff)
  then show ?thesis by (rule q_ascii_utf16)
qed

text \<open>
  C15: The presence a device publishes is one PUBLISH packet, and a client that receives it,
  in whatever chunks, acknowledges it and announces exactly that device; nothing else of its
  state changes.
\<close>

theorem presence_end_to_end:
  assumes laws: "json_roundtrip qt" "utf8_ascii qt" "lower_law qt"
    and dev: "isValidDeviceId (dev_deviceId d)" "last (dev_deviceId d) \<noteq> 0x0A" "q_utf16 (dev_displayName d)"
    and sender: "mq_tcp a = ConnectedState" "0 < me_now ea" "me_now ea < 2 ^ 63"
    and size: "length (json_write qt (toPresenceOnlineJson (me_now ea) d)) \<le> MAX_SIGNALING_PAYLOAD_SIZE"
    and receiver: "me_deviceId eb \<noteq> dev_deviceId d" "mq_buffer b = []"
  shows "\<exists>w i. snd (publishOnlinePresence qt ea d a) = [Written w]
    \<and> (\<forall>chunks. concat chunks = w \<longrightarrow>
         mq_receive qt eb chunks b = (b, [Written (PUBACK # encodeVariableLength 2 @ be16 i),
           DeviceDiscovered \<lparr>dev_deviceId = dev_deviceId d, dev_displayName = dev_displayName d,
             dev_platform = dev_platform d, dev_lastSeen = me_now ea, dev_isOnline = True, dev_virtualIp = []\<rparr>]))"
proof -
  let ?topic = "qs ''meckchat/v1/presence/online/'' @ dev_deviceId d"
  let ?obj = "toPresenceOnlineJson (me_now ea) d" and ?body = "json_write qt (toPresenceOnlineJson (me_now ea) d)"
  note topic = presence_topic_valid [OF dev(1,2)]
  obtain i where w: "snd (publishOnlinePresence qt ea d a)
      = [Written (mqtt_packet (publish_header 1 True) (encodeUtf8String qt ?topic @ be16 i @ ?body))]"
    using packet_sendPublish [OF topic sender(1), of qt ?body True] dev(1) by (auto simp: publishOnlinePresence_def)
  let ?p = "(publish_header 1 True, encodeUtf8String qt ?topic @ be16 i @ ?body)"
  have plat: "q_utf16 (platformToString p)" for p
    by (cases p) (simp_all add: q_ascii_utf16 q_ascii_qs)
  have "json_wf ?obj"
    unfolding toPresenceOnlineJson_def
    using sender(2,3) dev(3) id_utf16 [OF dev(1,2)] plat by (intro wf_intros) (simp_all add: q_ascii_utf16 q_ascii_qs)
  then have read: "json_read qt ?body = Some ?obj" using laws(1) by (simp add: json_roundtripD)
  have obj: "j_string ?obj ''device_id'' [] = dev_deviceId d"
    by (simp add: j_defs toPresenceOnlineJson_def)
  have from_json: "fromPresenceJson qt (me_now eb) ?obj = Some \<lparr>dev_deviceId = dev_deviceId d,
      dev_displayName = dev_displayName d, dev_platform = dev_platform d, dev_lastSeen = me_now ea,
      dev_isOnline = True, dev_virtualIp = []\<rparr>"
    using valid_id_units [OF dev(1,2)] platform_roundtrip [OF laws(3)]
    by (simp add: fromPresenceJson_def j_defs toPresenceOnlineJson_def Let_def)
  have "q_startsWith ?topic (qs ''meckchat/v1/presence/online/'')" by (simp add: q_startsWith_def)
  then have deliver: "processReceivedPayload qt eb ?topic ?body b = (b, [DeviceDiscovered \<lparr>dev_deviceId = dev_deviceId d,
      dev_displayName = dev_displayName d, dev_platform = dev_platform d, dev_lastSeen = me_now ea,
      dev_isOnline = True, dev_virtualIp = []\<rparr>])"
    using receiver(1) dev(1) by (simp add: processReceivedPayload_def read obj from_json Let_def)
  have "handle_packet qt eb (fst ?p) (snd ?p) b = (b, [Written (PUBACK # encodeVariableLength 2 @ be16 i),
      DeviceDiscovered \<lparr>dev_deviceId = dev_deviceId d, dev_displayName = dev_displayName d,
        dev_platform = dev_platform d, dev_lastSeen = me_now ea, dev_isOnline = True, dev_virtualIp = []\<rparr>])"
    using publish_handled [OF laws(2) topic, of eb True i ?body b] size by (simp add: sendPuback_def deliver)
  moreover have "mqtt_small ?p"
    using size topic_ascii [OF topic] ascii_text(1) [OF laws(2), of ?topic]
    by (simp add: mqtt_small_def encodeUtf8String_def Let_def MAX_SIGNALING_PAYLOAD_SIZE_def)
  moreover have "accepting ?p" by (simp add: accepting_def publish_header_parts packet_types)
  ultimately have "mq_receive qt eb chunks b = (b, [Written (PUBACK # encodeVariableLength 2 @ be16 i),
      DeviceDiscovered \<lparr>dev_deviceId = dev_deviceId d, dev_displayName = dev_displayName d,
        dev_platform = dev_platform d, dev_lastSeen = me_now ea, dev_isOnline = True, dev_virtualIp = []\<rparr>])"
    if "concat chunks = mqtt_packet (fst ?p) (snd ?p)" for chunks
    using mqtt_chunks [of "[?p]" b chunks qt eb] that receiver(2) by (simp add: with_buffer_def)
  then show ?thesis using w by (intro exI conjI allI impI) simp_all
qed


lemma ser_obj_insert_le:
  "length (ser_obj (qm_insert k v m)) \<le> Suc (length (ser_key k) + length (ser_val v)) + length (ser_obj m)"
  by (induction k v m rule: qm_insert.induct) (auto simp: qm_insert.simps)

theorem presence_end_to_end_witness:
  "\<exists>w i. snd (publishOnlinePresence qt0 me0 (local_device me0) (connecting0\<lparr>mq_tcp := ConnectedState\<rparr>)) = [Written w]
    \<and> mq_receive qt0 (me0\<lparr>me_deviceId := qs ''mc_b''\<rparr>) [take 3 w, drop 3 w] mqtt_init
      = (mqtt_init, [Written (PUBACK # encodeVariableLength 2 @ be16 i),
           DeviceDiscovered \<lparr>dev_deviceId = qs ''mc_a'', dev_displayName = qs ''A'', dev_platform = Linux,
             dev_lastSeen = 1000, dev_isOnline = True, dev_virtualIp = []\<rparr>])"
proof -
  have small: "length (json_write qt0 (toPresenceOnlineJson 1000 (local_device me0))) \<le> MAX_SIGNALING_PAYLOAD_SIZE"
  proof -
    have "length (ser_obj (toPresenceOnlineJson 1000 (local_device me0))) \<le> 65536"
      unfolding toPresenceOnlineJson_def
      by (rule order_trans [OF ser_obj_insert_le], rule order_trans [OF add_left_mono [OF ser_obj_insert_le]],
          rule order_trans [OF add_left_mono [OF add_left_mono [OF ser_obj_insert_le]]])
        (simp add: local_device_def me0_def qs_def qm_insert.simps)
    then show ?thesis by (simp add: MAX_SIGNALING_PAYLOAD_SIZE_def qt0_def)
  qed
  have dev: "isValidDeviceId (qs ''mc_a'')" "last (qs ''mc_a'') \<noteq> 0x0A"
    by (simp_all add: isValidDeviceId_def q_startsWith_def id_regex_def qs_def id_unit_def)
  have fields: "dev_deviceId (local_device me0) = qs ''mc_a''" "dev_displayName (local_device me0) = qs ''A''"
    "dev_platform (local_device me0) = Linux" "me_now me0 = 1000"
    by (simp_all add: local_device_def me0_def)
  have other: "me_deviceId (me0\<lparr>me_deviceId := qs ''mc_b''\<rparr>) \<noteq> qs ''mc_a''" "mq_buffer mqtt_init = []"
    "mq_tcp (connecting0\<lparr>mq_tcp := ConnectedState\<rparr>) = ConnectedState" "q_utf16 (qs ''A'')"
    by (simp_all add: mqtt_init_def q_ascii_utf16 q_ascii_qs)
  obtain w i where w: "snd (publishOnlinePresence qt0 me0 (local_device me0) (connecting0\<lparr>mq_tcp := ConnectedState\<rparr>)) = [Written w]"
    and r: "\<And>chunks. concat chunks = w \<Longrightarrow> mq_receive qt0 (me0\<lparr>me_deviceId := qs ''mc_b''\<rparr>) chunks mqtt_init
      = (mqtt_init, [Written (PUBACK # encodeVariableLength 2 @ be16 i),
           DeviceDiscovered \<lparr>dev_deviceId = qs ''mc_a'', dev_displayName = qs ''A'', dev_platform = Linux,
             dev_lastSeen = 1000, dev_isOnline = True, dev_virtualIp = []\<rparr>])"
    using presence_end_to_end [OF json_roundtrip_qt0 utf8_ascii_qt0 lower_law_qt0, where d = "local_device me0"
        and a = "connecting0\<lparr>mq_tcp := ConnectedState\<rparr>" and ea = me0
        and eb = "me0\<lparr>me_deviceId := qs ''mc_b''\<rparr>" and b = mqtt_init, unfolded fields, OF dev other(4,3) _ _ small other(1,2)]
    by auto
  have "concat [take 3 w, drop 3 w] = w" by simp
  then show ?thesis using w r by blast
qed

text \<open>
  C16: Feeding a stream of packets (none of which refuses the connection) in any chunks to
  the client has exactly the effect of handling the packets one by one, and leaves the
  buffer empty.
\<close>

theorem mqtt_chunking_irrelevant:
  assumes "list_all mqtt_small ps" and "list_all accepting ps" and "mq_buffer s = []"
    and "concat chunks = concat (map (\<lambda>p. mqtt_packet (fst p) (snd p)) ps)"
  shows "mq_receive qt e chunks s = with_buffer [] (mq_handle_all qt e ps s)"
  by (rule mqtt_chunks [OF assms])

theorem mqtt_chunking_irrelevant_witness:
  "mq_receive qt0 me0 [[0xD0], [0, 0x90, 3, 0], [1], [1]] mqtt_init
     = with_buffer [] (mq_handle_all qt0 me0 [(0xD0, []), (0x90, [0, 1, 1])] mqtt_init)"
proof (rule mqtt_chunking_irrelevant)
  have "encodeVariableLength 0 = [0]" "encodeVariableLength 3 = [3]"
    by (simp_all add: encodeVariableLength_def varlen_loop.simps)
  then show "concat [[0xD0], [0, 0x90, 3, 0], [1], [1]]
      = concat (map (\<lambda>p. mqtt_packet (fst p) (snd p)) [(0xD0, []), (0x90, [0, 1, 1])])"
    by (simp add: mqtt_packet_def)
qed (simp_all add: mqtt_small_def accepting_def packet_types mqtt_init_def)

text \<open>
  C18: In every reachable state the session states and both ping timers belong to an open
  socket, a disconnected client has an empty buffer, and a pending reconnect has a delay of
  1 to 60.1 seconds.
\<close>

theorem signaling_session_invariant:
  assumes "mq_reach qt s"
  shows "(mq_state s \<in> {MqConnected, MqSubscribing, MqReady} \<or> mq_pingTimer s \<or> mq_pingTimeout s \<longrightarrow> mq_tcp s = ConnectedState)
    \<and> (mq_state s = MqDisconnected \<longrightarrow> mq_buffer s = [])
    \<and> (\<forall>d. mq_reconnect s = Some d \<longrightarrow> 1000 \<le> d \<and> d < 60100)"
  using mq_reach_inv [OF assms] by (simp add: mq_inv_def MAX_RECONNECT_MS_def)

theorem signaling_session_invariant_witness: "mq_tcp connecting0 = ConnectingState \<and> \<not> mq_pingTimer connecting0"
  using signaling_session_invariant [OF connecting0_reach] by (auto simp: connecting0_def)

text \<open>
  A device id that the validity test accepts can be announced exactly when it does not end
  in a newline: the pattern lets a final newline through, which the topic test then refuses
  without a sign.
\<close>

theorem newline_id_never_announced:
  assumes "isValidDeviceId i" and "mq_tcp s = ConnectedState" and "dev_deviceId d = i"
  shows "snd (publishOnlinePresence qt e d s) = [] \<longleftrightarrow> last i = 0x0A"
proof (cases "last i = 0x0A")
  case True
  have "i \<noteq> []" using assms(1) by (auto simp: isValidDeviceId_def)
  then have "0x0A \<in> set i" using True last_in_set by metis
  then have "\<not> isValidTopic (qs ''meckchat/v1/presence/online/'' @ i)"
    by (auto simp: valid_topic_iff intro!: bexI [of _ "0x0A"])
  then show ?thesis using True assms by (simp add: publishOnlinePresence_def sendPublish_def)
next
  case False
  then obtain j where "snd (sendPublish qt (qs ''meckchat/v1/presence/online/'' @ i)
      (json_write qt (toPresenceOnlineJson (me_now e) d)) 1 True s)
      = [Written (mqtt_packet (publish_header 1 True) (encodeUtf8String qt (qs ''meckchat/v1/presence/online/'' @ i)
          @ be16 j @ json_write qt (toPresenceOnlineJson (me_now e) d)))]"
    using packet_sendPublish [OF presence_topic_valid [OF assms(1) False] assms(2)] by blast
  then show ?thesis using False assms by (simp add: publishOnlinePresence_def)
qed

theorem newline_id_never_announced_witness:
  "isValidDeviceId (qs ''mc_a'' @ [0x0A])
    \<and> snd (publishOnlinePresence qt0 me0 (local_device (me0\<lparr>me_deviceId := qs ''mc_a'' @ [0x0A]\<rparr>))
        (connecting0\<lparr>mq_tcp := ConnectedState\<rparr>)) = []"
proof -
  have "isValidDeviceId (qs ''mc_a'' @ [0x0A])"
    by (simp add: isValidDeviceId_def q_startsWith_def id_regex_def qs_def id_unit_def)
  then show ?thesis
    using newline_id_never_announced [of "qs ''mc_a'' @ [0x0A]" "connecting0\<lparr>mq_tcp := ConnectedState\<rparr>"
        "local_device (me0\<lparr>me_deviceId := qs ''mc_a'' @ [0x0A]\<rparr>)" qt0 me0]
    by (simp add: local_device_def)
qed


end
