(* ===== verification/QtFormat.thy ===== *)
theory QtFormat
  imports QtBase
begin

text \<open>
  How Qt puts texts together: \<open>QString::arg\<close> with one and with several arguments and
  \<open>toHtmlEscaped\<close>, with what the window and the logger rely on.
\<close>

section \<open>One argument\<close>

text \<open>
  \<open>QString::arg\<close>: the place markers with the lowest number (one or two digits after a percent
  sign and perhaps an L) are replaced, all of them.
\<close>

definition q_digit :: "u16 \<Rightarrow> nat option" where
  "q_digit u = (if 0x30 \<le> u \<and> u \<le> 0x39 then Some (unat u - 0x30) else None)"

definition arg_number :: "qstring \<Rightarrow> (nat \<times> qstring) option" where
  "arg_number s =
    (case s of [] \<Rightarrow> None
     | c # r \<Rightarrow>
       (case q_digit c of None \<Rightarrow> None
        | Some d \<Rightarrow>
          (case r of [] \<Rightarrow> Some (d, r)
           | c' # r' \<Rightarrow> (case q_digit c' of None \<Rightarrow> Some (d, r) | Some d' \<Rightarrow> Some (10 * d + d', r')))))"

text \<open>After a percent sign: the number of the marker and the rest of the text.\<close>

definition arg_marker :: "qstring \<Rightarrow> (nat \<times> qstring) option" where
  "arg_marker s = arg_number (if s \<noteq> [] \<and> hd s = 0x4C then tl s else s)"

datatype piece = Unit u16 | Place nat qstring

lemma arg_number_shorter: "arg_number s = Some (n, r) \<Longrightarrow> length r < length s"
  by (auto simp: arg_number_def split: list.splits option.splits)

lemma arg_marker_shorter: "arg_marker s = Some (n, r) \<Longrightarrow> length r < length s"
  unfolding arg_marker_def by (cases s) (auto split: if_splits dest!: arg_number_shorter)

function arg_pieces :: "qstring \<Rightarrow> piece list" where
  "arg_pieces [] = []"
| "arg_pieces (u # s) =
    (if u \<noteq> 0x25 then Unit u # arg_pieces s
     else case arg_marker s of
       None \<Rightarrow> Unit u # arg_pieces s
     | Some (n, r) \<Rightarrow> Place n (take (length s + 1 - length r) (u # s)) # arg_pieces r)"
  by pat_completeness auto
termination
  by (relation "measure length") (auto dest: arg_marker_shorter)

fun place_numbers :: "piece list \<Rightarrow> nat list" where
  "place_numbers [] = []"
| "place_numbers (Unit u # ps) = place_numbers ps"
| "place_numbers (Place n raw # ps) = n # place_numbers ps"

definition q_arg :: "qstring \<Rightarrow> qstring \<Rightarrow> qstring" where
  "q_arg s a =
    (let ps = arg_pieces s; ns = place_numbers ps in
     if ns = [] then s
     else concat (map (\<lambda>p. case p of Unit u \<Rightarrow> [u] | Place n raw \<Rightarrow> if n = fold min ns (hd ns) then a else raw) ps))"

lemma pieces_append: "0x25 \<notin> set a \<Longrightarrow> arg_pieces (a @ s) = map Unit a @ arg_pieces s"
  by (induction a) auto

lemma places_units: "place_numbers (map Unit a @ ps) = place_numbers ps"
  by (induction a) auto

lemma arg_skip: "0x25 \<notin> set a \<Longrightarrow> q_arg (a @ s) x = a @ q_arg s x"
proof -
  have "concat (map (\<lambda>p. case p of Unit u \<Rightarrow> [u] | Place n raw \<Rightarrow> if n = m then x else raw) (map Unit a)) = a" for m
    by (induction a) auto
  then show "0x25 \<notin> set a \<Longrightarrow> ?thesis"
    by (simp add: q_arg_def pieces_append places_units Let_def)
qed

section \<open>What an argument can change\<close>

fun raw_of :: "piece \<Rightarrow> qstring" where
  "raw_of (Unit u) = [u]"
| "raw_of (Place n raw) = raw"

text \<open>The units of a place marker: percent sign, L, digits.\<close>

definition marker_unit :: "u16 \<Rightarrow> bool" where
  "marker_unit u \<longleftrightarrow> u = 0x25 \<or> u = 0x4C \<or> (0x30 \<le> u \<and> u \<le> 0x39)"

lemma prefix_one: "marker_unit c \<Longrightarrow> \<exists>p. c # r = p @ r \<and> list_all marker_unit p"
  by (rule exI [of _ "[c]"]) simp

lemma prefix_two: "marker_unit c \<Longrightarrow> marker_unit d \<Longrightarrow> \<exists>p. c # d # r = p @ r \<and> list_all marker_unit p"
  by (rule exI [of _ "[c, d]"]) simp

lemma digit_unit: "q_digit c = Some d \<Longrightarrow> marker_unit c"
  by (simp add: q_digit_def marker_unit_def split: if_splits)

lemma arg_number_prefix: "arg_number s = Some (n, r) \<Longrightarrow> \<exists>p. s = p @ r \<and> list_all marker_unit p"
  by (auto simp: arg_number_def split: list.splits option.splits intro: prefix_one [of _ "[]", simplified] prefix_one prefix_two
      dest!: digit_unit)

lemma arg_marker_prefix: "arg_marker s = Some (n, r) \<Longrightarrow> \<exists>p. s = p @ r \<and> list_all marker_unit p"
proof (cases "s \<noteq> [] \<and> hd s = 0x4C")
  case True
  then obtain t where t: "s = 0x4C # t" by (cases s) auto
  assume "arg_marker s = Some (n, r)"
  then obtain p where "t = p @ r" "list_all marker_unit p" using arg_number_prefix [of t n r] t by (auto simp: arg_marker_def)
  then show ?thesis using t by (intro exI [of _ "0x4C # p"]) (simp add: marker_unit_def)
next
  case False
  assume "arg_marker s = Some (n, r)"
  moreover have "arg_marker s = arg_number s" using False by (auto simp: arg_marker_def)
  ultimately show ?thesis using arg_number_prefix by simp
qed

lemma pieces_sound:
  "concat (map raw_of (arg_pieces s)) = s \<and> (\<forall>n raw. Place n raw \<in> set (arg_pieces s) \<longrightarrow> list_all marker_unit raw)"
proof (induction s rule: arg_pieces.induct)
  case (2 u s)
  show ?case
  proof (cases "u \<noteq> 0x25 \<or> arg_marker s = None")
    case True
    then show ?thesis using 2 by (cases "arg_marker s") auto
  next
    case False
    then obtain n r where m: "u = 0x25" "arg_marker s = Some (n, r)" by (cases "arg_marker s") auto
    then obtain p where p: "s = p @ r" "list_all marker_unit p" using arg_marker_prefix by blast
    have "arg_pieces (u # s) = Place n (0x25 # p) # arg_pieces r" using m p(1) by simp
    moreover have "marker_unit 0x25" by (simp add: marker_unit_def)
    ultimately show ?thesis using 2(3) [of "(n, r)" n r] m p by auto
  qed
qed simp

lemma filter_concat_map: "(\<And>x. x \<in> set xs \<Longrightarrow> filter P (f x) = filter P (g x)) \<Longrightarrow>
    filter P (concat (map f xs)) = filter P (concat (map g xs))"
  by (induction xs) auto

text \<open>An argument without units of a kind adds none of that kind, wherever it goes.\<close>

lemma arg_adds_nothing:
  assumes "filter P a = []" and "\<And>u. marker_unit u \<Longrightarrow> \<not> P u"
  shows "filter P (q_arg s a) = filter P s"
proof -
  define k where "k = fold min (place_numbers (arg_pieces s)) (hd (place_numbers (arg_pieces s)))"
  let ?f = "\<lambda>p. case p of Unit u \<Rightarrow> [u] | Place n raw \<Rightarrow> if n = k then a else raw"
  have raw: "filter P raw = []" if "Place n raw \<in> set (arg_pieces s)" for n raw
    using that pieces_sound [of s] assms(2) by (auto simp: filter_empty_conv list_all_iff)
  have "filter P (concat (map ?f (arg_pieces s))) = filter P (concat (map raw_of (arg_pieces s)))"
  proof (rule filter_concat_map)
    fix x assume x: "x \<in> set (arg_pieces s)"
    show "filter P (?f x) = filter P (raw_of x)" by (cases x) (use x raw assms(1) in auto)
  qed
  then show ?thesis unfolding q_arg_def Let_def k_def by (simp add: pieces_sound)
qed

section \<open>Several arguments\<close>

text \<open>The call with several texts replaces in one pass, the lowest number by the first text and so on.\<close>

definition q_args :: "qstring \<Rightarrow> qstring list \<Rightarrow> qstring" where
  "q_args s as =
    (let ps = arg_pieces s; ns = remdups (sort (place_numbers ps)) in
     concat (map (\<lambda>p. case p of Unit u \<Rightarrow> [u]
       | Place n raw \<Rightarrow> (case find (\<lambda>(m, a). m = n) (zip ns as) of Some (m, a) \<Rightarrow> a | None \<Rightarrow> raw)) ps))"

section \<open>HTML\<close>

definition toHtmlEscaped :: "qstring \<Rightarrow> qstring" where
  "toHtmlEscaped s = concat (map (\<lambda>u.
     if u = 0x3C then qs ''&lt;'' else if u = 0x3E then qs ''&gt;'' else if u = 0x26 then qs ''&amp;''
     else if u = 0x22 then qs ''&quot;'' else [u]) s)"

text \<open>What opens and closes a tag, or an attribute value.\<close>

definition markup :: "u16 \<Rightarrow> bool" where
  "markup u \<longleftrightarrow> u = 0x3C \<or> u = 0x3E \<or> u = 0x22"

lemma marker_no_markup: "marker_unit u \<Longrightarrow> \<not> markup u"
  by (auto simp: marker_unit_def markup_def)

lemma escaped_no_markup: "filter markup (toHtmlEscaped s) = []"
  by (induction s) (auto simp: toHtmlEscaped_def markup_def qs_def)

lemma arg_escaped: "filter markup (q_arg s (toHtmlEscaped t)) = filter markup s"
  by (rule arg_adds_nothing [OF escaped_no_markup marker_no_markup])

end
