(* ===== verification/MainWindow.thy ===== *)
theory MainWindow
  imports Chat FileTransfer Mqtt QtFormat "HOL-Library.Signed_Division"
begin

text \<open>
  src/ui/mainwindow.cpp: the slots of the main window, and with them the program as it is put
  together: one signaling client, one socket and two controllers sharing it. The state keeps
  what the widgets show as far as the code sets it; a paragraph of the chat display and the text of
  a label is its template with its arguments, but the entries of the peer list are the real
  texts, for the code reads them again. The tunnel service is created and never called. A
  dialog answers at once: what other events do while it is open is left out.
\<close>

text \<open>\<open>indexOf\<close> of a text.\<close>

fun q_find :: "qstring \<Rightarrow> qstring \<Rightarrow> nat option" where
  "q_find p [] = (if p = [] then Some 0 else None)"
| "q_find p (u # s) = (if q_startsWith (u # s) p then Some 0 else map_option Suc (q_find p s))"

section \<open>State\<close>

datatype display_entry =
    MyMessage qstring qstring
  | PeerMessage qstring qstring
  | OfferSent qstring int
  | TransferAcceptedText qstring
  | TransferRejectedText qstring
  | TransferSavedText qstring
  | TransferFailedText
  | TransferCancelledText qstring

datatype transfer_label =
    NoTransfer
  | OfferingFile qstring
  | ReceivingFile qstring
  | TransferringBytes int int int
  | TransferVerified
  | TransferFailedLabel
  | TransferCancelledLabel qstring

record ui =
  ui_peerList :: "qstring list"
  ui_display :: "display_entry list"
  ui_input :: qstring
  ui_progress :: int
  ui_progressVisible :: bool
  ui_transfer :: transfer_label
  ui_transferVisible :: bool
  ui_status :: qstring
  ui_typing :: "qstring option"
  ui_selectedPeerId :: qstring
  ui_selectedPeerIp :: qstring
  ui_mqtt :: mqtt
  ui_socket :: p2p
  ui_chat :: chat
  ui_ft :: ft

record ui_env =
  ue_qt :: qt_lib
  ue_fl :: file_lib
  ue_os :: os
  ue_call :: call_env
  ue_mq :: mq_env
  ue_uuid :: qstring
  ue_yes :: bool                       \<comment> \<open>the answer to the file offer\<close>
  ue_directory :: qstring              \<comment> \<open>the chosen folder, empty when cancelled\<close>
  ue_downloads :: qstring              \<comment> \<open>the download location\<close>

definition ui_start :: "fs \<Rightarrow> ui" where
  "ui_start fs = \<lparr>ui_peerList = [], ui_display = [], ui_input = [], ui_progress = 0, ui_progressVisible = False,
     ui_transfer = NoTransfer, ui_transferVisible = False, ui_status = qs ''Status: Online (Linux Native)'', ui_typing = None,
     ui_selectedPeerId = [], ui_selectedPeerIp = [], ui_mqtt = mqtt_init, ui_socket = p2p_init, ui_chat = chat_init,
     ui_ft = ft_init fs\<rparr>"

section \<open>Slots\<close>

definition ui_show :: "display_entry \<Rightarrow> ui \<Rightarrow> ui" where
  "ui_show p s = s\<lparr>ui_display := ui_display s @ [p]\<rparr>"

text \<open>\<open>QProgressBar::setValue\<close> ignores what is out of the range from 0 to 100.\<close>

definition setProgress :: "int \<Rightarrow> ui \<Rightarrow> ui" where
  "setProgress v s = (if 0 \<le> v \<and> v \<le> 100 then s\<lparr>ui_progress := v\<rparr> else s)"

definition onTransferProgress :: "int \<Rightarrow> int \<Rightarrow> ui \<Rightarrow> ui" where
  "onTransferProgress transferredBytes totalBytes s =
    (if totalBytes > 0
     then let percent = sint (word_of_int ((transferredBytes * 100) sdiv totalBytes) :: u32) in
       (setProgress percent s)\<lparr>ui_transfer := TransferringBytes transferredBytes totalBytes percent\<rparr>
     else s)"

definition onTransferCompleted :: "qstring \<Rightarrow> ui \<Rightarrow> ui" where
  "onTransferCompleted filePath s =
    ui_show (TransferSavedText filePath) ((setProgress 100 s)\<lparr>ui_transfer := TransferVerified\<rparr>)"

definition onTransferFailed :: "ui \<Rightarrow> ui" where
  "onTransferFailed s = ui_show TransferFailedText (s\<lparr>ui_progressVisible := False, ui_transfer := TransferFailedLabel\<rparr>)"

definition onTransferCancelled :: "qstring \<Rightarrow> ui \<Rightarrow> ui" where
  "onTransferCancelled reason s =
    ui_show (TransferCancelledText reason) (s\<lparr>ui_progressVisible := False, ui_transfer := TransferCancelledLabel reason\<rparr>)"

definition onMessageReceived :: "chat_message \<Rightarrow> ui \<Rightarrow> ui" where
  "onMessageReceived msg s = ui_show (PeerMessage (cm_senderDeviceId msg) (cm_content msg)) s"

definition onPeerTypingChanged :: "qstring \<Rightarrow> bool \<Rightarrow> ui \<Rightarrow> ui" where
  "onPeerTypingChanged peerId isTyping s = s\<lparr>ui_typing := (if isTyping then Some peerId else None)\<rparr>"

text \<open>The slot of \<open>deviceDiscovered\<close>.\<close>

definition peer_text :: "device \<Rightarrow> qstring" where
  "peer_text d = q_arg (q_arg (q_arg (qs ''%1 (%2, %3)'') (dev_displayName d)) (dev_deviceId d)) (platformToString (dev_platform d))"

definition onDeviceDiscovered :: "device \<Rightarrow> ui \<Rightarrow> ui" where
  "onDeviceDiscovered d s = s\<lparr>ui_peerList := ui_peerList s @ [peer_text d]\<rparr>"

definition onPeerSelected :: "int \<Rightarrow> ui \<Rightarrow> ui" where
  "onPeerSelected row s =
    (if row \<ge> 0 \<and> row < int (length (ui_peerList s)) then
      let text = ui_peerList s ! nat row;
          s1 = s\<lparr>ui_status := q_arg (qs ''Selected Peer: %1'') text\<rparr> in
      (case q_find (qs ''(mc_'') text of
         None \<Rightarrow> s1
       | Some i \<Rightarrow>
         (case q_indexOf 0x2C (drop i text) of
            None \<Rightarrow> s1
          | Some n \<Rightarrow> s1\<lparr>ui_selectedPeerId := take (n - 1) (drop (i + 1) text)\<rparr>))
     else s)"

text \<open>
  What the signals of the controllers do here; \<open>messageStatusChanged\<close> is only logged. A lost
  connection that one controller meets is signalled to the other one too.
\<close>

definition ui_ft_slot :: "ft_event \<Rightarrow> ui \<Rightarrow> ui" where
  "ui_ft_slot ev s =
    (case ev of
       TransferProgress tid t n \<Rightarrow> onTransferProgress t n s
     | TransferCompleted tid path \<Rightarrow> onTransferCompleted path s
     | TransferFailed tid \<Rightarrow> onTransferFailed s
     | TransferCancelled tid reason \<Rightarrow> onTransferCancelled reason s
     | _ \<Rightarrow> s)"

definition ui_chat_slot :: "chat_event \<Rightarrow> ui \<Rightarrow> ui" where
  "ui_chat_slot ev s =
    (case ev of
       MessageReceived msg \<Rightarrow> onMessageReceived msg s
     | PeerTypingChanged peerId b \<Rightarrow> onPeerTypingChanged peerId b s
     | SocketEvent DisconnectedSignal \<Rightarrow>
        (case ft_onSocketDisconnected (ui_ft s) of (st, evs) \<Rightarrow> fold ui_ft_slot evs (s\<lparr>ui_ft := st\<rparr>))
     | _ \<Rightarrow> s)"

text \<open>A call of a controller, and the slots its signals run.\<close>

definition on_chat :: "(chat_link \<Rightarrow> chat_link \<times> chat_event list) \<Rightarrow> ui \<Rightarrow> ui" where
  "on_chat f s =
    (case f (ui_chat s, Some (ui_socket s)) of ((c, l), ev) \<Rightarrow>
      fold ui_chat_slot ev (s\<lparr>ui_socket := (case l of Some p \<Rightarrow> p | None \<Rightarrow> ui_socket s), ui_chat := c\<rparr>))"

definition ui_ft_socket_slot :: "ft_event \<Rightarrow> ui \<Rightarrow> ui" where
  "ui_ft_socket_slot ev s =
    (case ev of
       FtSocketEvent DisconnectedSignal \<Rightarrow>
        (case chat_onSocketDisconnected (ui_chat s) of (c, evs) \<Rightarrow> fold ui_chat_slot evs (s\<lparr>ui_chat := c\<rparr>))
     | _ \<Rightarrow> ui_ft_slot ev s)"

definition on_ft :: "(ft_event \<Rightarrow> ui \<Rightarrow> ui) \<Rightarrow> (ft_link \<Rightarrow> ft_link \<times> ft_event list) \<Rightarrow> ui \<Rightarrow> ui" where
  "on_ft slot f s =
    (case f (ui_ft s, Some (ui_socket s)) of ((st, l), ev) \<Rightarrow>
      fold slot ev (s\<lparr>ui_socket := (case l of Some p \<Rightarrow> p | None \<Rightarrow> ui_socket s), ui_ft := st\<rparr>))"

definition onFileOfferReceived :: "ui_env \<Rightarrow> file_offer \<Rightarrow> ui \<Rightarrow> ui" where
  "onFileOfferReceived e offer s =
    (if ue_yes e then
      let destDir = (if ue_directory e = [] then ue_downloads e else ue_directory e);
          s1 = on_ft ui_ft_socket_slot
            (\<lambda>l. case acceptTransfer (ue_qt e) (ue_fl e) (ue_os e) (ue_call e) (fo_transferId offer) destDir l of (l', _, ev) \<Rightarrow> (l', ev)) s in
      ui_show (TransferAcceptedText (fo_fileName offer))
        ((setProgress 0 s1)\<lparr>ui_progressVisible := True, ui_transfer := ReceivingFile (fo_fileName offer), ui_transferVisible := True\<rparr>)
     else
      ui_show (TransferRejectedText (fo_fileName offer))
        (on_ft ui_ft_socket_slot
          (\<lambda>l. case rejectTransfer (ue_qt e) (ue_call e) (fo_transferId offer) (qs ''user_declined'') l of (l', _, ev) \<Rightarrow> (l', ev)) s))"

definition ui_transfer_slot :: "ui_env \<Rightarrow> ft_event \<Rightarrow> ui \<Rightarrow> ui" where
  "ui_transfer_slot e ev s =
    (case ev of FileOfferReceived offer \<Rightarrow> onFileOfferReceived e offer s | _ \<Rightarrow> ui_ft_socket_slot ev s)"

definition ui_recipient :: "ui \<Rightarrow> qstring" where
  "ui_recipient s = (if ui_selectedPeerId s = [] then qs ''mc_broadcast_peer'' else ui_selectedPeerId s)"

text \<open>Clearing the input signals a changed, empty text, for which \<open>onTextChanged\<close> does nothing.\<close>

definition onTextChanged :: "ui_env \<Rightarrow> qstring \<Rightarrow> ui \<Rightarrow> ui" where
  "onTextChanged e text s =
    (if text \<noteq> []
     then on_chat (sendTypingNotification (ue_qt e) (ue_call e) (ui_recipient s) True (ui_selectedPeerIp s)) s
     else s)"

definition edit_input :: "ui_env \<Rightarrow> qstring \<Rightarrow> ui \<Rightarrow> ui" where
  "edit_input e text s = (if text = ui_input s then s else onTextChanged e text (s\<lparr>ui_input := text\<rparr>))"

definition onSendMessage :: "ui_env \<Rightarrow> ui \<Rightarrow> ui" where
  "onSendMessage e s =
    (let text = q_trimmed (ui_input s) in
     if text = [] then s
     else
      let recipient = ui_recipient s;
          send = sendMessage (ue_qt e) (ue_call e) (ue_uuid e) recipient text (ui_selectedPeerIp s);
          msgId = fst (snd (send (ui_chat s, Some (ui_socket s))));
          s1 = on_chat (\<lambda>l. case send l of (l', _, ev) \<Rightarrow> (l', ev)) s;
          s2 = (if msgId \<noteq> [] then ui_show (MyMessage msgId text) s1 else s1);
          s3 = edit_input e [] s2 in
      on_chat (sendTypingNotification (ue_qt e) (ue_call e) recipient False (ui_selectedPeerIp s3)) s3)"

definition onSendFile :: "ui_env \<Rightarrow> qstring \<Rightarrow> ui \<Rightarrow> ui" where
  "onSendFile e filePath s =
    (if filePath = [] then s
     else
      let send = sendFile (ue_qt e) (ue_fl e) (ue_os e) (ue_call e) (ue_uuid e) filePath (ui_selectedPeerIp s);
          transferId = fst (snd (send (ui_ft s, Some (ui_socket s))));
          s1 = on_ft ui_ft_socket_slot (\<lambda>l. case send l of (l', _, ev) \<Rightarrow> (l', ev)) s in
      if transferId = [] then s1
      else
       ui_show (OfferSent (path_fileName (ue_qt e) filePath) (int (length (fs_content (ft_fs (ui_ft s)) filePath))))
        ((setProgress 0 s1)\<lparr>ui_progressVisible := True, ui_transfer := OfferingFile (path_fileName (ue_qt e) filePath),
          ui_transferVisible := True\<rparr>))"


section \<open>The application\<close>

text \<open>
  What can happen: the user acts, a timer fires, the broker connection or the socket gets an
  event. Connecting, announcing, starting the server are calls that someone has to make; here
  only the slots above call anything.
\<close>

datatype ui_input =
    EditText qstring
  | ClickSend
  | ClickSendFile qstring
  | SelectRow int
  | ChatTimer chat_input
  | ChunkEvent
  | Signaling mqtt_input
  | Socket p2p_input

fun chat_timer_runs :: "chat_input \<Rightarrow> chat \<Rightarrow> bool" where
  "chat_timer_runs (AckTimer i) c = (qm_value (ct_ackTimers c) i \<noteq> None)"
| "chat_timer_runs LocalTypingTimer c = (ct_typingStop c \<noteq> None)"
| "chat_timer_runs (PeerTypingTimer i) c = (qm_value (ct_peerTyping c) i \<noteq> None)"
| "chat_timer_runs _ c = False"

fun mqtt_happens :: "mqtt_input \<Rightarrow> mqtt \<Rightarrow> bool" where
  "mqtt_happens (MqConnect h p) s = False"
| "mqtt_happens MqDisconnect s = False"
| "mqtt_happens (MqAnnounce d) s = False"
| "mqtt_happens (MqLeave d) s = False"
| "mqtt_happens (MqDiscover d) s = False"
| "mqtt_happens i s = mq_enabled i s"

fun socket_happens :: "p2p_input \<Rightarrow> p2p \<Rightarrow> bool" where
  "socket_happens (TcpConnected wr) p = (sk_tcp p = ConnectingState)"
| "socket_happens TcpDisconnected p = (sk_tcp p = ConnectedState \<or> sk_tcp p = ClosingState)"
| "socket_happens (TcpReadyRead bs) p = (sk_tcp p = ConnectedState)"
| "socket_happens (TcpBytesWritten wr) p = (sk_tcp p = ConnectedState)"
| "socket_happens TcpError p = (sk_tcp p \<noteq> UnconnectedState)"
| "socket_happens (NewConnections cs) p = sk_listening p"
| "socket_happens (ClientReady c bs) p = qm_contains (sk_clients p) c"
| "socket_happens (ClientClosed c ip) p = qm_contains (sk_clients p) c"
| "socket_happens _ p = False"

fun ui_enabled :: "ui_input \<Rightarrow> ui \<Rightarrow> bool" where
  "ui_enabled (ChatTimer i) s = chat_timer_runs i (ui_chat s)"
| "ui_enabled ChunkEvent s = (ft_pending (ui_ft s) \<noteq> [])"
| "ui_enabled (Signaling i) s = mqtt_happens i (ui_mqtt s)"
| "ui_enabled (Socket i) s = socket_happens i (ui_socket s)"
| "ui_enabled _ s = True"

text \<open>The socket signals both controllers, the one for chat first.\<close>

fun socket_signals :: "p2p_input \<Rightarrow> p2p \<Rightarrow> p2p \<times> p2p_event list" where
  "socket_signals (TcpConnected wr) p = onSocketConnected wr (p\<lparr>sk_tcp := ConnectedState\<rparr>)"
| "socket_signals TcpDisconnected p = onSocketDisconnected (p\<lparr>sk_tcp := UnconnectedState\<rparr>)"
| "socket_signals (TcpReadyRead bs) p = onSocketReadyRead bs p"
| "socket_signals (TcpBytesWritten wr) p = onSocketBytesWritten wr p"
| "socket_signals TcpError p = onSocketError p"
| "socket_signals (NewConnections cs) p = onServerNewConnection cs p"
| "socket_signals (ClientReady c bs) p = clientReadyRead c bs p"
| "socket_signals (ClientClosed c ip) p = clientDisconnected c ip p"
| "socket_signals _ p = (p, [])"

definition on_socket_event :: "ui_env \<Rightarrow> p2p_event \<Rightarrow> ui \<Rightarrow> ui" where
  "on_socket_event e ev s =
    (case ev of
       FrameReceivedFrom f ip \<Rightarrow>
         on_ft (ui_transfer_slot e) (ft_onFrameReceivedFrom (ue_qt e) (ue_fl e) (ue_os e) (ue_call e) f)
           (on_chat (chat_onFrameReceivedFrom (ue_qt e) (ue_call e) f) s)
     | PeerDisconnected ip \<Rightarrow>
         on_ft ui_ft_slot (\<lambda>(st, l). case ft_onPeerDisconnected st of (st', evs) \<Rightarrow> ((st', l), evs))
           (on_chat (\<lambda>(c, l). case chat_onPeerDisconnected c of (c', evs) \<Rightarrow> ((c', l), evs)) s)
     | DisconnectedSignal \<Rightarrow>
         on_ft ui_ft_slot (\<lambda>(st, l). case ft_onSocketDisconnected st of (st', evs) \<Rightarrow> ((st', l), evs))
           (on_chat (\<lambda>(c, l). case chat_onSocketDisconnected c of (c', evs) \<Rightarrow> ((c', l), evs)) s)
     | _ \<Rightarrow> s)"

definition on_mqtt_event :: "mqtt_event \<Rightarrow> ui \<Rightarrow> ui" where
  "on_mqtt_event ev s = (case ev of DeviceDiscovered d \<Rightarrow> onDeviceDiscovered d s | _ \<Rightarrow> s)"

definition ui_step :: "ui_env \<Rightarrow> ui_input \<Rightarrow> ui \<Rightarrow> ui" where
  "ui_step e i s =
    (case i of
       EditText text \<Rightarrow> edit_input e text s
     | ClickSend \<Rightarrow> onSendMessage e s
     | ClickSendFile path \<Rightarrow> onSendFile e path s
     | SelectRow row \<Rightarrow> onPeerSelected row s
     | ChatTimer t \<Rightarrow> on_chat (chat_step (ue_qt e) (ue_call e) t) s
     | ChunkEvent \<Rightarrow> on_ft ui_ft_socket_slot (run_pending (ue_qt e) (ue_os e) (ue_call e)) s
     | Signaling m \<Rightarrow>
        (case mq_step (ue_qt e) (ue_mq e) m (ui_mqtt s) of (m', evs) \<Rightarrow> fold on_mqtt_event evs (s\<lparr>ui_mqtt := m'\<rparr>))
     | Socket t \<Rightarrow>
        (case socket_signals t (ui_socket s) of (p', evs) \<Rightarrow> fold (on_socket_event e) evs (s\<lparr>ui_socket := p'\<rparr>)))"

text \<open>Between two steps other programs change the file system.\<close>

inductive ui_reach :: "ui \<Rightarrow> bool" where
  start: "ui_reach (ui_start fs)"
| step: "ui_reach s \<Longrightarrow> ui_enabled i s \<Longrightarrow> ui_reach (ui_step e i s)"
| files: "ui_reach s \<Longrightarrow> ui_reach (s\<lparr>ui_ft := (ui_ft s)\<lparr>ft_fs := fs\<rparr>\<rparr>)"

section \<open>Nothing connects\<close>

definition open_or_failed :: "chat \<Rightarrow> bool" where
  "open_or_failed c \<longleftrightarrow> list_all (\<lambda>(i, t). tm_state t = Pending \<or> tm_state t = Failed) (ct_outgoing c)"

definition offline :: "ui \<Rightarrow> bool" where
  "offline s \<longleftrightarrow> ui_socket s = p2p_init \<and> ui_mqtt s = mqtt_init \<and> ui_peerList s = [] \<and> ui_selectedPeerIp s = []
    \<and> ft_pending (ui_ft s) = [] \<and> ct_peerTyping (ui_chat s) = [] \<and> open_or_failed (ui_chat s)
    \<and> (\<forall>sender content. PeerMessage sender content \<notin> set (ui_display s))"

lemma link_off [simp]:
  "link_send e f (Some p2p_init) = (Some p2p_init, False, [])"
  "link_connect e [] (Some p) = (Some p, [])"
  "link_isConnected (Some p2p_init) = False"
  by (simp_all add: link_send_def sendFrame_def p2p_init_def client_writes_def link_connect_def link_isConnected_def isConnected_def Let_def)

lemma chat_off [simp]:
  "chat_connect e [] (c, Some p) = ((c, Some p), [])"
  "chat_send e f (c, Some p2p_init) = ((c, Some p2p_init), False, [FrameSent f False])"
  by (simp_all add: chat_connect_def chat_send_def)

lemma ft_off [simp]:
  "ft_connect e [] (st, Some p) = ((st, Some p), [])"
  "ft_send e f (st, Some p2p_init) = ((st, Some p2p_init), [FtFrameSent f False])"
  by (simp_all add: ft_connect_def ft_send_def)


fun inert :: "chat_event \<Rightarrow> bool" where
  "inert (FrameSent f ok) = True"
| "inert (MessageSent i) = True"
| "inert (MessageStatusChanged i st) = True"
| "inert ChatErrorOccurred = True"
| "inert _ = False"

text \<open>Signals that mean nothing to the slots connected to them.\<close>

locale silent_signals =
  fixes slot :: "'e \<Rightarrow> 's \<Rightarrow> 's" and silent :: "'e \<Rightarrow> bool"
  assumes slot_silent: "silent ev \<Longrightarrow> slot ev s = s"
begin

lemma slots_silent: "list_all silent evs \<Longrightarrow> fold slot evs s = s"
  by (induction evs arbitrary: s) (simp_all add: slot_silent)

end

interpretation chat_slots: silent_signals ui_chat_slot inert
proof
  fix ev s
  assume "inert ev"
  then show "ui_chat_slot ev s = s" by (cases ev) (simp_all add: ui_chat_slot_def)
qed

definition chat_calm :: "chat \<Rightarrow> bool" where
  "chat_calm c \<longleftrightarrow> open_or_failed c \<and> ct_peerTyping c = []"

definition quiet :: "(chat_link \<Rightarrow> chat_link \<times> chat_event list) \<Rightarrow> bool" where
  "quiet f \<longleftrightarrow> (\<forall>c. chat_calm c \<longrightarrow>
     (\<exists>c' evs. f (c, Some p2p_init) = ((c', Some p2p_init), evs) \<and> list_all inert evs \<and> chat_calm c'))"

lemma offline_on_chat:
  assumes "quiet f" and "offline s"
  shows "offline (on_chat f s)"
proof -
  have calm: "chat_calm (ui_chat s)" "ui_socket s = p2p_init" using assms(2) by (simp_all add: offline_def chat_calm_def)
  then obtain c' evs where f: "f (ui_chat s, Some p2p_init) = ((c', Some p2p_init), evs)" "list_all inert evs" "chat_calm c'"
    using assms(1) by (auto simp: quiet_def)
  have "on_chat f s = s\<lparr>ui_socket := p2p_init, ui_chat := c'\<rparr>"
    by (simp add: on_chat_def calm(2) f(1) chat_slots.slots_silent [OF f(2)])
  then show ?thesis using assms(2) f(3) by (simp add: offline_def chat_calm_def)
qed

lemma calm_updates [simp]:
  "chat_calm (c\<lparr>ct_lastTypingRecipient := r\<rparr>) = chat_calm c" "chat_calm (c\<lparr>ct_localIsTyping := b\<rparr>) = chat_calm c"
  "chat_calm (c\<lparr>ct_typingStop := t\<rparr>) = chat_calm c" "chat_calm (c\<lparr>ct_ackTimers := a\<rparr>) = chat_calm c"
  by (simp_all add: chat_calm_def open_or_failed_def)

lemma calm_insert: "chat_calm c \<Longrightarrow> tm_state t = Pending \<or> tm_state t = Failed \<Longrightarrow>
    chat_calm (c\<lparr>ct_outgoing := qm_insert i t (ct_outgoing c)\<rparr>)
    \<and> chat_calm (c\<lparr>ct_ackTimers := a, ct_outgoing := qm_insert i t (ct_outgoing c)\<rparr>)"
  by (simp add: chat_calm_def open_or_failed_def list_all_qm_insert)

lemma quiet_typing: "quiet (sendTypingNotification qt e r b [])"
  by (auto simp: quiet_def sendTypingNotification_def Let_def)

lemma quiet_localTyping: "quiet (localTypingTimeout qt e)"
  using quiet_typing [of qt e _ False] unfolding quiet_def by (auto simp: localTypingTimeout_def Let_def)

lemma quiet_ack: "quiet (chat_step qt e (AckTimer i))"
  unfolding quiet_def
  by (auto simp: ackTimeout_def calm_insert split: option.splits)

lemma quiet_send: "quiet (\<lambda>l. case sendMessage qt e uuid r content [] l of (l', _, ev) \<Rightarrow> (l', ev))"
  unfolding quiet_def by (auto simp: sendMessage_def Let_def calm_insert)


fun ft_inert :: "ft_event \<Rightarrow> bool" where
  "ft_inert (FtFrameSent f ok) = True"
| "ft_inert (TransferStarted i n k d) = True"
| "ft_inert _ = False"

interpretation transfer_slots: silent_signals ui_ft_socket_slot ft_inert
proof
  fix ev s
  assume "ft_inert ev"
  then show "ui_ft_socket_slot ev s = s" by (cases ev) (simp_all add: ui_ft_socket_slot_def ui_ft_slot_def)
qed

lemma sendFile_off:
  "\<exists>st' i evs. sendFile qt fl os e uuid path [] (st, Some p2p_init) = ((st', Some p2p_init), i, evs)
    \<and> ft_pending st' = ft_pending st \<and> list_all ft_inert evs"
  by (auto simp: sendFile_def Let_def ft_put_def split: option.split)

lemma offline_updates:
  "offline s \<Longrightarrow> offline (setProgress v s)"
  "offline s \<Longrightarrow> (\<And>u c. p \<noteq> PeerMessage u c) \<Longrightarrow> offline (ui_show p s)"
  "offline s \<Longrightarrow> offline (s\<lparr>ui_input := text\<rparr>)"
  "offline s \<Longrightarrow> offline (s\<lparr>ui_progressVisible := b, ui_transfer := t, ui_transferVisible := b'\<rparr>)"
  "offline s \<Longrightarrow> ft_pending st = [] \<Longrightarrow> offline (s\<lparr>ui_ft := st\<rparr>)"
  by (auto simp: offline_def setProgress_def ui_show_def)

lemma offline_typing: "offline s \<Longrightarrow> offline (on_chat (sendTypingNotification qt e r b (ui_selectedPeerIp s)) s)"
  using offline_on_chat [of "sendTypingNotification qt e r b []" s, OF quiet_typing] by (simp add: offline_def)

lemma offline_edit: "offline s \<Longrightarrow> offline (edit_input e text s)"
  using offline_typing [of "s\<lparr>ui_input := text\<rparr>"] offline_updates(3) [of s "text"]
  by (auto simp: edit_input_def onTextChanged_def)

lemma offline_send: "offline s \<Longrightarrow> offline (onSendMessage e s)"
proof -
  assume o: "offline s"
  then have ip: "ui_selectedPeerIp s = []" by (simp add: offline_def)
  let ?t = "q_trimmed (ui_input s)"
  define s1 where "s1 = on_chat (\<lambda>l. case sendMessage (ue_qt e) (ue_call e) (ue_uuid e) (ui_recipient s) ?t [] l of (l', _, ev) \<Rightarrow> (l', ev)) s"
  have o1: "offline s1" unfolding s1_def by (rule offline_on_chat [OF quiet_send o])
  define s2 where "s2 = (if fst (snd (sendMessage (ue_qt e) (ue_call e) (ue_uuid e) (ui_recipient s) ?t [] (ui_chat s, Some (ui_socket s)))) \<noteq> []
    then ui_show (MyMessage (fst (snd (sendMessage (ue_qt e) (ue_call e) (ue_uuid e) (ui_recipient s) ?t [] (ui_chat s, Some (ui_socket s))))) ?t) s1 else s1)"
  have o2: "offline s2" unfolding s2_def using o1 by (simp add: offline_updates)
  have "onSendMessage e s = (if ?t = [] then s
      else on_chat (sendTypingNotification (ue_qt e) (ue_call e) (ui_recipient s) False (ui_selectedPeerIp (edit_input e [] s2))) (edit_input e [] s2))"
    by (simp only: onSendMessage_def Let_def ip s1_def s2_def)
  then show ?thesis using o offline_typing [OF offline_edit [OF o2]] by simp
qed

lemma offline_file: "offline s \<Longrightarrow> offline (onSendFile e path s)"
proof -
  assume o: "offline s"
  then have f: "ui_selectedPeerIp s = []" "ui_socket s = p2p_init" "ft_pending (ui_ft s) = []" by (simp_all add: offline_def)
  obtain st' i evs where w: "sendFile (ue_qt e) (ue_fl e) (ue_os e) (ue_call e) (ue_uuid e) path [] (ui_ft s, Some p2p_init)
      = ((st', Some p2p_init), i, evs)" "ft_pending st' = []" "list_all ft_inert evs"
    using sendFile_off [of "ue_qt e" "ue_fl e" "ue_os e" "ue_call e" "ue_uuid e" path "ui_ft s"] f(3) by auto
  define s1 where "s1 = s\<lparr>ui_socket := p2p_init, ui_ft := st'\<rparr>"
  have o1: "offline s1" using o w(2) by (simp add: offline_def s1_def)
  have "on_ft ui_ft_socket_slot (\<lambda>l. case sendFile (ue_qt e) (ue_fl e) (ue_os e) (ue_call e) (ue_uuid e) path [] l of (l', _, ev) \<Rightarrow> (l', ev)) s = s1"
    by (simp add: on_ft_def f(2) w(1) transfer_slots.slots_silent [OF w(3)] s1_def)
  then show ?thesis
    using o o1 unfolding onSendFile_def Let_def f(1,2) w(1) by (simp add: offline_updates)
qed

lemma offline_step: "offline s \<Longrightarrow> ui_enabled i s \<Longrightarrow> offline (ui_step e i s)"
proof (cases i)
  case (ChatTimer t)
  assume o: "offline s" "ui_enabled i s"
  then have "quiet (chat_step (ue_qt e) (ue_call e) t)"
    using quiet_ack quiet_localTyping by (cases t) (auto simp: ChatTimer offline_def qm_value_def quiet_def)
  then show ?thesis using o offline_on_chat by (simp add: ui_step_def ChatTimer)
next
  case (Signaling m)
  assume "offline s" "ui_enabled i s"
  then have "mqtt_happens m mqtt_init" by (simp add: offline_def Signaling)
  then show ?thesis by (cases m) (simp_all add: mqtt_init_def)
next
  case (Socket t)
  assume "offline s" "ui_enabled i s"
  then have "socket_happens t p2p_init" by (simp add: offline_def Socket)
  then show ?thesis by (cases t) (simp_all add: p2p_init_def qm_contains_def)
next
  case (SelectRow row)
  assume o: "offline s"
  then have "onPeerSelected row s = s" by (auto simp: onPeerSelected_def offline_def)
  with o show ?thesis by (simp add: SelectRow ui_step_def)
qed (simp_all add: ui_step_def offline_edit offline_send offline_file, simp add: offline_def)

lemma reach_offline: "ui_reach s \<Longrightarrow> offline s"
proof (induction rule: ui_reach.induct)
  case (start fs)
  show ?case by (simp add: offline_def ui_start_def chat_init_def ft_init_def open_or_failed_def)
next
  case (step s i e)
  then show ?case by (simp add: offline_step)
next
  case (files s fs)
  then show ?case by (simp add: offline_updates(5) offline_def)
qed


text \<open>
  C19: As the program is put together, whatever the user does and whenever timers fire, the
  broker client and the socket stay as constructed: no peer is ever listed, no message of a
  peer shown, and every message sent stays pending or fails.
\<close>

theorem application_never_connects:
  assumes "ui_reach s"
  shows "ui_socket s = p2p_init \<and> ui_mqtt s = mqtt_init \<and> ui_peerList s = []
    \<and> (\<forall>i t. qm_value (ct_outgoing (ui_chat s)) i = Some t \<longrightarrow> tm_state t = Pending \<or> tm_state t = Failed)
    \<and> (\<forall>sender content. PeerMessage sender content \<notin> set (ui_display s))"
  using reach_offline [OF assms] list_all_qm_value [of "\<lambda>(i, t). tm_state t = Pending \<or> tm_state t = Failed"]
  by (fastforce simp: offline_def open_or_failed_def)

section \<open>Selecting a peer\<close>

lemma peer_formats:
  "q_arg (qs ''%1 (%2, %3)'') x = x @ qs '' (%2, %3)''"
  "q_arg (qs '' (%2, %3)'') x = qs '' ('' @ x @ qs '', %3)''"
  "q_arg (qs '', %3)'') x = qs '', '' @ x @ qs '')''"
  by (simp_all add: q_arg_def qs_def Let_def arg_marker_def arg_number_def q_digit_def)

lemma peer_text_plain:
  assumes "0x25 \<notin> set (dev_displayName d)" and "0x25 \<notin> set (dev_deviceId d)"
  shows "peer_text d = dev_displayName d @ qs '' ('' @ dev_deviceId d @ qs '', '' @ platformToString (dev_platform d) @ qs '')''"
proof -
  let ?n = "dev_displayName d" and ?i = "dev_deviceId d" and ?p = "platformToString (dev_platform d)"
  have "q_arg (q_arg (qs ''%1 (%2, %3)'') ?n) ?i = ?n @ qs '' ('' @ ?i @ qs '', %3)''"
    by (simp only: peer_formats arg_skip [OF assms(1)])
  moreover have m: "0x25 \<notin> set (?n @ qs '' ('' @ ?i)" using assms by (simp add: qs_def)
  have "q_arg ((?n @ qs '' ('' @ ?i) @ qs '', %3)'') ?p = (?n @ qs '' ('' @ ?i) @ qs '', '' @ ?p @ qs '')''"
    unfolding arg_skip [OF m] peer_formats ..
  ultimately show ?thesis by (simp add: peer_text_def)
qed

text \<open>A blank cuts the search: no occurrence of the opening goes across it.\<close>

lemma starts_cut: "q_startsWith (w @ 0x20 # r) (qs ''(mc_'') = q_startsWith w (qs ''(mc_'')"
proof (cases "length w \<ge> 4")
  case False
  then have "0x20 \<in> set (take 4 (w @ 0x20 # r))" by (simp add: take_Cons' )
  moreover have "(0x20 :: u16) \<notin> set (qs ''(mc_'')" by (simp add: qs_def)
  ultimately have "take 4 (w @ 0x20 # r) \<noteq> qs ''(mc_''" by metis
  moreover have "take 4 w \<noteq> qs ''(mc_''" using False by (auto dest: arg_cong [where f = length])
  moreover have "length (qs ''(mc_'') = 4" by simp
  ultimately show ?thesis unfolding q_startsWith_def by metis
qed (simp add: q_startsWith_def)

lemma find_cut:
  "q_find (qs ''(mc_'') (w @ 0x20 # r) = (case q_find (qs ''(mc_'') w of Some i \<Rightarrow> Some i
     | None \<Rightarrow> map_option (\<lambda>k. length w + k) (q_find (qs ''(mc_'') (0x20 # r)))"
proof (induction w)
  case Nil
  show ?case by (cases "q_find (qs ''(mc_'') (0x20 # r)") (simp_all add: q_find.simps(1) del: q_find.simps(2))
next
  case (Cons u w)
  then show ?case using starts_cut [of "u # w" r]
    by (auto simp: option.map_comp comp_def split: option.splits)
qed

lemma find_within: "q_find p s = Some i \<Longrightarrow> i \<le> length s"
  by (induction s arbitrary: i) (auto split: if_splits)

lemma find_inside: "q_find p s = Some i \<Longrightarrow> p \<noteq> [] \<Longrightarrow> i < length s"
  by (induction s arbitrary: i) (auto simp: q_startsWith_def split: if_splits)

lemma index_None: "q_indexOf c a = None \<Longrightarrow> c \<notin> set a"
  by (induction a) (auto split: if_splits)

lemma index_first: "q_indexOf c a = Some k \<Longrightarrow> q_indexOf c (a @ b) = Some k"
  by (induction a arbitrary: k) (auto split: if_splits)

lemma index_after: "c \<notin> set a \<Longrightarrow> q_indexOf c (a @ c # b) = Some (length a)"
  by (induction a) auto

lemma index_bound: "q_indexOf c s = Some k \<Longrightarrow> k < length s"
  by (induction s arbitrary: k) (auto split: if_splits)

text \<open>
  C28: Selecting a discovered device (with a valid id and no percent sign in its name)
  selects its id if its display name does not contain the opening "(mc_". If it does, what
  is selected starts behind that parenthesis: it is the name up to the next comma, or, when
  no comma follows in the name, the rest of the name with " (" and the id behind it. So a
  device can make itself be addressed as any other.
\<close>

theorem selected_peer_follows_name:
  assumes "isValidDeviceId (dev_deviceId d)" and "0x25 \<notin> set (dev_displayName d)"
    and "sel = ui_selectedPeerId (onPeerSelected (int (length (ui_peerList s))) (onDeviceDiscovered d s))"
  shows "(q_find (qs ''(mc_'') (dev_displayName d) = None \<longrightarrow> sel = dev_deviceId d)
    \<and> (\<forall>i k. q_find (qs ''(mc_'') (dev_displayName d) = Some i \<longrightarrow> q_indexOf 0x2C (drop i (dev_displayName d)) = Some k
        \<longrightarrow> sel = take (k - 1) (drop (i + 1) (dev_displayName d)))
    \<and> (\<forall>i. q_find (qs ''(mc_'') (dev_displayName d) = Some i \<longrightarrow> q_indexOf 0x2C (drop i (dev_displayName d)) = None
        \<longrightarrow> sel = drop (i + 1) (dev_displayName d) @ qs '' ('' @ dev_deviceId d)"
proof -
  let ?n = "dev_displayName d" and ?i = "dev_deviceId d" and ?o = "qs ''(mc_''"
  obtain v where v: "?i = qs ''mc_'' @ v"
    using assms(1) by (auto simp: isValidDeviceId_def q_startsWith_def split: if_splits) (metis append_take_drop_id)
  have units: "u \<noteq> 0x25 \<and> u \<noteq> 0x2C" if "u \<in> set ?i" for u
  proof -
    have "id_unit u \<or> u = 0x0A"
    proof (cases "last ?i = 0x0A")
      case True
      then have "list_all id_unit (butlast ?i)" and "?i \<noteq> []"
        using assms(1) v by (auto simp: isValidDeviceId_def id_regex_def Let_def split: if_splits)
      then show ?thesis using that True by (metis append_butlast_last_id insert_iff list.set(2) list_all_iff rotate1.simps(2) set_rotate1)
    next
      case False
      then show ?thesis using assms(1) that by (auto simp: isValidDeviceId_def id_regex_def Let_def list_all_iff split: if_splits)
    qed
    then show ?thesis by (auto simp: id_unit_def)
  qed
  define r where
    "r = qs ''('' @ ?i @ qs '', '' @ platformToString (dev_platform d) @ qs '')''"
  have shown: "peer_text d = ?n @ 0x20 # r"
    using peer_text_plain [OF assms(2)] units by (auto simp: r_def qs_def)
  have sel: "sel = ui_selectedPeerId (case q_find ?o (peer_text d) of None \<Rightarrow> s
      | Some i \<Rightarrow> (case q_indexOf 0x2C (drop i (peer_text d)) of None \<Rightarrow> s
          | Some n \<Rightarrow> s\<lparr>ui_selectedPeerId := take (n - 1) (drop (i + 1) (peer_text d))\<rparr>))"
    unfolding assms(3) by (simp add: onPeerSelected_def onDeviceDiscovered_def Let_def nth_append split: option.split)
  have open_at: "q_find ?o (0x20 # r) = Some 1"
    by (simp add: r_def v q_startsWith_def qs_def)
  show ?thesis
  proof (intro conjI allI impI)
    assume "q_find ?o ?n = None"
    then have "q_find ?o (peer_text d) = Some (length ?n + 1)" unfolding shown find_cut open_at by simp
    moreover have "drop (length ?n + 1) (peer_text d) = r" by (simp add: shown)
    moreover have "q_indexOf 0x2C r = Some (length ?i + 1)"
    proof -
      have "0x2C \<notin> set (qs ''('' @ ?i)" using units by (auto simp: qs_def)
      then show ?thesis
        using index_after [of "0x2C" "qs ''('' @ ?i" "qs '' '' @ platformToString (dev_platform d) @ qs '')''"]
        by (simp add: r_def qs_def)
    qed
    moreover have "drop (length ?n + 1 + 1) (peer_text d) = drop 1 r" by (simp add: shown)
    moreover have "take (length ?i) (drop 1 r) = ?i" by (simp add: r_def qs_def)
    ultimately show "sel = ?i" unfolding sel by simp
  next
    fix i k assume f: "q_find ?o ?n = Some i" and k: "q_indexOf 0x2C (drop i ?n) = Some k"
    have i: "i \<le> length ?n" by (rule find_within [OF f])
    have "q_find ?o (peer_text d) = Some i" unfolding shown find_cut f by simp
    moreover have "q_indexOf 0x2C (drop i (peer_text d)) = Some k" using index_first [OF k] i by (simp add: shown)
    moreover have "take (k - 1) (drop (i + 1) (peer_text d)) = take (k - 1) (drop (i + 1) ?n)"
      using index_bound [OF k] i by (simp add: shown)
    ultimately show "sel = take (k - 1) (drop (i + 1) ?n)" unfolding sel by simp
  next
    fix i assume f: "q_find ?o ?n = Some i" and none: "q_indexOf 0x2C (drop i ?n) = None"
    let ?pre = "drop i ?n @ qs '' ('' @ ?i"
    have i: "i < length ?n" using find_inside [OF f] by (simp add: qs_def)
    have tail: "drop i (peer_text d) = ?pre @ 0x2C # (qs '' '' @ platformToString (dev_platform d) @ qs '')'')"
      using i by (simp add: shown r_def qs_def)
    have "0x2C \<notin> set ?pre" using units index_None [OF none] by (auto simp: qs_def)
    then have "q_indexOf 0x2C (drop i (peer_text d)) = Some (length ?pre)" unfolding tail by (rule index_after)
    moreover have "q_find ?o (peer_text d) = Some i" unfolding shown find_cut f by simp
    moreover have "take (length ?pre - 1) (drop (i + 1) (peer_text d)) = drop (i + 1) ?n @ qs '' ('' @ ?i"
      using i by (simp add: shown r_def qs_def)
    ultimately show "sel = drop (i + 1) ?n @ qs '' ('' @ ?i" unfolding sel by simp
  qed
qed


section \<open>Witnesses\<close>

definition env_ex :: ui_env where
  "env_ex = \<lparr>ue_qt = qt0, ue_fl = fl0, ue_os = os0, ue_call = quiet0, ue_mq = me0, ue_uuid = qs ''1234'', ue_yes = True,
     ue_directory = [], ue_downloads = qs ''/tmp''\<rparr>"

theorem application_never_connects_witness:
  "ui_socket (ui_step env_ex ClickSend (ui_step env_ex (EditText (qs ''hi'')) (ui_start (\<lambda>_. None)))) = p2p_init"
proof -
  have "ui_reach (ui_step env_ex ClickSend (ui_step env_ex (EditText (qs ''hi'')) (ui_start (\<lambda>_. None))))"
    by (intro ui_reach.step ui_reach.start) simp_all
  from application_never_connects [OF this] show ?thesis by blast
qed

definition mallory :: device where
  "mallory = \<lparr>dev_deviceId = qs ''mc_mallory'', dev_displayName = qs ''Al (mc_alice, x)'', dev_platform = Linux, dev_lastSeen = 0,
     dev_isOnline = True, dev_virtualIp = []\<rparr>"

theorem selected_peer_follows_name_witness:
  "ui_selectedPeerId (onPeerSelected 0 (onDeviceDiscovered mallory (ui_start (\<lambda>_. None)))) = qs ''mc_alice''"
proof -
  have v: "isValidDeviceId (dev_deviceId mallory)" "0x25 \<notin> set (dev_displayName mallory)"
    by (simp_all add: mallory_def isValidDeviceId_def id_regex_def q_startsWith_def id_unit_def qs_def Let_def)
  have f: "q_find (qs ''(mc_'') (dev_displayName mallory) = Some 3"
    by (simp add: mallory_def q_startsWith_def qs_def)
  have k: "q_indexOf 0x2C (drop 3 (dev_displayName mallory)) = Some 9"
    by (simp add: mallory_def qs_def)
  have "take (9 - 1) (drop (3 + 1) (dev_displayName mallory)) = qs ''mc_alice''" by (simp add: mallory_def qs_def)
  then show ?thesis
    using selected_peer_follows_name [OF v refl, of "ui_start (\<lambda>_. None)"] f k by (simp add: ui_start_def)
qed

end
