(* ===== verification/Logger.thy ===== *)
theory Logger
  imports QtFormat
begin

text \<open>
  src/core/logger.cpp: a line is the time, the level, the tag and the message, written to the
  standard output in the order of the calls (a mutex keeps concurrent calls apart, so a
  call is one step here). The time is the text the clock gives.
\<close>

datatype log_level = LogDebug | LogInfo | LogWarning | LogError

fun levelToString :: "log_level \<Rightarrow> qstring" where
  "levelToString LogDebug = qs ''DEBUG''"
| "levelToString LogInfo = qs ''INFO''"
| "levelToString LogWarning = qs ''WARN''"
| "levelToString LogError = qs ''ERROR''"

definition log_line :: "qstring \<Rightarrow> log_level \<Rightarrow> qstring \<Rightarrow> qstring \<Rightarrow> qstring" where
  "log_line timestamp level tag message = q_args (qs ''[%1] [%2] [%3] %4'') [timestamp, levelToString level, tag, message]"

text \<open>The output as one text; \<open>std::endl\<close> ends the line.\<close>

definition logger_log :: "qstring \<Rightarrow> log_level \<Rightarrow> qstring \<Rightarrow> qstring \<Rightarrow> qstring \<Rightarrow> qstring" where
  "logger_log timestamp level tag message out = out @ log_line timestamp level tag message @ [0x0A]"

definition logger_debug :: "qstring \<Rightarrow> qstring \<Rightarrow> qstring \<Rightarrow> qstring \<Rightarrow> qstring" where
  "logger_debug timestamp = logger_log timestamp LogDebug"

definition logger_info :: "qstring \<Rightarrow> qstring \<Rightarrow> qstring \<Rightarrow> qstring \<Rightarrow> qstring" where
  "logger_info timestamp = logger_log timestamp LogInfo"

definition logger_warning :: "qstring \<Rightarrow> qstring \<Rightarrow> qstring \<Rightarrow> qstring \<Rightarrow> qstring" where
  "logger_warning timestamp = logger_log timestamp LogWarning"

definition logger_error :: "qstring \<Rightarrow> qstring \<Rightarrow> qstring \<Rightarrow> qstring \<Rightarrow> qstring" where
  "logger_error timestamp = logger_log timestamp LogError"

text \<open>
  The four texts are put in at once: a percent sign in the tag or the message is not taken for a
  place.
\<close>

lemma log_pieces: "arg_pieces (qs ''[%1] [%2] [%3] %4'')
  = [Unit 0x5B, Place 1 (qs ''%1''), Unit 0x5D, Unit 0x20, Unit 0x5B, Place 2 (qs ''%2''), Unit 0x5D, Unit 0x20,
     Unit 0x5B, Place 3 (qs ''%3''), Unit 0x5D, Unit 0x20, Place 4 (qs ''%4'')]"
  by (simp add: qs_def arg_marker_def arg_number_def q_digit_def)

lemma log_line_exact:
  "log_line timestamp level tag message
    = qs ''['' @ timestamp @ qs ''] ['' @ levelToString level @ qs ''] ['' @ tag @ qs ''] '' @ message"
  by (simp add: log_line_def q_args_def log_pieces Let_def) (simp add: qs_def)

text \<open>
  A line break in the tag or the message is written as it is: a call writes one line more for each.
\<close>

lemma lines_written:
  assumes "0x0A \<notin> set timestamp"
  shows "count_list (logger_log timestamp level tag message out) 0x0A
    = count_list out 0x0A + count_list tag 0x0A + count_list message 0x0A + 1"
proof -
  have "count_list timestamp 0x0A = 0" using assms by (simp add: count_list_0_iff)
  moreover have "count_list (levelToString level) 0x0A = 0" by (cases level) (simp_all add: qs_def)
  ultimately show ?thesis by (simp add: logger_log_def log_line_exact) (simp add: qs_def)
qed

end
