(* ===== verification/Display.thy ===== *)
theory Display
  imports MainWindow Logger
begin

text \<open>
  The texts of src/ui/mainwindow.cpp: what a paragraph of the chat display, the label of the transfer,
  the label of the typing peers and the question for a file offer read. The chat display
  takes its paragraphs as rich text. The message of an error is an argument: the events of the model leave it out.
\<close>

section \<open>Texts\<close>

definition q_number :: "int \<Rightarrow> qstring" where
  "q_number i = map ucast (qb_number i)"

definition my_message_text :: "qstring \<Rightarrow> qstring \<Rightarrow> qstring" where
  "my_message_text msgId content =
    q_arg (q_arg (qs ''<div id='%1'><b>Me:</b> %2 <span style='color: #888; font-size: 10px;'>[Sending...]</span></div>'') msgId)
      (toHtmlEscaped content)"

definition peer_message_text :: "qstring \<Rightarrow> qstring \<Rightarrow> qstring" where
  "peer_message_text sender content = q_arg (q_arg (qs ''<b>%1:</b> %2'') (toHtmlEscaped sender)) (toHtmlEscaped content)"

definition offer_sent_text :: "qstring \<Rightarrow> int \<Rightarrow> qstring" where
  "offer_sent_text name n =
    q_arg (q_arg (qs ''<span style='color: #0D6EFD;'><b>[File Offer Sent]:</b> %1 (%2 bytes)</span>'') name) (q_number n)"

definition transfer_accepted_text :: "qstring \<Rightarrow> qstring" where
  "transfer_accepted_text name = q_arg (qs ''<span style='color: #198754;'><b>[File Transfer Accepted]:</b> %1</span>'') name"

definition transfer_rejected_text :: "qstring \<Rightarrow> qstring" where
  "transfer_rejected_text name = q_arg (qs ''<span style='color: #dc3545;'><b>[File Transfer Rejected]:</b> %1</span>'') name"

definition transfer_complete_text :: "qstring \<Rightarrow> qstring" where
  "transfer_complete_text path =
    q_arg (qs ''<span style='color: #198754;'><b>[File Transfer Complete]:</b> Saved to %1</span>'') path"

definition transfer_failed_text :: "qstring \<Rightarrow> qstring" where
  "transfer_failed_text err = q_arg (qs ''<span style='color: #dc3545;'><b>[File Transfer Failed]:</b> %1</span>'') err"

definition transfer_cancelled_text :: "qstring \<Rightarrow> qstring" where
  "transfer_cancelled_text reason =
    q_arg (qs ''<span style='color: #6c757d;'><b>[File Transfer Cancelled]:</b> %1</span>'') reason"

fun display_text :: "qstring \<Rightarrow> display_entry \<Rightarrow> qstring" where
  "display_text err (MyMessage msgId content) = my_message_text msgId content"
| "display_text err (PeerMessage sender content) = peer_message_text sender content"
| "display_text err (OfferSent name n) = offer_sent_text name n"
| "display_text err (TransferAcceptedText name) = transfer_accepted_text name"
| "display_text err (TransferRejectedText name) = transfer_rejected_text name"
| "display_text err (TransferSavedText path) = transfer_complete_text path"
| "display_text err TransferFailedText = transfer_failed_text err"
| "display_text err (TransferCancelledText reason) = transfer_cancelled_text reason"

definition offering_label :: "qstring \<Rightarrow> qstring" where
  "offering_label name = q_arg (qs ''Offering file: %1'') name"

definition receiving_label :: "qstring \<Rightarrow> qstring" where
  "receiving_label name = q_arg (qs ''Receiving %1...'') name"

definition progress_label :: "int \<Rightarrow> int \<Rightarrow> int \<Rightarrow> qstring" where
  "progress_label t n percent =
    q_arg (q_arg (q_arg (qs ''Transferring: %1 / %2 bytes (%3%)'') (q_number t)) (q_number n)) (q_number percent)"

definition complete_label :: qstring where
  "complete_label = qs ''Transfer Complete! Verified SHA-256.''"

definition failed_label :: "qstring \<Rightarrow> qstring" where
  "failed_label err = q_arg (qs ''Transfer Failed: %1'') err"

definition cancelled_label :: "qstring \<Rightarrow> qstring" where
  "cancelled_label reason = q_arg (qs ''Transfer Cancelled (%1)'') reason"

fun transfer_label_text :: "qstring \<Rightarrow> transfer_label \<Rightarrow> qstring" where
  "transfer_label_text err NoTransfer = []"
| "transfer_label_text err (OfferingFile name) = offering_label name"
| "transfer_label_text err (ReceivingFile name) = receiving_label name"
| "transfer_label_text err (TransferringBytes t n percent) = progress_label t n percent"
| "transfer_label_text err TransferVerified = complete_label"
| "transfer_label_text err TransferFailedLabel = failed_label err"
| "transfer_label_text err (TransferCancelledLabel reason) = cancelled_label reason"

definition typing_text :: "qstring option \<Rightarrow> qstring" where
  "typing_text peer = (case peer of Some peerId \<Rightarrow> q_arg (qs ''%1 is typing...'') peerId | None \<Rightarrow> [])"

definition offer_question :: "file_offer \<Rightarrow> qstring" where
  "offer_question offer = q_arg (q_arg
     (qs ''Incoming file offer:'' @ [0x0A] @ qs ''Name: %1'' @ [0x0A] @ qs ''Size: %2 bytes'' @ [0x0A, 0x0A]
        @ qs ''Do you want to accept this transfer?'') (fo_fileName offer)) (q_number (fo_fileSize offer))"

text \<open>\<open>onMessageStatusChanged\<close> only writes to the log.\<close>

fun message_state_text :: "message_state \<Rightarrow> qstring" where
  "message_state_text Sent = qs ''[Sent]''"
| "message_state_text Delivered = qs ''[Delivered]''"
| "message_state_text Read = qs ''[Read]''"
| "message_state_text Failed = qs ''[Failed '' @ [0x274C] @ qs '']''"
| "message_state_text _ = qs ''[Pending]''"

definition onMessageStatusChanged :: "qstring \<Rightarrow> qstring \<Rightarrow> message_state \<Rightarrow> qstring \<Rightarrow> qstring" where
  "onMessageStatusChanged timestamp msgId st =
    logger_info timestamp (qs ''MainWindow'')
      (q_arg (q_arg (qs ''Message status updated for %1: %2'') msgId) (message_state_text st))"

section \<open>What a peer can put into the display\<close>

lemma chat_formats:
  "filter markup (qs ''<b>%1:</b> %2'') = qs ''<><>''"
  "q_arg (qs ''<b>%1:</b> %2'') x = qs ''<b>'' @ x @ qs '':</b> %2''"
  "q_arg (qs '':</b> %2'') x = qs '':</b> '' @ x"
  by (simp_all add: q_arg_def qs_def Let_def arg_marker_def arg_number_def q_digit_def markup_def)

lemma escaped_plain: "0x25 \<notin> set s \<Longrightarrow> 0x25 \<notin> set (toHtmlEscaped s)"
  by (induction s) (auto simp: toHtmlEscaped_def qs_def)

lemma peer_paragraph:
  assumes "0x25 \<notin> set sender"
  shows "peer_message_text sender content
    = qs ''<b>'' @ toHtmlEscaped sender @ qs '':</b> '' @ toHtmlEscaped content"
proof -
  have "0x25 \<notin> set (qs ''<b>'' @ toHtmlEscaped sender)" using escaped_plain [OF assms] by (simp add: qs_def)
  from arg_skip [OF this] show ?thesis by (simp add: peer_message_text_def chat_formats)
qed

lemma rejected_format: "transfer_rejected_text name
    = qs ''<span style='color: #dc3545;'><b>[File Transfer Rejected]:</b> '' @ name @ qs ''</span>''"
  by (simp add: transfer_rejected_text_def q_arg_def qs_def Let_def arg_marker_def arg_number_def q_digit_def)

text \<open>A sender with a place in its name takes the content into the name.\<close>

lemma placed_sender:
  "peer_message_text (qs ''%1'') content = qs ''<b>'' @ toHtmlEscaped content @ qs '':</b> %2''"
proof -
  have "toHtmlEscaped (qs ''%1'') = qs ''%1''" by (simp add: toHtmlEscaped_def qs_def)
  then show ?thesis by (simp add: peer_message_text_def chat_formats) (simp add: q_arg_def qs_def Let_def arg_marker_def arg_number_def q_digit_def)
qed

text \<open>
  C27: The paragraph of a chat message holds no markup but that of its template, whatever
  the peer sends, and reads as the template says unless the sender id has a percent sign: an
  id of "%1" takes the content into the place of the sender. The name of an offered file
  goes into the display as it is.
\<close>

theorem display_markup:
  "filter markup (display_text err (PeerMessage sender content)) = qs ''<><>''
    \<and> filter markup (display_text err (MyMessage msgId content)) = filter markup (display_text err (MyMessage msgId []))
    \<and> (0x25 \<notin> set sender \<longrightarrow> display_text err (PeerMessage sender content)
         = qs ''<b>'' @ toHtmlEscaped sender @ qs '':</b> '' @ toHtmlEscaped content)
    \<and> display_text err (PeerMessage (qs ''%1'') content) = qs ''<b>'' @ toHtmlEscaped content @ qs '':</b> %2''
    \<and> display_text err (TransferRejectedText name)
        = qs ''<span style='color: #dc3545;'><b>[File Transfer Rejected]:</b> '' @ name @ qs ''</span>''"
proof -
  have "filter markup (display_text err (PeerMessage sender content)) = qs ''<><>''"
    "filter markup (display_text err (MyMessage msgId content)) = filter markup (display_text err (MyMessage msgId []))"
    using arg_escaped [of _ "[]"] by (simp_all add: peer_message_text_def my_message_text_def arg_escaped chat_formats(1))
  then show ?thesis using peer_paragraph placed_sender by (simp add: rejected_format)
qed

theorem display_markup_witness:
  "display_text [] (PeerMessage (qs ''mc_a'') (qs ''<i>'')) = qs ''<b>mc_a:</b> &lt;i&gt;''"
proof -
  have "0x25 \<notin> set (qs ''mc_a'')" by (simp add: qs_def)
  then have "display_text [] (PeerMessage (qs ''mc_a'') (qs ''<i>''))
      = qs ''<b>'' @ toHtmlEscaped (qs ''mc_a'') @ qs '':</b> '' @ toHtmlEscaped (qs ''<i>'')"
    using display_markup by blast
  then show ?thesis by (simp add: toHtmlEscaped_def qs_def)
qed


end
