(* ===== verification/Spec2Isabelle.thy ===== *)
theory Spec2Isabelle
  imports Handshake WireGuard Config Display
begin

text \<open>
  \<^bold>\<open>MeckChat for Linux\<close>: the protocol, network and crypto layers of the peer-to-peer client,
  modelled from the C++ sources under src/.

  \<^bold>\<open>The program.\<close> Peers find each other through an MQTT broker, agree on keys in a password
  authenticated pairing, put their devices into a WireGuard network, and exchange chat messages
  and files as checksummed frames over one TCP connection inside it. The main window owns one
  signaling client, one peer-to-peer socket, one tunnel service and the two controllers for chat
  and files, which share the socket.

  \<^bold>\<open>Theories and sources.\<close>
  \<^item> \<open>Prelude\<close>: words of 8, 16 and 32 bits, big-endian fields, slices of byte lists.
  \<^item> \<open>Crc32\<close>, \<open>Framing\<close>: src/protocol/framing.cpp. \<open>calculateCrc32\<close> is the bitwise loop
    of the code; \<open>encode_frame\<close> and \<open>decode_frame\<close> keep the order of the checks. The locale
    \<open>canonical_codec\<close> states what a codec with unique encodings promises; \<open>frames\<close> interprets it.
  \<^item> \<open>StreamBuffer\<close>, \<open>P2PSocket\<close>: src/network/p2p_socket.cpp. \<open>stream_loop\<close> is the loop of
    \<open>processStreamBuffer\<close>, \<open>p2p\<close> the members of the class with the state of its
    \<open>QTcpSocket\<close>, \<open>p2p_step\<close> one call or one signal of Qt. The locale \<open>stream_splitter\<close>
    says that the cut of a stream does not matter, \<open>transport\<close> that what is accepted is what is
    written; the first is interpreted for the frames and for the packets of MQTT, the second for
    the socket and for the controllers' view of it.
  \<^item> \<open>QtBase\<close>, \<open>QMap\<close>: the parts of Qt the code uses. Strings are lists of UTF-16 units; what
    the program only calls (codecs, JSON text, address parsing) is the parameter \<open>qt_lib\<close>, and a
    documented law of it is a named hypothesis; \<open>QMap\<close> is a sorted association list, with the
    locale \<open>key_store\<close>. \<open>QtInstance\<close> gives a library that satisfies the laws.
  \<^item> \<open>Models\<close>, \<open>Messages\<close>: src/protocol/models.cpp and models.h, the messages with their JSON
    forms, the binary file chunk, the sanitiser of file names, the pairing transcripts.
  \<^item> \<open>Link\<close>: the calls of the controllers to the socket, and the surroundings of one call.
  \<^item> \<open>Chat\<close>: src/protocol/chat_controller.cpp. \<open>chat\<close> holds the tracked messages, the
    acknowledgement timers, the cache of received ids and the typing state.
  \<^item> \<open>FileTransfer\<close>: src/protocol/file_transfer_controller.cpp. \<open>ft\<close> holds the sessions, the
    queued timer events and the file system.
  \<^item> \<open>Crypto\<close>: src/crypto/crypto_provider.cpp. The record \<open>openssl\<close> is the contract the handshake
    uses; the functions \<open>evp_...\<close> are the code call by call, in the state monad over a heap of
    OpenSSL objects, whose answers are the parameter \<open>evp_lib\<close>.
  \<^item> \<open>Pairing\<close>: src/crypto/pairing_session.cpp over this contract. \<open>Handshake\<close>: its three functions
    for the handshake over the code instead, in the same monad.
  \<^item> \<open>MqttCodec\<close>, \<open>Mqtt\<close>: src/network/mqtt_signaling.cpp, the packet codec and the session.
  \<^item> \<open>Netlink\<close>: src/network/netlink_wireguard.cpp, messages byte by byte; the kernel is the
    parameter \<open>kernel\<close>, which turns a state of any type and a request into a state and a reply.
  \<^item> \<open>WireGuard\<close>: src/network/wireguard_service.cpp over these calls.
  \<^item> \<open>QtFormat\<close>, \<open>Logger\<close>: how Qt puts texts together, and src/core/logger.cpp.
  \<^item> \<open>Config\<close>: src/core/config.cpp, the settings and the device id of the first start.
  \<^item> \<open>MainWindow\<close>: src/ui/mainwindow.cpp, the slots and connections of the window; \<open>ui\<close> holds the
    models of the signaling client, the socket and both controllers, and \<open>ui_step\<close> lets the user, the
    timers and the network act on the program as a whole. The locale \<open>silent_signals\<close> is the contract of
    slots with signals that mean nothing to them, interpreted for those of both controllers.
  \<^item> \<open>Display\<close>: the texts the window shows, also of src/ui/mainwindow.cpp.
  \<^item> This theory: src/main.cpp.

  \<^bold>\<open>How code became definitions.\<close> A class is a record of its members. A method or slot is one
  function from the state to the new state and the signals it emits, in order, with a branch for
  every early return. Timers are members that say whether they run; a step relation
  (\<open>chat_reach\<close>, \<open>ft_reach\<close>, \<open>p2p_reach\<close>, \<open>mq_reach\<close>, \<open>wg_reach\<close>, \<open>ui_reach\<close>) lets the user, the network,
  the timers and other programs act in any order. Clock, random numbers and answers of the
  operating system are arguments.

  \<^bold>\<open>What the lemmas show.\<close>
  \<^item> Frames: a packet is accepted if and only if it is an encoding; errors in any four
    consecutive bytes are found; a stream cut anywhere is put together again, but for one case
    that is proved to lose a frame.
  \<^item> Socket: memory is bounded in every reachable state, and from one end to the other exactly
    the frames that were accepted arrive.
  \<^item> Chat: exactly the open messages have timers, a message is not delivered twice, an
    unanswered one fails, an answered one becomes delivered.
  \<^item> Files: a completed download has the announced hash, unless an offer took over the id of a
    sending under way (which is shown to skip the check); the whole exchange brings the file across;
    the chain of scheduled chunks ends whatever the file system and the socket do; corruption and order errors end in a failure; a short write is not noticed.
  \<^item> Cryptography: the code computes what its contract says, frees every OpenSSL object exactly
    once on every path, and gives secrets back wiped but in one branch. The handshake over this code
    returns what the handshake over the contract does, and wipes its keys, but not shared secrets.
  \<^item> Pairing: two devices with one password agree on their secret; what is accepted was
    authenticated, and only once; what the proof does not cover is shown as well.
  \<^item> Signaling: chunks do not matter, presence arrives, a lost session is resumed, but a
    connection that never came up is not tried again.
  \<^item> Tunnel: the kernel reads from a message what was asked for; a start sends its requests in
    order; stored peers are single hosts of the tunnel network; two errors of the bookkeeping.
  \<^item> The whole: with the calls the window makes, the program never opens a connection, so the
    properties of the components above hold for their classes, not for the running program; and
    the selection of a peer follows the name the peer chose. The text of a chat message cannot bring
    markup into the display, the name of a file can.

  \<^bold>\<open>Bounds and fuel.\<close> Loops recurse on a decreasing length (\<open>stream_loop\<close>, \<open>take_packet\<close>,
  \<open>family_loop\<close>, \<open>device_loop\<close>) or on the data. \<open>nla_parse\<close>, the reading side of the
  specification, has fuel: the length of the message is enough, as its theorem shows. Lengths keep
  their width (16-bit attributes, 32-bit payloads and messages), and theorems carry the bounds
  under which nothing wraps.

  \<^bold>\<open>Not modelled.\<close> The calls of the logger inside the components and the text of error messages; the
  layout and the styles of the widgets; TLS, TCP, the broker, OpenSSL and the kernel, which
  are the environment. The clock is read once in a call, and slots of other objects run after the
  call that signals them.
\<close>

section \<open>The program\<close>

text \<open>
  The constructor of the settings loads them already, when \<open>main\<close> first asks for the instance; \<open>main\<close>
  then loads them again. A load draws a UUID only if there is no device id.
\<close>

definition config_instance :: "qstring \<Rightarrow> settings \<Rightarrow> app_config \<times> settings" where
  "config_instance uuid st = config_load uuid st config_init"

definition app_main :: "qstring \<Rightarrow> qstring \<Rightarrow> settings \<Rightarrow> fs \<Rightarrow> app_config \<times> settings \<times> ui" where
  "app_main uuid1 uuid2 st fs =
    (case config_instance uuid1 st of (c1, st1) \<Rightarrow>
     case config_load uuid2 st1 c1 of (c2, st2) \<Rightarrow> (c2, st2, ui_start fs))"

text \<open>The second load changes nothing, and the next start of the program finds the same identity.\<close>

lemma config_load_again: "config_load uuid st c = (c1, st1) \<Longrightarrow> config_load uuid' st1 c1 = (c1, st1)"
  by (auto simp: config_load_def setting_def Let_def qs_def split: option.splits if_splits)

lemma app_main_once: "app_main uuid1 uuid2 st fs = (fst (config_instance uuid1 st), snd (config_instance uuid1 st), ui_start fs)"
  using config_load_again [of uuid1 st config_init] by (simp add: app_main_def config_instance_def split: prod.split)

lemma app_main_restart:
  "app_main uuid1 uuid2 st fs = (c, st', s) \<Longrightarrow> app_main uuid3 uuid4 st' fs' = (c', st'', s') \<Longrightarrow>
    cf_deviceId c' = cf_deviceId c \<and> st'' = st' \<and> ui_reach s'"
  using device_id_stable [of uuid1 st config_init "fst (config_instance uuid1 st)" "snd (config_instance uuid1 st)" uuid3 config_init]
  by (auto simp: app_main_once config_instance_def intro: ui_reach.start)

end
